(* ===== verification/Prelude.thy ===== *)
theory Prelude
  imports Main "HOL-Library.Multiset" "HOL-Library.Char_ord" "HOL-Library.List_Lexorder"
begin

text \<open>
  The prelude of the development: the names of the types every component shares, the
  collections of simplification rules the component proofs draw on, the outcome of one call
  to an outside service, and the generic facts about keyed tables (lists of rows with a key
  column) that the SQL statements of \<^verbatim>\<open>internal/store\<close> are translated to.
\<close>

section \<open>Shared types\<close>

type_synonym time = int
  \<comment> \<open>an instant, in nanoseconds since the epoch (Go's \<open>time.Time\<close>, SQL's \<open>now()\<close>)\<close>

type_synonym duration = int
  \<comment> \<open>Go's \<open>time.Duration\<close>: nanoseconds\<close>

abbreviation second :: duration where
  "second \<equiv> 1000000000"

named_theorems row_simps
  \<open>equations that compute with rows and tables\<close>

named_theorems op_defs
  \<open>definitions of the operations, unfolded together when a whole operation is evaluated\<close>

section \<open>The outcome of one call to a service\<close>

text \<open>
  A call to PostgreSQL or Redis can succeed, can fail before it takes effect (the connection is
  refused, the server rejects the statement), and can fail after it took effect (the reply is
  lost). A script is the list of the outcomes of the next calls; past its end every call
  succeeds. Theorems that quantify over the script cover every pattern of failures.
\<close>

datatype outcome = Okay | Fails string | Lost string

fun with_outcome :: "outcome \<Rightarrow> ('s \<Rightarrow> 'a \<times> 's) \<Rightarrow> 's \<Rightarrow> (string + 'a) \<times> 's" where
  "with_outcome Okay f s = (Inr (fst (f s)), snd (f s))"
| "with_outcome (Fails e) f s = (Inl e, s)"
| "with_outcome (Lost e) f s = (Inl e, snd (f s))"

lemma with_outcome_cases:
  obtains (ran) a where "with_outcome x f s = (a, snd (f s))"
  | (skipped) e where "with_outcome x f s = (Inl e, s)"
  by (cases x) auto

lemma with_outcome_Inr:
  "with_outcome x f s = (Inr a, t) \<longleftrightarrow> x = Okay \<and> f s = (a, t)"
  by (cases x) (auto simp: prod_eq_iff)

fun next_outcome :: "outcome list \<Rightarrow> outcome \<times> outcome list" where
  "next_outcome [] = (Okay, [])"
| "next_outcome (x # xs) = (x, xs)"

section \<open>Keyed tables\<close>

definition row_at :: "('r \<Rightarrow> 'k) \<Rightarrow> 'k \<Rightarrow> 'r list \<Rightarrow> 'r option" where
  "row_at key i rows = find (\<lambda>r. key r = i) rows"
  \<comment> \<open>SELECT ... WHERE id = i\<close>

definition sql_update :: "('r \<Rightarrow> bool) \<Rightarrow> ('r \<Rightarrow> 'r) \<Rightarrow> 'r list \<Rightarrow> 'r list" where
  "sql_update P f rows = map (\<lambda>r. if P r then f r else r) rows"
  \<comment> \<open>UPDATE ... SET f WHERE P\<close>

definition rows_matching :: "('r \<Rightarrow> bool) \<Rightarrow> 'r list \<Rightarrow> nat" where
  "rows_matching P rows = length (filter P rows)"
  \<comment> \<open>RowsAffected() of such an UPDATE\<close>

lemma row_at_simps [simp]:
  "row_at key i [] = None"
  "row_at key i (r # rs) = (if key r = i then Some r else row_at key i rs)"
  by (auto simp: row_at_def)

lemma row_at_Some [row_simps]: "row_at key i rows = Some r \<Longrightarrow> r \<in> set rows \<and> key r = i"
  by (induction rows) (auto split: if_splits)

lemma row_at_None: "row_at key i rows = None \<longleftrightarrow> i \<notin> key ` set rows"
  by (induction rows) auto

lemma row_at_distinct:
  "distinct (map key rows) \<Longrightarrow> r \<in> set rows \<Longrightarrow> row_at key (key r) rows = Some r"
  by (induction rows) auto

lemma row_at_append:
  "row_at key i (xs @ ys) = (case row_at key i xs of None \<Rightarrow> row_at key i ys | Some r \<Rightarrow> Some r)"
  by (induction xs) auto

lemma row_at_append_Some: "row_at key i xs = Some r \<Longrightarrow> row_at key i (xs @ ys) = Some r"
  by (simp add: row_at_append)

lemma sql_update_simps [simp]:
  "sql_update P f [] = []"
  "sql_update P f (r # rs) = (if P r then f r else r) # sql_update P f rs"
  by (auto simp: sql_update_def)

lemma rows_matching_simps [simp]:
  "rows_matching P [] = 0"
  "rows_matching P (r # rs) = (if P r then Suc (rows_matching P rs) else rows_matching P rs)"
  by (auto simp: rows_matching_def)

lemma set_sql_update: "set (sql_update P f rows) = (\<lambda>r. if P r then f r else r) ` set rows"
  by (simp add: sql_update_def)

lemma in_sql_update:
  "x \<in> set (sql_update P f rows) \<longleftrightarrow> (\<exists>r \<in> set rows. x = (if P r then f r else r))"
  by (auto simp: set_sql_update)

lemma sql_update_keys:
  "(\<And>r. key (f r) = key r) \<Longrightarrow> map key (sql_update P f rows) = map key rows"
  by (induction rows) auto

lemma row_at_sql_update:
  "(\<And>r. key (f r) = key r) \<Longrightarrow>
   row_at key i (sql_update P f rows) = map_option (\<lambda>r. if P r then f r else r) (row_at key i rows)"
  by (induction rows) auto

lemma sql_update_no_match: "rows_matching P rows = 0 \<Longrightarrow> sql_update P f rows = rows"
  by (induction rows) (auto split: if_splits)

lemma rows_matching_0: "rows_matching P rows = 0 \<longleftrightarrow> (\<forall>r \<in> set rows. \<not> P r)"
  by (induction rows) auto

lemma rows_matching_key_0:
  "rows_matching (\<lambda>r. key r = i) rows = 0 \<longleftrightarrow> row_at key i rows = None"
  by (induction rows) auto

lemma rows_matching_key:
  assumes "distinct (map key rows)"
  shows "rows_matching (\<lambda>r. key r = i \<and> Q r) rows =
    (case row_at key i rows of None \<Rightarrow> 0 | Some r \<Rightarrow> if Q r then 1 else 0)"
  using assms
proof (induction rows)
  case (Cons r rs)
  have "rows_matching (\<lambda>r. key r = i \<and> Q r) rs = 0" if "key r = i"
    using Cons.prems that by (simp add: rows_matching_0) (metis imageI)
  with Cons show ?case by auto
qed simp

lemma list_all_sql_update:
  assumes "list_all Q rows" and "\<And>r. r \<in> set rows \<Longrightarrow> P r \<Longrightarrow> Q r \<Longrightarrow> Q (f r)"
  shows "list_all Q (sql_update P f rows)"
  using assms by (auto simp: list_all_iff in_sql_update)

text \<open>
  A unique index over the rows that satisfy \<open>A\<close> survives an UPDATE that keeps the indexed columns
  and moves no row into the index.
\<close>

lemma distinct_index_update:
  assumes "\<And>r. k (f r) = k r" and "\<And>r. P r \<Longrightarrow> A (f r) \<Longrightarrow> A r"
    and "distinct (map k (filter A rows))"
  shows "distinct (map k (filter A (sql_update P f rows)))"
  using assms(3)
proof (induction rows)
  case (Cons r rs)
  have sub: "k ` (set (sql_update P f rs) \<inter> Collect A) \<subseteq> k ` (set rs \<inter> Collect A)"
    using assms(1,2) by (fastforce simp: in_sql_update split: if_splits)
  show ?case
    using Cons assms(1,2) sub by (auto split: if_splits)
qed simp

end
