(* ===== verification/Models.thy ===== *)
theory Models
  imports Prelude
begin

text \<open>
  The package \<^verbatim>\<open>internal/models\<close>: the job and runner types, their two state machines and the
  label test that is the only scheduling constraint. Jobs and runners are the rows the store
  keeps, so the field names are the column names with a prefix.
\<close>

section \<open>Jobs\<close>

datatype JobStatus = JobQueued | JobAssigned | JobRunning | JobSuccess | JobFailed | JobCancelled

fun string_of_JobStatus :: "JobStatus \<Rightarrow> string" where
  "string_of_JobStatus JobQueued = ''QUEUED''"
| "string_of_JobStatus JobAssigned = ''ASSIGNED''"
| "string_of_JobStatus JobRunning = ''RUNNING''"
| "string_of_JobStatus JobSuccess = ''SUCCESS''"
| "string_of_JobStatus JobFailed = ''FAILED''"
| "string_of_JobStatus JobCancelled = ''CANCELLED''"

fun jobTransitions :: "JobStatus \<Rightarrow> JobStatus list" where
  "jobTransitions JobQueued = [JobAssigned, JobCancelled]"
| "jobTransitions JobAssigned = [JobRunning, JobQueued, JobFailed, JobCancelled]"
| "jobTransitions JobRunning = [JobSuccess, JobFailed, JobCancelled, JobQueued]"
| "jobTransitions JobSuccess = []"
| "jobTransitions JobFailed = []"
| "jobTransitions JobCancelled = []"

definition CanTransitionTo :: "JobStatus \<Rightarrow> JobStatus \<Rightarrow> bool" where
  "CanTransitionTo s nxt = list_ex (\<lambda>allowed. allowed = nxt) (jobTransitions s)"

definition Terminal :: "JobStatus \<Rightarrow> bool" where
  "Terminal s \<longleftrightarrow> length (jobTransitions s) = 0"

record Job =
  j_id :: string
  j_repository :: string
  j_clone_url :: string
  j_commit_sha :: string
  j_branch :: string
  j_event_type :: string
  j_config_ref :: string
  j_labels :: "string list"
  j_status :: JobStatus
  j_runner_id :: "string option"
  j_attempts :: int
  j_exit_code :: "int option"
  j_error :: string
  j_created_at :: time
  j_started_at :: "time option"
  j_completed_at :: "time option"

definition ParseJobStatus :: "string \<Rightarrow> string + JobStatus" where
  "ParseJobStatus s =
     (case find (\<lambda>st. string_of_JobStatus st = s)
        [JobQueued, JobAssigned, JobRunning, JobSuccess, JobFailed, JobCancelled] of
        Some st \<Rightarrow> Inr st
      | None \<Rightarrow> Inl (''unknown job status '' @ s))"

section \<open>Runners\<close>

datatype RunnerStatus = RunnerIdle | RunnerBusy | RunnerOffline | RunnerDraining

fun string_of_RunnerStatus :: "RunnerStatus \<Rightarrow> string" where
  "string_of_RunnerStatus RunnerIdle = ''IDLE''"
| "string_of_RunnerStatus RunnerBusy = ''BUSY''"
| "string_of_RunnerStatus RunnerOffline = ''OFFLINE''"
| "string_of_RunnerStatus RunnerDraining = ''DRAINING''"

fun runnerTransitions :: "RunnerStatus \<Rightarrow> RunnerStatus list" where
  "runnerTransitions RunnerIdle = [RunnerBusy, RunnerOffline, RunnerDraining]"
| "runnerTransitions RunnerBusy = [RunnerIdle, RunnerOffline, RunnerDraining]"
| "runnerTransitions RunnerDraining = [RunnerOffline, RunnerIdle]"
| "runnerTransitions RunnerOffline = [RunnerIdle]"

definition RunnerCanTransitionTo :: "RunnerStatus \<Rightarrow> RunnerStatus \<Rightarrow> bool" where
  "RunnerCanTransitionTo s nxt = list_ex (\<lambda>allowed. allowed = nxt) (runnerTransitions s)"

record Runner =
  r_id :: string
  r_name :: string
  r_status :: RunnerStatus
  r_labels :: "string list"
  r_architecture :: string
  r_os :: string
  r_current_job_id :: "string option"
  r_last_heartbeat :: time
  r_last_assigned_at :: "time option"
  r_created_at :: time

text \<open>
  \<open>CanRun\<close> first collects the runner's labels in a Go map, then looks every required label up.
  The loop that fills the map is the fold, the loop with the early return is \<open>list_all\<close>.
\<close>

definition CanRun :: "Runner \<Rightarrow> string list \<Rightarrow> bool" where
  "CanRun r required =
     (let have_map = fold (\<lambda>l m. m(l := True)) (r_labels r) (\<lambda>_. False)
      in list_all (\<lambda>need. have_map need) required)"

section \<open>Facts about the state machines\<close>

lemma CanTransitionTo_simps [simp]:
  "CanTransitionTo JobQueued t \<longleftrightarrow> t = JobAssigned \<or> t = JobCancelled"
  "CanTransitionTo JobAssigned t \<longleftrightarrow>
     t = JobRunning \<or> t = JobQueued \<or> t = JobFailed \<or> t = JobCancelled"
  "CanTransitionTo JobRunning t \<longleftrightarrow>
     t = JobSuccess \<or> t = JobFailed \<or> t = JobCancelled \<or> t = JobQueued"
  "\<not> CanTransitionTo JobSuccess t"
  "\<not> CanTransitionTo JobFailed t"
  "\<not> CanTransitionTo JobCancelled t"
  by (auto simp: CanTransitionTo_def)

lemma Terminal_simps [simp]:
  "\<not> Terminal JobQueued" "\<not> Terminal JobAssigned" "\<not> Terminal JobRunning"
  "Terminal JobSuccess" "Terminal JobFailed" "Terminal JobCancelled"
  by (auto simp: Terminal_def)

lemma Terminal_iff: "Terminal s \<longleftrightarrow> s \<in> {JobSuccess, JobFailed, JobCancelled}"
  by (cases s) auto

lemma Terminal_stuck: "Terminal s \<Longrightarrow> \<not> CanTransitionTo s t"
  by (cases s) auto

lemma have_map_fold: "fold (\<lambda>l m. m(l := True)) ls m x \<longleftrightarrow> m x \<or> x \<in> set ls"
  by (induction ls arbitrary: m) auto

lemma CanRun_iff: "CanRun r required \<longleftrightarrow> set required \<subseteq> set (r_labels r)"
  by (auto simp: CanRun_def have_map_fold list_all_iff)

lemma string_of_JobStatus_inj: "string_of_JobStatus a = string_of_JobStatus b \<longleftrightarrow> a = b"
  by (cases a; cases b) auto

text \<open>The states a run of the job state machine can pass through.\<close>

inductive job_path :: "JobStatus \<Rightarrow> JobStatus \<Rightarrow> bool" where
  job_path_refl: "job_path s s"
| job_path_step: "job_path s t \<Longrightarrow> CanTransitionTo t u \<Longrightarrow> job_path s u"

lemma job_path_trans: "job_path t u \<Longrightarrow> job_path s t \<Longrightarrow> job_path s u"
  by (induction rule: job_path.induct) (auto intro: job_path.intros)

lemma job_path_terminal: "job_path s t \<Longrightarrow> Terminal s \<Longrightarrow> t = s"
  by (induction rule: job_path.induct) (auto simp: Terminal_stuck)

text \<open>
  Every way to SUCCESS leads through RUNNING: before it, the machine is in RUNNING.
\<close>

lemma success_only_from_running: "CanTransitionTo s JobSuccess \<longleftrightarrow> s = JobRunning"
  by (cases s) auto

lemma running_only_from_assigned: "CanTransitionTo s JobRunning \<longleftrightarrow> s = JobAssigned"
  by (cases s) auto

lemma assigned_only_from_queued: "CanTransitionTo s JobAssigned \<longleftrightarrow> s = JobQueued"
  by (cases s) auto

end
