(* ===== verification/Store.thy ===== *)
theory Store
  imports Models
begin

text \<open>
  The package \<^verbatim>\<open>internal/store\<close>: every SQL statement of the control plane. The database is a
  record with the two tables of \<^verbatim>\<open>migrations/0001_init.sql\<close> (lists of rows; the column added by
  \<^verbatim>\<open>migrations/0002_log_sequence.sql\<close> is \<open>j_log_seq\<close>), the clock that \<^verbatim>\<open>now()\<close> reads and the script
  of the outcomes of the next calls. A statement is a function on the tables that returns its
  result; \<open>db_exec\<close> runs it under the next outcome of the script. A method of \<^verbatim>\<open>Store\<close> is a function
  \<open>db \<Rightarrow> (store_error + 'a) \<times> db\<close> in which every \<^verbatim>\<open>if err != nil\<close> of the source is a branch.
\<close>

section \<open>Tables and statements\<close>

record job_row = Job +
  j_logs :: string
  j_log_seq :: int

record runner_row = Runner +
  r_token_hash :: string

record db =
  jobs :: "job_row list"
  runners :: "runner_row list"
  db_now :: time
  db_script :: "outcome list"

datatype pg_error = PgError string | OtherError string
  \<comment> \<open>\<open>PgError code\<close> is a \<open>pgconn.PgError\<close> with its SQLSTATE; every other error is \<open>OtherError\<close>\<close>

definition isUniqueViolation :: "pg_error \<Rightarrow> bool" where
  "isUniqueViolation e = (case e of PgError code \<Rightarrow> code = ''23505'' | OtherError _ \<Rightarrow> False)"

datatype store_error =
    ErrNotFound
  | ErrDuplicate
  | ErrInvalidTransition string
  | ErrRunnerNotIdle string
  | ErrPg pg_error

definition db_exec :: "(db \<Rightarrow> (pg_error + 'a) \<times> db) \<Rightarrow> db \<Rightarrow> (pg_error + 'a) \<times> db" where
  "db_exec f s =
     (case next_outcome (db_script s) of (x, xs) \<Rightarrow>
        (case with_outcome x f (s\<lparr>db_script := xs\<rparr>) of
           (Inl e, t) \<Rightarrow> (Inl (OtherError e), t)
         | (Inr a, t) \<Rightarrow> (a, t)))"

definition select :: "(db \<Rightarrow> 'a) \<Rightarrow> db \<Rightarrow> (pg_error + 'a) \<times> db" where
  "select q s = (Inr (q s), s)"

definition update_jobs ::
  "(job_row \<Rightarrow> bool) \<Rightarrow> (time \<Rightarrow> job_row \<Rightarrow> job_row) \<Rightarrow> db \<Rightarrow> (pg_error + nat) \<times> db" where
  "update_jobs P f s =
     (Inr (rows_matching P (jobs s)), s\<lparr>jobs := sql_update P (f (db_now s)) (jobs s)\<rparr>)"

definition update_runners ::
  "(runner_row \<Rightarrow> bool) \<Rightarrow> (time \<Rightarrow> runner_row \<Rightarrow> runner_row) \<Rightarrow> db \<Rightarrow> (pg_error + nat) \<times> db" where
  "update_runners P f s =
     (Inr (rows_matching P (runners s)), s\<lparr>runners := sql_update P (f (db_now s)) (runners s)\<rparr>)"

text \<open>
  What the driver and the server refuse of a statement's arguments. A Go \<^verbatim>\<open>int\<close> has 64 bits, the columns
  \<^verbatim>\<open>exit_code\<close> and \<^verbatim>\<open>log_seq\<close> are \<^verbatim>\<open>INT\<close>, 32 bits: pgx does not encode a larger value. A \<^verbatim>\<open>TEXT\<close> value is UTF-8
  without the byte 0: PostgreSQL answers anything else with SQLSTATE 22021. \<open>text_from\<close> is the check of
  the server: its first argument holds the bounds of the bytes the current character still needs.
  The other text arguments come from decoded JSON and from paths, and are taken to be text.
\<close>

definition fits_int4 :: "int \<Rightarrow> bool" where
  "fits_int4 n \<longleftrightarrow> - (2 ^ 31) \<le> n \<and> n < 2 ^ 31"

definition utf8_rest :: "nat \<Rightarrow> (nat \<times> nat) list option" where
  "utf8_rest b =
     (if b = 0 then None
      else if b < 128 then Some []
      else if b < 194 then None
      else if b < 224 then Some [(128, 191)]
      else if b = 224 then Some [(160, 191), (128, 191)]
      else if b = 237 then Some [(128, 159), (128, 191)]
      else if b < 240 then Some [(128, 191), (128, 191)]
      else if b = 240 then Some [(144, 191), (128, 191), (128, 191)]
      else if b < 244 then Some [(128, 191), (128, 191), (128, 191)]
      else if b = 244 then Some [(128, 143), (128, 191), (128, 191)]
      else None)"

fun text_from :: "(nat \<times> nat) list \<Rightarrow> string \<Rightarrow> bool" where
  "text_from need [] \<longleftrightarrow> need = []"
| "text_from [] (c # cs) \<longleftrightarrow> (case utf8_rest (of_char c) of None \<Rightarrow> False | Some need \<Rightarrow> text_from need cs)"
| "text_from ((lo, hi) # need) (c # cs) \<longleftrightarrow> lo \<le> of_char c \<and> of_char c \<le> hi \<and> text_from need cs"

abbreviation pg_text :: "string \<Rightarrow> bool" where
  "pg_text \<equiv> text_from []"

definition arg_error :: "int \<Rightarrow> string \<Rightarrow> pg_error option" where
  "arg_error n t =
     (if \<not> fits_int4 n then Some (OtherError ''unable to encode value: out of range for int4'')
      else if \<not> pg_text t then Some (PgError ''22021'')
      else None)"

definition with_args :: "pg_error option \<Rightarrow> (db \<Rightarrow> (pg_error + 'a) \<times> db) \<Rightarrow> db \<Rightarrow> (pg_error + 'a) \<times> db" where
  "with_args bad f s = (case bad of Some e \<Rightarrow> (Inl e, s) | None \<Rightarrow> f s)"

section \<open>Jobs\<close>

definition scanJob :: "job_row \<Rightarrow> Job" where
  "scanJob r = \<lparr>j_id = j_id r, j_repository = j_repository r, j_clone_url = j_clone_url r,
     j_commit_sha = j_commit_sha r, j_branch = j_branch r, j_event_type = j_event_type r,
     j_config_ref = j_config_ref r, j_labels = j_labels r, j_status = j_status r,
     j_runner_id = j_runner_id r, j_attempts = j_attempts r, j_exit_code = j_exit_code r,
     j_error = j_error r, j_created_at = j_created_at r, j_started_at = j_started_at r,
     j_completed_at = j_completed_at r\<rparr>"

text \<open>
  The partial unique index \<^verbatim>\<open>jobs_active_unique\<close> of the schema, and the conflict an INSERT runs
  into: the same primary key, or an unfinished job for the same repository, commit and event.
\<close>

definition index_covers :: "JobStatus \<Rightarrow> bool" where
  "index_covers st \<longleftrightarrow> st \<in> {JobQueued, JobAssigned, JobRunning}"

definition same_build :: "'a Job_scheme \<Rightarrow> 'b Job_scheme \<Rightarrow> bool" where
  "same_build a b \<longleftrightarrow> j_repository a = j_repository b \<and> j_commit_sha a = j_commit_sha b
     \<and> j_event_type a = j_event_type b"

definition insert_conflict :: "job_row list \<Rightarrow> Job \<Rightarrow> bool" where
  "insert_conflict rows j \<longleftrightarrow>
     list_ex (\<lambda>r. j_id r = j_id j) rows \<or>
     (index_covers (j_status j) \<and> list_ex (\<lambda>r. index_covers (j_status r) \<and> same_build r j) rows)"

definition insert_job :: "Job \<Rightarrow> db \<Rightarrow> (pg_error + unit) \<times> db" where
  "insert_job j s =
     (if insert_conflict (jobs s) j then (Inl (PgError ''23505''), s)
      else (Inr (), s\<lparr>jobs := jobs s @ [\<lparr>j_id = j_id j, j_repository = j_repository j,
        j_clone_url = j_clone_url j, j_commit_sha = j_commit_sha j, j_branch = j_branch j,
        j_event_type = j_event_type j, j_config_ref = j_config_ref j, j_labels = j_labels j,
        j_status = j_status j, j_runner_id = None, j_attempts = 0, j_exit_code = None,
        j_error = [], j_created_at = db_now s, j_started_at = None, j_completed_at = None,
        j_logs = [], j_log_seq = 0\<rparr>]\<rparr>))"

definition CreateJob :: "Job \<Rightarrow> db \<Rightarrow> (store_error + unit) \<times> db" where
  "CreateJob j s =
     (case db_exec (insert_job j) s of
        (Inl e, t) \<Rightarrow> (if isUniqueViolation e then (Inl ErrDuplicate, t) else (Inl (ErrPg e), t))
      | (Inr _, t) \<Rightarrow> (Inr (), t))"

definition GetJob :: "string \<Rightarrow> db \<Rightarrow> (store_error + Job) \<times> db" where
  "GetJob i s =
     (case db_exec (select (\<lambda>s. row_at j_id i (jobs s))) s of
        (Inl e, t) \<Rightarrow> (Inl (ErrPg e), t)
      | (Inr None, t) \<Rightarrow> (Inl ErrNotFound, t)
      | (Inr (Some r), t) \<Rightarrow> (Inr (scanJob r), t))"

text \<open>
  \<^verbatim>\<open>ORDER BY created_at DESC LIMIT $1\<close>. PostgreSQL refuses a negative limit (SQLSTATE 2201W); rows
  with the same key come in table order here, where SQL leaves the order open.
\<close>

definition ListJobs :: "int \<Rightarrow> db \<Rightarrow> (store_error + Job list) \<times> db" where
  "ListJobs limit s =
     (case db_exec (\<lambda>s. if limit < 0 then (Inl (PgError ''2201W''), s)
                   else select (\<lambda>s. take (nat limit) (sort_key (\<lambda>r. - j_created_at r) (jobs s))) s) s of
        (Inl e, t) \<Rightarrow> (Inl (ErrPg e), t)
      | (Inr rows, t) \<Rightarrow> (Inr (map scanJob rows), t))"

text \<open>
  \<open>transition\<close> reads the row, asks the state machine, and updates under the optimistic lock
  \<^verbatim>\<open>WHERE id = $2 AND status = $3\<close>. The read and the write are separate calls: other clients may
  run between them. \<open>bad\<close> is what is wrong with the additional arguments. The write is a definition of its own, so that the step relation of the
  theory \<^verbatim>\<open>Store_Steps\<close> can apply it to any later state.
\<close>

definition change_status ::
  "string \<Rightarrow> JobStatus \<Rightarrow> JobStatus \<Rightarrow> (time \<Rightarrow> job_row \<Rightarrow> job_row) \<Rightarrow> db \<Rightarrow> (pg_error + nat) \<times> db" where
  "change_status i from to extra =
     update_jobs (\<lambda>r. j_id r = i \<and> j_status r = from) (\<lambda>now r. extra now (r\<lparr>j_status := to\<rparr>))"

definition transition_write ::
  "pg_error option \<Rightarrow> string \<Rightarrow> Job \<Rightarrow> JobStatus \<Rightarrow> (time \<Rightarrow> job_row \<Rightarrow> job_row) \<Rightarrow> db \<Rightarrow>
    (store_error + Job) \<times> db" where
  "transition_write bad i job to extra s =
     (case db_exec (with_args bad (change_status i (j_status job) to extra)) s of
        (Inl e, t) \<Rightarrow> (Inl (ErrPg e), t)
      | (Inr n, t) \<Rightarrow>
          if n = 0 then (Inl (ErrInvalidTransition ''job changed concurrently''), t)
          else (Inr (job\<lparr>j_status := to\<rparr>), t))"

definition transition ::
  "pg_error option \<Rightarrow> string \<Rightarrow> JobStatus \<Rightarrow> (time \<Rightarrow> job_row \<Rightarrow> job_row) \<Rightarrow> db \<Rightarrow> (store_error + Job) \<times> db" where
  "transition bad i to extra s =
     (case GetJob i s of
        (Inl e, t) \<Rightarrow> (Inl e, t)
      | (Inr job, t) \<Rightarrow>
          if \<not> CanTransitionTo (j_status job) to
          then (Inl (ErrInvalidTransition
                  (string_of_JobStatus (j_status job) @ '' -> '' @ string_of_JobStatus to)), t)
          else transition_write bad i job to extra t)"

text \<open>
  \<open>AssignJob\<close>: both UPDATEs in one transaction. The statements run on a copy of the tables;
  \<open>tx_rollback\<close> keeps the tables of the start and only consumes the outcomes, \<open>tx_commit\<close> installs
  the copy under the outcome of the COMMIT itself.
\<close>

definition tx_rollback :: "db \<Rightarrow> db \<Rightarrow> db" where
  "tx_rollback s t = s\<lparr>db_script := db_script t\<rparr>"

definition tx_commit :: "db \<Rightarrow> db \<Rightarrow> (pg_error + unit) \<times> db" where
  "tx_commit s t =
     db_exec (\<lambda>u. (Inr (), u\<lparr>jobs := jobs t, runners := runners t\<rparr>)) (tx_rollback s t)"

definition mark_assigned :: "string \<Rightarrow> string \<Rightarrow> JobStatus \<Rightarrow> db \<Rightarrow> (pg_error + nat) \<times> db" where
  "mark_assigned jobID runnerID from =
     update_jobs (\<lambda>r. j_id r = jobID \<and> j_status r = from)
       (\<lambda>_ r. r\<lparr>j_status := JobAssigned, j_runner_id := Some runnerID,
                j_attempts := j_attempts r + 1\<rparr>)"

definition mark_busy :: "string \<Rightarrow> string \<Rightarrow> db \<Rightarrow> (pg_error + nat) \<times> db" where
  "mark_busy jobID runnerID =
     update_runners (\<lambda>r. r_id r = runnerID \<and> r_status r = RunnerIdle)
       (\<lambda>now r. r\<lparr>r_status := RunnerBusy, r_current_job_id := Some jobID,
                  r_last_assigned_at := Some now\<rparr>)"

definition assign_tx :: "string \<Rightarrow> string \<Rightarrow> Job \<Rightarrow> db \<Rightarrow> (store_error + unit) \<times> db" where
  "assign_tx jobID runnerID job s0 =
     (case db_exec (select (\<lambda>_. ())) s0 of
        (Inl e, s) \<Rightarrow> (Inl (ErrPg e), s)
      | (Inr _, s) \<Rightarrow>
     (case db_exec (mark_assigned jobID runnerID (j_status job)) s of
        (Inl e, t) \<Rightarrow> (Inl (ErrPg e), tx_rollback s t)
      | (Inr n, t) \<Rightarrow>
          if n = 0 then (Inl (ErrInvalidTransition ''job changed concurrently''), tx_rollback s t)
          else
     (case db_exec (mark_busy jobID runnerID) t of
        (Inl e, u) \<Rightarrow> (Inl (ErrPg e), tx_rollback s u)
      | (Inr m, u) \<Rightarrow>
          if m = 0 then (Inl (ErrRunnerNotIdle runnerID), tx_rollback s u)
          else
     (case tx_commit s u of
        (Inl e, v) \<Rightarrow> (Inl (ErrPg e), v)
      | (Inr _, v) \<Rightarrow> (Inr (), v)))))"

definition AssignJob :: "string \<Rightarrow> string \<Rightarrow> db \<Rightarrow> (store_error + unit) \<times> db" where
  "AssignJob jobID runnerID s =
     (case GetJob jobID s of
        (Inl e, t) \<Rightarrow> (Inl e, t)
      | (Inr job, t) \<Rightarrow>
          if \<not> CanTransitionTo (j_status job) JobAssigned
          then (Inl (ErrInvalidTransition (string_of_JobStatus (j_status job) @ '' -> ASSIGNED'')), t)
          else assign_tx jobID runnerID job t)"

definition mark_released :: "string \<Rightarrow> db \<Rightarrow> (pg_error + nat) \<times> db" where
  "mark_released runnerID =
     update_runners (\<lambda>r. r_id r = runnerID \<and> r_status r = RunnerBusy)
       (\<lambda>_ r. r\<lparr>r_status := RunnerIdle, r_current_job_id := None\<rparr>)"

definition releaseRunner :: "string \<Rightarrow> db \<Rightarrow> (store_error + unit) \<times> db" where
  "releaseRunner runnerID s =
     (case db_exec (mark_released runnerID) s of
        (Inl e, t) \<Rightarrow> (Inl (ErrPg e), t)
      | (Inr _, t) \<Rightarrow> (Inr (), t))"

text \<open>The column lists that \<open>transition\<close> appends for each of its callers.\<close>

definition start_extra :: "time \<Rightarrow> job_row \<Rightarrow> job_row" where
  "start_extra now r = r\<lparr>j_started_at := Some now\<rparr>"

definition complete_extra :: "int \<Rightarrow> string \<Rightarrow> time \<Rightarrow> job_row \<Rightarrow> job_row" where
  "complete_extra exitCode errMsg now r =
     r\<lparr>j_completed_at := Some now, j_exit_code := Some exitCode, j_error := errMsg\<rparr>"

definition requeue_extra :: "time \<Rightarrow> job_row \<Rightarrow> job_row" where
  "requeue_extra now r = r\<lparr>j_runner_id := None, j_started_at := None\<rparr>"

definition cancel_extra :: "time \<Rightarrow> job_row \<Rightarrow> job_row" where
  "cancel_extra now r = r\<lparr>j_completed_at := Some now\<rparr>"

definition StartJob :: "string \<Rightarrow> db \<Rightarrow> (store_error + unit) \<times> db" where
  "StartJob jobID s =
     (case transition None jobID JobRunning start_extra s of
        (Inl e, t) \<Rightarrow> (Inl e, t)
      | (Inr _, t) \<Rightarrow> (Inr (), t))"

definition CompleteJob ::
  "string \<Rightarrow> JobStatus \<Rightarrow> int \<Rightarrow> string \<Rightarrow> db \<Rightarrow> (store_error + unit) \<times> db" where
  "CompleteJob jobID status exitCode errMsg s =
     (case transition (arg_error exitCode errMsg) jobID status (complete_extra exitCode errMsg) s of
        (Inl e, t) \<Rightarrow> (Inl e, t)
      | (Inr job, t) \<Rightarrow>
          (case j_runner_id job of Some r \<Rightarrow> releaseRunner r t | None \<Rightarrow> (Inr (), t)))"

definition RequeueJob :: "string \<Rightarrow> db \<Rightarrow> (store_error + unit) \<times> db" where
  "RequeueJob jobID s =
     (case transition None jobID JobQueued requeue_extra s of
        (Inl e, t) \<Rightarrow> (Inl e, t)
      | (Inr job, t) \<Rightarrow>
          (case j_runner_id job of Some r \<Rightarrow> releaseRunner r t | None \<Rightarrow> (Inr (), t)))"

definition CancelJob :: "string \<Rightarrow> db \<Rightarrow> (store_error + unit) \<times> db" where
  "CancelJob jobID s =
     (case transition None jobID JobCancelled cancel_extra s of
        (Inl e, t) \<Rightarrow> (Inl e, t)
      | (Inr job, t) \<Rightarrow>
          (case j_runner_id job of Some r \<Rightarrow> releaseRunner r t | None \<Rightarrow> (Inr (), t)))"

definition append_rows :: "string \<Rightarrow> int \<Rightarrow> string \<Rightarrow> db \<Rightarrow> (pg_error + nat) \<times> db" where
  "append_rows jobID seq chunk =
     update_jobs (\<lambda>r. j_id r = jobID \<and> seq > j_log_seq r)
       (\<lambda>_ r. r\<lparr>j_logs := j_logs r @ chunk, j_log_seq := seq\<rparr>)"

definition append_chunk :: "string \<Rightarrow> int \<Rightarrow> string \<Rightarrow> db \<Rightarrow> (pg_error + nat) \<times> db" where
  "append_chunk jobID seq chunk = with_args (arg_error seq chunk) (append_rows jobID seq chunk)"

definition AppendLogs :: "string \<Rightarrow> int \<Rightarrow> string \<Rightarrow> db \<Rightarrow> (store_error + unit) \<times> db" where
  "AppendLogs jobID seq chunk s =
     (case db_exec (append_chunk jobID seq chunk) s of
        (Inl e, t) \<Rightarrow> (Inl (ErrPg e), t)
      | (Inr n, t) \<Rightarrow>
          if n = 1 then (Inr (), t)
          else (case db_exec (select (\<lambda>s. map_option j_log_seq (row_at j_id jobID (jobs s)))) t of
                  (Inl e, u) \<Rightarrow> (Inl (ErrPg e), u)
                | (Inr None, u) \<Rightarrow> (Inl ErrNotFound, u)
                | (Inr (Some current), u) \<Rightarrow> (Inr (), u)))"

definition GetLogs :: "string \<Rightarrow> db \<Rightarrow> (store_error + string) \<times> db" where
  "GetLogs jobID s =
     (case db_exec (select (\<lambda>s. map_option j_logs (row_at j_id jobID (jobs s)))) s of
        (Inl e, t) \<Rightarrow> (Inl (ErrPg e), t)
      | (Inr None, t) \<Rightarrow> (Inl ErrNotFound, t)
      | (Inr (Some logs), t) \<Rightarrow> (Inr logs, t))"

section \<open>Runners\<close>

definition scanRunner :: "runner_row \<Rightarrow> Runner" where
  "scanRunner r = \<lparr>r_id = r_id r, r_name = r_name r, r_status = r_status r, r_labels = r_labels r,
     r_architecture = r_architecture r, r_os = r_os r, r_current_job_id = r_current_job_id r,
     r_last_heartbeat = r_last_heartbeat r, r_last_assigned_at = r_last_assigned_at r,
     r_created_at = r_created_at r\<rparr>"

definition insert_runner :: "Runner \<Rightarrow> string \<Rightarrow> db \<Rightarrow> (pg_error + unit) \<times> db" where
  "insert_runner r tokenHash s =
     (if list_ex (\<lambda>x. r_id x = r_id r) (runners s) then (Inl (PgError ''23505''), s)
      else (Inr (), s\<lparr>runners := runners s @ [\<lparr>r_id = r_id r, r_name = r_name r,
        r_status = RunnerIdle, r_labels = r_labels r, r_architecture = r_architecture r,
        r_os = r_os r, r_current_job_id = None, r_last_heartbeat = db_now s,
        r_last_assigned_at = None, r_created_at = db_now s, r_token_hash = tokenHash\<rparr>]\<rparr>))"

definition RegisterRunner :: "Runner \<Rightarrow> string \<Rightarrow> db \<Rightarrow> (store_error + unit) \<times> db" where
  "RegisterRunner r tokenHash s =
     (case db_exec (insert_runner r tokenHash) s of
        (Inl e, t) \<Rightarrow> (Inl (ErrPg e), t)
      | (Inr _, t) \<Rightarrow> (Inr (), t))"

definition GetRunner :: "string \<Rightarrow> db \<Rightarrow> (store_error + Runner) \<times> db" where
  "GetRunner i s =
     (case db_exec (select (\<lambda>s. row_at r_id i (runners s))) s of
        (Inl e, t) \<Rightarrow> (Inl (ErrPg e), t)
      | (Inr None, t) \<Rightarrow> (Inl ErrNotFound, t)
      | (Inr (Some r), t) \<Rightarrow> (Inr (scanRunner r), t))"

definition RunnerTokenHash :: "string \<Rightarrow> db \<Rightarrow> (store_error + string) \<times> db" where
  "RunnerTokenHash i s =
     (case db_exec (select (\<lambda>s. map_option r_token_hash (row_at r_id i (runners s)))) s of
        (Inl e, t) \<Rightarrow> (Inl (ErrPg e), t)
      | (Inr None, t) \<Rightarrow> (Inl ErrNotFound, t)
      | (Inr (Some h), t) \<Rightarrow> (Inr h, t))"

definition ListRunners :: "db \<Rightarrow> (store_error + Runner list) \<times> db" where
  "ListRunners s =
     (case db_exec (select (\<lambda>s. sort_key (\<lambda>r. - r_created_at r) (runners s))) s of
        (Inl e, t) \<Rightarrow> (Inl (ErrPg e), t)
      | (Inr rows, t) \<Rightarrow> (Inr (map scanRunner rows), t))"

definition refresh_heartbeat :: "string \<Rightarrow> db \<Rightarrow> (pg_error + nat) \<times> db" where
  "refresh_heartbeat i =
     update_runners (\<lambda>r. r_id r = i)
       (\<lambda>now r. r\<lparr>r_last_heartbeat := now,
          r_status := (if r_status r = RunnerOffline then RunnerIdle else r_status r)\<rparr>)"

definition Heartbeat :: "string \<Rightarrow> db \<Rightarrow> (store_error + unit) \<times> db" where
  "Heartbeat i s =
     (case db_exec (refresh_heartbeat i) s of
        (Inl e, t) \<Rightarrow> (Inl (ErrPg e), t)
      | (Inr n, t) \<Rightarrow> if n = 0 then (Inl ErrNotFound, t) else (Inr (), t))"

text \<open>
  Both liveness queries render the timeout with \<^verbatim>\<open>fmt.Sprintf("%d seconds", int(d.Seconds()))\<close>, so
  the interval is the duration cut towards zero to whole seconds.
\<close>

definition interval_of :: "duration \<Rightarrow> duration" where
  "interval_of d = (if 0 \<le> d then d div second else - ((- d) div second)) * second"

definition IdleRunners :: "duration \<Rightarrow> db \<Rightarrow> (store_error + Runner list) \<times> db" where
  "IdleRunners heartbeatTimeout s =
     (case db_exec (select (\<lambda>s.
          let live = filter (\<lambda>r. r_status r = RunnerIdle
                        \<and> r_last_heartbeat r > db_now s - interval_of heartbeatTimeout) (runners s)
          in filter (\<lambda>r. r_last_assigned_at r = None) live @
             sort_key (\<lambda>r. case r_last_assigned_at r of None \<Rightarrow> 0 | Some a \<Rightarrow> a)
               (filter (\<lambda>r. r_last_assigned_at r \<noteq> None) live))) s of
        (Inl e, t) \<Rightarrow> (Inl (ErrPg e), t)
      | (Inr rows, t) \<Rightarrow> (Inr (map scanRunner rows), t))"

definition stale :: "duration \<Rightarrow> time \<Rightarrow> runner_row \<Rightarrow> bool" where
  "stale timeout now r \<longleftrightarrow>
     r_status r \<noteq> RunnerOffline \<and> r_last_heartbeat r < now - interval_of timeout"

text \<open>The Go map of the result is the list of its entries; the ids of the runners are distinct.\<close>

definition reap_stale :: "duration \<Rightarrow> db \<Rightarrow> (pg_error + (string \<times> string) list) \<times> db" where
  "reap_stale timeout s =
     (let st = filter (stale timeout (db_now s)) (runners s) in
      (Inr (map (\<lambda>r. (r_id r, case r_current_job_id r of None \<Rightarrow> [] | Some j \<Rightarrow> j)) st),
       s\<lparr>runners := sql_update (\<lambda>r. r_id r \<in> r_id ` set st)
          (\<lambda>r. r\<lparr>r_status := RunnerOffline, r_current_job_id := None\<rparr>) (runners s)\<rparr>))"

definition ReapOfflineRunners ::
  "duration \<Rightarrow> db \<Rightarrow> (store_error + (string \<times> string) list) \<times> db" where
  "ReapOfflineRunners timeout s =
     (case db_exec (reap_stale timeout) s of
        (Inl e, t) \<Rightarrow> (Inl (ErrPg e), t)
      | (Inr orphaned, t) \<Rightarrow> (Inr orphaned, t))"

definition Ping :: "db \<Rightarrow> (store_error + unit) \<times> db" where
  "Ping s =
     (case db_exec (select (\<lambda>_. ())) s of
        (Inl e, t) \<Rightarrow> (Inl (ErrPg e), t)
      | (Inr _, t) \<Rightarrow> (Inr (), t))"

section \<open>Facts about single calls\<close>

lemma with_args_None [simp]: "with_args None f = f"
  by (simp add: with_args_def fun_eq_iff)

lemma with_args_Some [simp]: "with_args (Some e) f s = (Inl e, s)"
  by (simp add: with_args_def)

lemma arg_error_None: "arg_error n t = None \<longleftrightarrow> fits_int4 n \<and> pg_text t"
  by (simp add: arg_error_def)

lemma arg_error_zero [simp]: "arg_error 0 [] = None"
  by (simp add: arg_error_def fits_int4_def)

lemma snd_with_args: "snd (with_args bad f s) = s \<or> snd (with_args bad f s) = snd (f s)"
  by (cases bad) simp_all

text \<open>Texts can be joined; a text cannot be cut inside a character.\<close>

lemma text_from_append: "text_from need s \<Longrightarrow> text_from need (s @ t) \<longleftrightarrow> pg_text t"
  by (induction need s rule: text_from.induct) (auto split: option.splits)

lemma pg_text_concat: "list_all pg_text ss \<Longrightarrow> pg_text (concat ss)"
  by (induction ss) (auto simp: text_from_append)

definition continuations :: "(nat \<times> nat) list \<Rightarrow> bool" where
  "continuations = list_all (\<lambda>(lo, hi). 128 \<le> lo \<and> hi < 192)"

lemma utf8_rest_continuations: "utf8_rest b = Some need \<Longrightarrow> continuations need"
  by (auto simp: utf8_rest_def continuations_def split: if_splits)

lemma cut_character:
  "text_from need (s @ t) \<Longrightarrow> \<not> text_from need s \<Longrightarrow> continuations need \<Longrightarrow> \<not> pg_text t"
proof (induction need s rule: text_from.induct)
  case (1 need)
  then show ?case by (cases need; cases t) (auto simp: continuations_def utf8_rest_def)
qed (auto simp: continuations_def split: option.splits
    dest: utf8_rest_continuations [unfolded continuations_def])

lemma utf8_rest_ascii [simp]: "0 < b \<Longrightarrow> b < 128 \<Longrightarrow> utf8_rest b = Some []"
  by (simp add: utf8_rest_def)

lemma pg_text_ascii: "list_all (\<lambda>c. 0 < (of_char c :: nat) \<and> (of_char c :: nat) < 128) s \<Longrightarrow> pg_text s"
  by (induction s) auto

lemma db_script_same [simp]: "db_script s = xs \<Longrightarrow> s\<lparr>db_script := xs\<rparr> = s"
  by (cases s) simp

lemma db_exec_healthy [simp]: "db_script s = [] \<Longrightarrow> db_exec f s = f s"
  by (cases "f s") (simp add: db_exec_def)

lemma db_exec_cases:
  obtains (ran) xs a where "db_exec f s = (a, snd (f (s\<lparr>db_script := xs\<rparr>)))"
  | (skipped) xs e where "db_exec f s = (Inl (OtherError e), s\<lparr>db_script := xs\<rparr>)"
proof -
  obtain x xs where o: "next_outcome (db_script s) = (x, xs)" by force
  show ?thesis
  proof (cases x)
    case Okay
    with o have "db_exec f s = (fst (f (s\<lparr>db_script := xs\<rparr>)), snd (f (s\<lparr>db_script := xs\<rparr>)))"
      by (simp add: db_exec_def)
    then show ?thesis by (rule ran)
  next
    case (Fails e)
    with o have "db_exec f s = (Inl (OtherError e), s\<lparr>db_script := xs\<rparr>)"
      by (simp add: db_exec_def)
    then show ?thesis by (rule skipped)
  next
    case (Lost e)
    with o have "db_exec f s = (Inl (OtherError e), snd (f (s\<lparr>db_script := xs\<rparr>)))"
      by (simp add: db_exec_def)
    then show ?thesis by (rule ran)
  qed
qed

text \<open>A call that reports success ran its statement, and ran it once.\<close>

lemma db_exec_Inr:
  assumes "db_exec f s = (Inr a, t)"
  obtains xs where "f (s\<lparr>db_script := xs\<rparr>) = (Inr a, t)"
proof -
  obtain x xs where o: "next_outcome (db_script s) = (x, xs)" by force
  with assms have "f (s\<lparr>db_script := xs\<rparr>) = (Inr a, t)"
    by (cases x) (auto simp: db_exec_def prod_eq_iff)
  then show ?thesis by (rule that)
qed

lemma db_exec_select:
  obtains (read) xs where "db_exec (select q) s = (Inr (q (s\<lparr>db_script := xs\<rparr>)), s\<lparr>db_script := xs\<rparr>)"
  | (failed) xs e where "db_exec (select q) s = (Inl (OtherError e), s\<lparr>db_script := xs\<rparr>)"
proof -
  obtain x xs where o: "next_outcome (db_script s) = (x, xs)" by force
  then show ?thesis
    by (cases x) (auto simp: db_exec_def select_def intro: read failed)
qed

text \<open>A read leaves the tables and the clock alone, whatever its outcome.\<close>

lemma GetJob_frame: "\<exists>xs. snd (GetJob i s) = s\<lparr>db_script := xs\<rparr>"
  by (rule db_exec_select [of "\<lambda>s. row_at j_id i (jobs s)" s])
    (auto simp: GetJob_def split: option.splits)

lemma GetJob_Inr:
  "GetJob i s = (Inr job, t) \<Longrightarrow>
   \<exists>r xs. row_at j_id i (jobs s) = Some r \<and> job = scanJob r \<and> t = s\<lparr>db_script := xs\<rparr>"
  by (rule db_exec_select [of "\<lambda>s. row_at j_id i (jobs s)" s])
    (auto simp: GetJob_def split: option.splits)

lemma GetJob_healthy [simp]:
  "db_script s = [] \<Longrightarrow> GetJob i s =
     (case row_at j_id i (jobs s) of None \<Rightarrow> (Inl ErrNotFound, s) | Some r \<Rightarrow> (Inr (scanJob r), s))"
  by (simp add: GetJob_def select_def split: option.splits)

lemma scanJob_sel [simp]:
  "j_id (scanJob r) = j_id r" "j_repository (scanJob r) = j_repository r"
  "j_clone_url (scanJob r) = j_clone_url r" "j_commit_sha (scanJob r) = j_commit_sha r"
  "j_branch (scanJob r) = j_branch r" "j_event_type (scanJob r) = j_event_type r"
  "j_config_ref (scanJob r) = j_config_ref r" "j_labels (scanJob r) = j_labels r"
  "j_status (scanJob r) = j_status r" "j_runner_id (scanJob r) = j_runner_id r"
  "j_attempts (scanJob r) = j_attempts r"
  by (simp_all add: scanJob_def)

lemma scanRunner_sel [simp]:
  "r_id (scanRunner r) = r_id r" "r_status (scanRunner r) = r_status r"
  "r_labels (scanRunner r) = r_labels r" "r_last_assigned_at (scanRunner r) = r_last_assigned_at r"
  "r_last_heartbeat (scanRunner r) = r_last_heartbeat r"
  "r_current_job_id (scanRunner r) = r_current_job_id r"
  by (simp_all add: scanRunner_def)

end
