(* ===== verification/Store_Steps.thy ===== *)
theory Store_Steps
  imports Store
begin

text \<open>
  The store under concurrency. The API processes, the scheduler and the reaper run their calls
  against one database, and between the read and the write of a method any other call may run.
  \<open>db_step\<close> is one database call of any client, made with any snapshot that client may have read
  before; \<open>db_steps\<close> is a run of such calls, with the clock moving and every call failing or not as
  the script says. A property that holds along \<open>db_steps\<close> holds in every interleaving of the
  methods of \<^verbatim>\<open>Store\<close>.

  The locale \<open>statement_invariant\<close> is the interface between the SQL statements and the methods: a
  predicate that every single statement keeps is kept by every method, under every failure script
  and every interleaving. Each invariant of the later theories is an interpretation of it.
\<close>

section \<open>What one method call does to the tables\<close>

lemma db_exec_update_jobs_Inr:
  "db_exec (update_jobs P f) s = (Inr n, t) \<Longrightarrow>
   \<exists>xs. n = rows_matching P (jobs s)
      \<and> t = s\<lparr>jobs := sql_update P (f (db_now s)) (jobs s), db_script := xs\<rparr>"
  by (erule db_exec_Inr) (auto simp: update_jobs_def intro!: exI db.equality)

lemma db_exec_update_runners_Inr:
  "db_exec (update_runners P f) s = (Inr n, t) \<Longrightarrow>
   \<exists>xs. n = rows_matching P (runners s)
      \<and> t = s\<lparr>runners := sql_update P (f (db_now s)) (runners s), db_script := xs\<rparr>"
  by (erule db_exec_Inr) (auto simp: update_runners_def intro!: exI db.equality)

definition assign_effect :: "string \<Rightarrow> string \<Rightarrow> JobStatus \<Rightarrow> db \<Rightarrow> db" where
  "assign_effect jobID runnerID from s =
     s\<lparr>jobs := jobs (snd (mark_assigned jobID runnerID from s)),
       runners := runners (snd (mark_busy jobID runnerID s))\<rparr>"
  \<comment> \<open>what the committed transaction of \<open>AssignJob\<close> does\<close>

definition assign_guard :: "string \<Rightarrow> string \<Rightarrow> JobStatus \<Rightarrow> db \<Rightarrow> bool" where
  "assign_guard jobID runnerID from s \<longleftrightarrow>
     rows_matching (\<lambda>r. j_id r = jobID \<and> j_status r = from) (jobs s) \<noteq> 0 \<and>
     rows_matching (\<lambda>r. r_id r = runnerID \<and> r_status r = RunnerIdle) (runners s) \<noteq> 0"
  \<comment> \<open>both UPDATEs found their row\<close>

lemma tx_commit_cases:
  "(\<exists>xs. snd (tx_commit s t) = s\<lparr>db_script := xs\<rparr>) \<or>
   (\<exists>xs. snd (tx_commit s t) = s\<lparr>jobs := jobs t, runners := runners t, db_script := xs\<rparr>)"
proof (cases rule: db_exec_cases [of "\<lambda>u. (Inr (), u\<lparr>jobs := jobs t, runners := runners t\<rparr>)" "tx_rollback s t"])
  case (ran xs a)
  then have "snd (tx_commit s t) = s\<lparr>jobs := jobs t, runners := runners t, db_script := xs\<rparr>"
    by (simp add: tx_commit_def tx_rollback_def)
  then show ?thesis by blast
next
  case (skipped xs e)
  then show ?thesis by (auto simp: tx_commit_def tx_rollback_def)
qed

lemma tx_commit_Inr:
  "tx_commit s t = (Inr (), u) \<Longrightarrow>
   \<exists>xs. u = s\<lparr>jobs := jobs t, runners := runners t, db_script := xs\<rparr>"
  unfolding tx_commit_def by (erule db_exec_Inr) (auto simp: tx_rollback_def intro!: exI db.equality)

text \<open>
  The transaction is all or nothing: whatever fails inside it, either nothing changed or both
  rows did, and it reports success only in the second case.
\<close>

lemma assign_tx_atomic:
  "\<exists>xs. snd (assign_tx jobID runnerID job s) = s\<lparr>db_script := xs\<rparr> \<or>
        assign_guard jobID runnerID (j_status job) s \<and>
        snd (assign_tx jobID runnerID job s) =
          (assign_effect jobID runnerID (j_status job) s)\<lparr>db_script := xs\<rparr>"
proof (cases "db_exec (select (\<lambda>_. ())) s")
  case (Pair a s1)
  then obtain ys where s1: "s1 = s\<lparr>db_script := ys\<rparr>"
    by (metis db_exec_select prod.inject)
  show ?thesis
  proof (cases a)
    case (Inl e)
    with Pair s1 show ?thesis by (auto simp: assign_tx_def)
  next
    case (Inr b)
    obtain c t where ex1: "db_exec (mark_assigned jobID runnerID (j_status job)) s1 = (c, t)" by force
    obtain d u where ex2: "db_exec (mark_busy jobID runnerID) t = (d, u)" by force
    show ?thesis
    proof (cases c)
      case (Inl e)
      with Pair Inr s1 ex1 show ?thesis by (auto simp: assign_tx_def tx_rollback_def)
    next
      case c: (Inr n)
      with ex1 obtain xs where n: "n = rows_matching (\<lambda>r. j_id r = jobID \<and> j_status r = j_status job) (jobs s)"
        and t: "t = s\<lparr>jobs := jobs (snd (mark_assigned jobID runnerID (j_status job) s)), db_script := xs\<rparr>"
        by (auto simp: mark_assigned_def s1 update_jobs_def dest!: db_exec_update_jobs_Inr)
      show ?thesis
      proof (cases d)
        case (Inl e)
        with Pair Inr s1 ex1 ex2 c show ?thesis by (auto simp: assign_tx_def tx_rollback_def)
      next
        case d: (Inr m)
        with ex2 obtain zs where m: "m = rows_matching (\<lambda>r. r_id r = runnerID \<and> r_status r = RunnerIdle) (runners s)"
          and u: "u = t\<lparr>runners := runners (snd (mark_busy jobID runnerID s)), db_script := zs\<rparr>"
          by (auto simp: mark_busy_def t update_runners_def dest!: db_exec_update_runners_Inr)
        have "snd (assign_tx jobID runnerID job s) =
          (if n = 0 then tx_rollback s1 t else if m = 0 then tx_rollback s1 u else snd (tx_commit s1 u))"
          using Pair Inr ex1 ex2 c d by (auto simp: assign_tx_def split: prod.splits sum.splits)
        then show ?thesis
          using tx_commit_cases [of s1 u] n m
          by (auto simp: assign_effect_def assign_guard_def tx_rollback_def u t s1)
      qed
    qed
  qed
qed

text \<open>A successful transaction did both updates.\<close>

lemma assign_tx_Inr:
  assumes "assign_tx jobID runnerID job s = (Inr (), t)"
  obtains xs where "assign_guard jobID runnerID (j_status job) s"
    and "t = (assign_effect jobID runnerID (j_status job) s)\<lparr>db_script := xs\<rparr>"
proof -
  obtain s1 where e0: "db_exec (select (\<lambda>_. ())) s = (Inr (), s1)"
    using assms by (auto simp: assign_tx_def split: prod.splits sum.splits)
  then obtain ys where s1: "s1 = s\<lparr>db_script := ys\<rparr>"
    by (metis db_exec_select prod.inject)
  obtain n t1 where e1: "db_exec (mark_assigned jobID runnerID (j_status job)) s1 = (Inr n, t1)" "n \<noteq> 0"
    using assms e0 by (auto simp: assign_tx_def split: prod.splits sum.splits if_splits)
  obtain m t2 where e2: "db_exec (mark_busy jobID runnerID) t1 = (Inr m, t2)" "m \<noteq> 0"
    using assms e0 e1 by (auto simp: assign_tx_def split: prod.splits sum.splits if_splits)
  have e3: "tx_commit s1 t2 = (Inr (), t)"
    using assms e0 e1 e2 by (auto simp: assign_tx_def split: prod.splits sum.splits)
  from e1 obtain xs where t1: "t1 = s\<lparr>jobs := jobs (snd (mark_assigned jobID runnerID (j_status job) s)), db_script := xs\<rparr>"
    and g1: "rows_matching (\<lambda>r. j_id r = jobID \<and> j_status r = j_status job) (jobs s) \<noteq> 0"
    by (auto simp: mark_assigned_def s1 update_jobs_def dest!: db_exec_update_jobs_Inr)
  from e2 obtain zs where t2: "t2 = t1\<lparr>runners := runners (snd (mark_busy jobID runnerID s)), db_script := zs\<rparr>"
    and g2: "rows_matching (\<lambda>r. r_id r = runnerID \<and> r_status r = RunnerIdle) (runners s) \<noteq> 0"
    by (auto simp: mark_busy_def t1 update_runners_def dest!: db_exec_update_runners_Inr)
  from tx_commit_Inr [OF e3] obtain ws
    where "t = (assign_effect jobID runnerID (j_status job) s)\<lparr>db_script := ws\<rparr>"
    by (auto simp: assign_effect_def t2 t1 s1)
  moreover have "assign_guard jobID runnerID (j_status job) s"
    using g1 g2 by (simp add: assign_guard_def)
  ultimately show ?thesis by (rule that [rotated])
qed

text \<open>The second statement of \<open>AppendLogs\<close> only reads.\<close>

lemma AppendLogs_frame:
  "snd (AppendLogs jobID seq chunk s) = snd (db_exec (append_chunk jobID seq chunk) s) \<or>
   (\<exists>xs. snd (AppendLogs jobID seq chunk s) =
         (snd (db_exec (append_chunk jobID seq chunk) s))\<lparr>db_script := xs\<rparr>)"
proof -
  obtain a t where e: "db_exec (append_chunk jobID seq chunk) s = (a, t)" by force
  show ?thesis
    by (rule db_exec_select [of "\<lambda>s. map_option j_log_seq (row_at j_id jobID (jobs s))" t])
      (auto simp: AppendLogs_def e split: sum.splits option.splits)
qed

section \<open>One call of any client\<close>

text \<open>The status changes the methods ask \<open>transition\<close> for, each with its columns.\<close>

inductive lifecycle_change :: "JobStatus \<Rightarrow> (time \<Rightarrow> job_row \<Rightarrow> job_row) \<Rightarrow> bool" where
  to_running: "lifecycle_change JobRunning start_extra"
| to_success: "lifecycle_change JobSuccess (complete_extra c e)"
| to_failed: "lifecycle_change JobFailed (complete_extra c e)"
| to_queued: "lifecycle_change JobQueued requeue_extra"
| to_cancelled: "lifecycle_change JobCancelled cancel_extra"

inductive db_step :: "db \<Rightarrow> db \<Rightarrow> bool" where
  environment: "db_now s \<le> now \<Longrightarrow> db_step s (s\<lparr>db_now := now, db_script := xs\<rparr>)"
| create: "j_status j = JobQueued \<Longrightarrow> db_step s (snd (CreateJob j s))"
| change: "CanTransitionTo (j_status job) to \<Longrightarrow> lifecycle_change to extra \<Longrightarrow>
     db_step s (snd (transition_write bad i job to extra s))"
| assign: "CanTransitionTo (j_status job) JobAssigned \<Longrightarrow>
     db_step s (snd (assign_tx jobID runnerID job s))"
| release: "db_step s (snd (releaseRunner runnerID s))"
| append: "db_step s (snd (AppendLogs jobID seq chunk s))"
| register: "db_step s (snd (RegisterRunner r tokenHash s))"
| heartbeat: "db_step s (snd (Heartbeat runnerID s))"
| reap: "db_step s (snd (ReapOfflineRunners timeout s))"

abbreviation db_steps :: "db \<Rightarrow> db \<Rightarrow> bool" where
  "db_steps \<equiv> db_step\<^sup>*\<^sup>*"

inductive_simps lifecycle_change_simps: "lifecycle_change to extra"

section \<open>Invariants of statements are invariants of runs\<close>

locale statement_invariant =
  fixes I :: "db \<Rightarrow> bool"
  assumes env_law: "I s \<Longrightarrow> db_now s \<le> now \<Longrightarrow> I (s\<lparr>db_now := now, db_script := xs\<rparr>)"
    and insert_law: "I s \<Longrightarrow> j_status j = JobQueued \<Longrightarrow> I (snd (insert_job j s))"
    and change_law: "I s \<Longrightarrow> CanTransitionTo from to \<Longrightarrow> lifecycle_change to extra \<Longrightarrow>
      I (snd (change_status i from to extra s))"
    and assign_law: "I s \<Longrightarrow> CanTransitionTo from JobAssigned \<Longrightarrow> assign_guard jobID runnerID from s \<Longrightarrow>
      I (assign_effect jobID runnerID from s)"
    and release_law: "I s \<Longrightarrow> I (snd (mark_released runnerID s))"
    and append_law: "I s \<Longrightarrow> I (snd (append_rows jobID seq chunk s))"
    and register_law: "I s \<Longrightarrow> I (snd (insert_runner r tokenHash s))"
    and heartbeat_law: "I s \<Longrightarrow> I (snd (refresh_heartbeat runnerID s))"
    and reap_law: "I s \<Longrightarrow> I (snd (reap_stale timeout s))"
begin

lemma script: "I s \<Longrightarrow> I (s\<lparr>db_script := xs\<rparr>)"
  using env_law [of s "db_now s" xs] by simp

lemma exec:
  assumes "I s" and "\<And>s. I s \<Longrightarrow> I (snd (f s))"
  shows "I (snd (db_exec f s))"
  by (rule db_exec_cases [of f s]) (auto intro: assms script)

lemma checked: "I s \<Longrightarrow> I (snd (f s)) \<Longrightarrow> I (snd (with_args bad f s))"
  using snd_with_args [of bad f s] by auto

lemma read: "I s \<Longrightarrow> I (snd (db_exec (select q) s))"
  by (rule exec) (auto simp: select_def)

lemma step: "db_step s t \<Longrightarrow> I s \<Longrightarrow> I t"
proof (induction rule: db_step.induct)
  case (environment s now xs)
  then show ?case by (intro env_law)
next
  case (create j s)
  then have "I (snd (db_exec (insert_job j) s))" by (intro exec insert_law)
  then show ?case by (auto simp: CreateJob_def split: prod.splits sum.splits)
next
  case (change job to extra s bad i)
  then have "I (snd (db_exec (with_args bad (change_status i (j_status job) to extra)) s))"
    by (intro exec checked change_law)
  then show ?case by (auto simp: transition_write_def split: prod.splits sum.splits)
next
  case (assign job s jobID runnerID)
  then show ?case
    using assign_tx_atomic [of jobID runnerID job s] by (metis script assign_law)
next
  case (release s runnerID)
  then have "I (snd (db_exec (mark_released runnerID) s))" by (intro exec release_law)
  then show ?case by (auto simp: releaseRunner_def split: prod.splits sum.splits)
next
  case (append s jobID seq chunk)
  then have "I (snd (db_exec (append_chunk jobID seq chunk) s))" 
    unfolding append_chunk_def by (intro exec checked append_law)
  then show ?case using AppendLogs_frame [of jobID seq chunk s] by (metis script)
next
  case (register s r tokenHash)
  then have "I (snd (db_exec (insert_runner r tokenHash) s))" by (intro exec register_law)
  then show ?case by (auto simp: RegisterRunner_def split: prod.splits sum.splits)
next
  case (heartbeat s runnerID)
  then have "I (snd (db_exec (refresh_heartbeat runnerID) s))" by (intro exec heartbeat_law)
  then show ?case by (auto simp: Heartbeat_def split: prod.splits sum.splits)
next
  case (reap s timeout)
  then have "I (snd (db_exec (reap_stale timeout) s))" by (intro exec reap_law)
  then show ?case by (auto simp: ReapOfflineRunners_def split: prod.splits sum.splits)
qed

lemma steps: "db_steps s t \<Longrightarrow> I s \<Longrightarrow> I t"
  by (induction rule: rtranclp_induct) (auto intro: step)

end

section \<open>Every method is a run of calls\<close>

lemma db_steps_script: "db_steps s (s\<lparr>db_script := xs\<rparr>)"
  using db_step.environment [of s "db_now s" xs] by (simp add: r_into_rtranclp)

lemma GetJob_steps: "db_steps s (snd (GetJob i s))"
  using GetJob_frame [of i s] db_steps_script by metis

lemma transition_steps:
  assumes "lifecycle_change to extra"
  shows "db_steps s (snd (transition bad i to extra s))"
proof (cases "GetJob i s")
  case (Pair a t)
  have st: "db_steps s t" using GetJob_steps [of s i] Pair by simp
  show ?thesis
  proof (cases a)
    case (Inl e)
    with Pair st show ?thesis by (simp add: transition_def)
  next
    case (Inr job)
    show ?thesis
    proof (cases "CanTransitionTo (j_status job) to")
      case True
      then have "db_step t (snd (transition_write bad i job to extra t))"
        using assms by (rule db_step.change)
      with True Pair Inr st show ?thesis by (simp add: transition_def rtranclp.rtrancl_into_rtrancl)
    next
      case False
      with Pair Inr st show ?thesis by (simp add: transition_def)
    qed
  qed
qed

lemma release_after_steps:
  assumes "lifecycle_change to extra"
  shows "db_steps s (snd (case transition bad i to extra s of
        (Inl e, t) \<Rightarrow> (Inl e, t)
      | (Inr job, t) \<Rightarrow> (case j_runner_id job of Some r \<Rightarrow> releaseRunner r t | None \<Rightarrow> (Inr (), t))))"
  using transition_steps [OF assms, of s bad i]
  by (auto split: prod.splits sum.splits option.splits
      intro: rtranclp.rtrancl_into_rtrancl db_step.release)

lemma CreateJob_steps: "j_status j = JobQueued \<Longrightarrow> db_steps s (snd (CreateJob j s))"
  by (intro r_into_rtranclp db_step.create)

lemma StartJob_steps: "db_steps s (snd (StartJob i s))"
  using transition_steps [OF lifecycle_change.to_running, of s None i]
  by (auto simp: StartJob_def split: prod.splits sum.splits)

lemma CompleteJob_steps:
  "status = JobSuccess \<or> status = JobFailed \<Longrightarrow> db_steps s (snd (CompleteJob i status c e s))"
  unfolding CompleteJob_def by (auto intro!: release_after_steps lifecycle_change.intros)

lemma RequeueJob_steps: "db_steps s (snd (RequeueJob i s))"
  unfolding RequeueJob_def by (rule release_after_steps) (rule lifecycle_change.to_queued)

lemma CancelJob_steps: "db_steps s (snd (CancelJob i s))"
  unfolding CancelJob_def by (rule release_after_steps) (rule lifecycle_change.to_cancelled)

lemma AssignJob_steps: "db_steps s (snd (AssignJob jobID runnerID s))"
proof (cases "GetJob jobID s")
  case (Pair a t)
  have st: "db_steps s t" using GetJob_steps [of s jobID] Pair by simp
  show ?thesis
    using st Pair
    by (cases a) (auto simp: AssignJob_def intro: rtranclp.rtrancl_into_rtrancl db_step.assign)
qed

lemmas method_steps =
  CreateJob_steps GetJob_steps StartJob_steps CompleteJob_steps RequeueJob_steps CancelJob_steps
  AssignJob_steps
  r_into_rtranclp [where r = db_step, OF db_step.append] r_into_rtranclp [where r = db_step, OF db_step.register]
  r_into_rtranclp [where r = db_step, OF db_step.heartbeat] r_into_rtranclp [where r = db_step, OF db_step.reap]
  r_into_rtranclp [where r = db_step, OF db_step.release]

end
