(* ===== verification/Store_Invariants.thy ===== *)
theory Store_Invariants
  imports Store_Steps
begin

text \<open>
  What every reachable database satisfies, whatever fails and however the clients interleave: the
  keys and the partial unique index, the columns that belong to each status, the agreement of a
  runner's status with its \<^verbatim>\<open>current_job_id\<close>, the foreign key, and the order of the time stamps.
\<close>

section \<open>Well-formed rows\<close>

definition job_row_ok :: "job_row \<Rightarrow> bool" where
  "job_row_ok r \<longleftrightarrow>
     0 \<le> j_attempts r \<and> 0 \<le> j_log_seq r \<and>
     (case j_status r of
        JobQueued \<Rightarrow> j_runner_id r = None \<and> j_started_at r = None \<and> j_completed_at r = None
          \<and> j_exit_code r = None
      | JobAssigned \<Rightarrow> j_runner_id r \<noteq> None \<and> j_started_at r = None \<and> j_completed_at r = None
          \<and> j_exit_code r = None \<and> 1 \<le> j_attempts r
      | JobRunning \<Rightarrow> j_runner_id r \<noteq> None \<and> j_started_at r \<noteq> None \<and> j_completed_at r = None
          \<and> j_exit_code r = None \<and> 1 \<le> j_attempts r
      | JobSuccess \<Rightarrow> j_runner_id r \<noteq> None \<and> j_started_at r \<noteq> None \<and> j_completed_at r \<noteq> None
          \<and> j_exit_code r \<noteq> None \<and> 1 \<le> j_attempts r
      | JobFailed \<Rightarrow> j_runner_id r \<noteq> None \<and> j_completed_at r \<noteq> None
          \<and> j_exit_code r \<noteq> None \<and> 1 \<le> j_attempts r
      | JobCancelled \<Rightarrow> j_completed_at r \<noteq> None \<and> j_exit_code r = None)"

definition runner_row_ok :: "runner_row \<Rightarrow> bool" where
  "runner_row_ok r \<longleftrightarrow>
     (r_status r = RunnerBusy \<longleftrightarrow> r_current_job_id r \<noteq> None) \<and> r_status r \<noteq> RunnerDraining \<and>
     (r_status r = RunnerBusy \<longrightarrow> r_last_assigned_at r \<noteq> None)"

definition build_key :: "job_row \<Rightarrow> string \<times> string \<times> string" where
  "build_key r = (j_repository r, j_commit_sha r, j_event_type r)"

definition active_unique :: "job_row list \<Rightarrow> bool" where
  "active_unique rows \<longleftrightarrow> distinct (map build_key (filter (\<lambda>r. index_covers (j_status r)) rows))"

fun ref_ok :: "string set \<Rightarrow> string option \<Rightarrow> bool" where
  "ref_ok ids None = True"
| "ref_ok ids (Some x) = (x \<in> ids)"

definition runner_refs_ok :: "db \<Rightarrow> bool" where
  "runner_refs_ok s \<longleftrightarrow> list_all (\<lambda>r. ref_ok (r_id ` set (runners s)) (j_runner_id r)) (jobs s)"
  \<comment> \<open>the foreign key \<open>jobs.runner_id REFERENCES runners(id)\<close>\<close>

lemma ref_ok_insert: "ref_ok A x \<Longrightarrow> ref_ok (insert y A) x"
  by (cases x) auto

definition store_inv :: "db \<Rightarrow> bool" where
  "store_inv s \<longleftrightarrow>
     distinct (map j_id (jobs s)) \<and> distinct (map r_id (runners s)) \<and> active_unique (jobs s) \<and>
     list_all job_row_ok (jobs s) \<and> list_all runner_row_ok (runners s) \<and> runner_refs_ok s"

definition empty_db :: "time \<Rightarrow> outcome list \<Rightarrow> db" where
  "empty_db now xs = \<lparr>jobs = [], runners = [], db_now = now, db_script = xs\<rparr>"

section \<open>What a lifecycle change keeps\<close>

lemmas extra_defs = start_extra_def complete_extra_def requeue_extra_def cancel_extra_def

lemma lifecycle_change_keeps:
  assumes "lifecycle_change to extra"
  shows "j_id (extra now r) = j_id r" "j_status (extra now r) = j_status r"
    "j_repository (extra now r) = j_repository r" "j_commit_sha (extra now r) = j_commit_sha r"
    "j_event_type (extra now r) = j_event_type r" "j_attempts (extra now r) = j_attempts r"
    "j_logs (extra now r) = j_logs r" "j_log_seq (extra now r) = j_log_seq r"
    "j_created_at (extra now r) = j_created_at r"
    "j_runner_id (extra now r) = (if to = JobQueued then None else j_runner_id r)"
  using assms by (auto simp: lifecycle_change_simps extra_defs)

lemma lifecycle_change_row_ok:
  assumes "lifecycle_change to extra" and "CanTransitionTo (j_status r) to" and "job_row_ok r"
  shows "job_row_ok (extra now (r\<lparr>j_status := to\<rparr>))"
  using assms
  by (cases "j_status r") (auto simp: job_row_ok_def lifecycle_change_simps extra_defs)

lemma transition_into_index: "CanTransitionTo from to \<Longrightarrow> index_covers to \<Longrightarrow> index_covers from"
  by (cases "from") (auto simp: index_covers_def)

lemma active_unique_change:
  assumes "lifecycle_change to extra" and "CanTransitionTo from to" and "active_unique rows"
  shows "active_unique
    (sql_update (\<lambda>r. j_id r = i \<and> j_status r = from) (\<lambda>r. extra now (r\<lparr>j_status := to\<rparr>)) rows)"
  unfolding active_unique_def
  by (rule distinct_index_update)
    (use assms in \<open>auto simp: active_unique_def build_key_def lifecycle_change_keeps
      dest: transition_into_index\<close>)

section \<open>Every statement keeps the invariant\<close>

lemma insert_job_inv:
  assumes "store_inv s" and "j_status j = JobQueued"
  shows "store_inv (snd (insert_job j s))"
  using assms
  by (auto simp: store_inv_def insert_job_def insert_conflict_def active_unique_def build_key_def
      same_build_def runner_refs_ok_def job_row_ok_def list_ex_iff index_covers_def image_iff)

lemma change_status_inv:
  assumes inv: "store_inv s" and tr: "CanTransitionTo from to" and ch: "lifecycle_change to extra"
  shows "store_inv (snd (change_status i from to extra s))"
proof -
  let ?P = "\<lambda>r. j_id r = i \<and> j_status r = from"
  let ?f = "\<lambda>r. extra (db_now s) (r\<lparr>j_status := to\<rparr>)"
  have ids: "map j_id (sql_update ?P ?f (jobs s)) = map j_id (jobs s)"
    by (rule sql_update_keys) (simp add: lifecycle_change_keeps [OF ch])
  have "list_all job_row_ok (sql_update ?P ?f (jobs s))"
    by (rule list_all_sql_update) (use inv tr in \<open>auto simp: store_inv_def intro: lifecycle_change_row_ok [OF ch]\<close>)
  moreover have "runner_refs_ok (s\<lparr>jobs := sql_update ?P ?f (jobs s)\<rparr>)"
    using inv by (auto simp: store_inv_def runner_refs_ok_def lifecycle_change_keeps [OF ch]
        intro!: list_all_sql_update)
  ultimately show ?thesis
    using inv ids active_unique_change [OF ch tr]
    by (simp add: store_inv_def change_status_def update_jobs_def runner_refs_ok_def)
qed

lemma runners_update_inv:
  assumes inv: "store_inv s" and id: "\<And>r. r_id (f r) = r_id r"
    and ok: "\<And>r. r \<in> set (runners s) \<Longrightarrow> P r \<Longrightarrow> runner_row_ok r \<Longrightarrow> runner_row_ok (f r)"
  shows "store_inv (s\<lparr>runners := sql_update P f (runners s)\<rparr>)"
proof -
  have ids: "map r_id (sql_update P f (runners s)) = map r_id (runners s)"
    by (rule sql_update_keys) (rule id)
  then have "r_id ` set (sql_update P f (runners s)) = r_id ` set (runners s)"
    by (metis set_map)
  moreover have "list_all runner_row_ok (sql_update P f (runners s))"
    by (rule list_all_sql_update) (use inv ok in \<open>auto simp: store_inv_def\<close>)
  ultimately show ?thesis using inv ids by (simp add: store_inv_def runner_refs_ok_def)
qed

lemma jobs_update_inv:
  assumes inv: "store_inv s" and ok: "\<And>r. P r \<Longrightarrow> job_row_ok r \<Longrightarrow> job_row_ok (f r)"
    and id: "\<And>r. j_id (f r) = j_id r" and key: "\<And>r. build_key (f r) = build_key r"
    and ix: "\<And>r. P r \<Longrightarrow> index_covers (j_status (f r)) \<Longrightarrow> index_covers (j_status r)"
    and ref: "\<And>r. P r \<Longrightarrow> j_runner_id (f r) = j_runner_id r \<or> j_runner_id (f r) \<in> Some ` r_id ` set (runners s)"
  shows "store_inv (s\<lparr>jobs := sql_update P f (jobs s)\<rparr>)"
proof -
  have "map j_id (sql_update P f (jobs s)) = map j_id (jobs s)"
    by (rule sql_update_keys) (rule id)
  moreover have "list_all job_row_ok (sql_update P f (jobs s))"
    by (rule list_all_sql_update) (use inv ok in \<open>auto simp: store_inv_def\<close>)
  moreover have "active_unique (sql_update P f (jobs s))"
    unfolding active_unique_def by (rule distinct_index_update)
      (use inv key ix in \<open>auto simp: store_inv_def active_unique_def\<close>)
  moreover have "list_all (\<lambda>r. ref_ok (r_id ` set (runners s)) (j_runner_id r)) (sql_update P f (jobs s))"
  proof (rule list_all_sql_update)
    show "ref_ok (r_id ` set (runners s)) (j_runner_id (f r))"
      if "P r" and "ref_ok (r_id ` set (runners s)) (j_runner_id r)" for r
      using ref [OF that(1)] that(2) by auto
  qed (use inv in \<open>simp add: store_inv_def runner_refs_ok_def\<close>)
  ultimately show ?thesis using inv by (simp add: store_inv_def runner_refs_ok_def)
qed

lemma assign_effect_inv:
  assumes inv: "store_inv s" and tr: "CanTransitionTo from JobAssigned"
    and g: "assign_guard jobID runnerID from s"
  shows "store_inv (assign_effect jobID runnerID from s)"
proof -
  have fromq: "from = JobQueued" using tr by (simp add: assigned_only_from_queued)
  have mem: "runnerID \<in> r_id ` set (runners s)"
    using g by (auto simp: assign_guard_def rows_matching_0)
  have "store_inv (snd (mark_assigned jobID runnerID from s))"
    unfolding mark_assigned_def update_jobs_def snd_conv
    by (rule jobs_update_inv [OF inv])
      (auto simp: job_row_ok_def fromq build_key_def index_covers_def mem)
  then have "store_inv (snd (mark_busy jobID runnerID (snd (mark_assigned jobID runnerID from s))))"
    unfolding mark_busy_def update_runners_def snd_conv
    by (rule runners_update_inv) (auto simp: runner_row_ok_def)
  then show ?thesis
    by (simp add: assign_effect_def mark_busy_def mark_assigned_def update_jobs_def update_runners_def)
qed

interpretation store_inv: statement_invariant store_inv
proof (unfold_locales, goal_cases)
  case (1 s now xs)
  then show ?case by (simp add: store_inv_def runner_refs_ok_def)
next
  case (2 s j)
  then show ?case by (rule insert_job_inv)
next
  case (3 s "from" to extra i)
  then show ?case by (rule change_status_inv)
next
  case (4 s "from" jobID runnerID)
  then show ?case by (rule assign_effect_inv)
next
  case (5 s runnerID)
  then show ?case unfolding mark_released_def update_runners_def snd_conv
    by (rule runners_update_inv) (auto simp: runner_row_ok_def)
next
  case (6 s jobID seq chunk)
  then show ?case unfolding append_rows_def update_jobs_def snd_conv
    by (rule jobs_update_inv) (auto simp: job_row_ok_def build_key_def split: JobStatus.splits)
next
  case (7 s r tokenHash)
  then show ?case
    by (auto simp: insert_runner_def store_inv_def runner_refs_ok_def runner_row_ok_def list_ex_iff
        list_all_iff image_iff intro: ref_ok_insert)
next
  case (8 s runnerID)
  then show ?case unfolding refresh_heartbeat_def update_runners_def snd_conv
    by (rule runners_update_inv) (auto simp: runner_row_ok_def)
next
  case (9 s timeout)
  then show ?case unfolding reap_stale_def Let_def snd_conv
    by (rule runners_update_inv) (auto simp: runner_row_ok_def)
qed

lemma empty_db_inv: "store_inv (empty_db now xs)"
  by (simp add: store_inv_def empty_db_def active_unique_def runner_refs_ok_def)

lemma store_inv_D:
  assumes "store_inv s"
  shows "distinct (map j_id (jobs s))" "distinct (map r_id (runners s))"
    "r \<in> set (jobs s) \<Longrightarrow> job_row_ok r" "x \<in> set (runners s) \<Longrightarrow> runner_row_ok x"
  using assms by (auto simp: store_inv_def list_all_iff)

end
