(* ===== verification/Store_History.thy ===== *)
theory Store_History
  imports Store_Invariants
begin

text \<open>
  Properties of two states: how a row may evolve between any two moments of a run. \<open>job_evolves\<close> says
  that a job moves along its state machine only, that a finished job keeps its verdict, that the
  description of the build never changes and that the log only grows; \<open>runner_evolves\<close> says the same
  of runners. Both are interpretations of \<open>statement_invariant\<close> for a fixed first state.
\<close>

section \<open>Jobs\<close>

definition job_evolves :: "job_row \<Rightarrow> job_row \<Rightarrow> bool" where
  "job_evolves a b \<longleftrightarrow>
     job_path (j_status a) (j_status b) \<and>
     j_id b = j_id a \<and> j_repository b = j_repository a \<and> j_clone_url b = j_clone_url a \<and>
     j_commit_sha b = j_commit_sha a \<and> j_branch b = j_branch a \<and> j_event_type b = j_event_type a \<and>
     j_config_ref b = j_config_ref a \<and> j_labels b = j_labels a \<and> j_created_at b = j_created_at a \<and>
     j_attempts a \<le> j_attempts b \<and> j_log_seq a \<le> j_log_seq b \<and> (\<exists>l. j_logs b = j_logs a @ l) \<and>
     (Terminal (j_status a) \<longrightarrow>
        j_runner_id b = j_runner_id a \<and> j_exit_code b = j_exit_code a \<and> j_error b = j_error a \<and>
        j_attempts b = j_attempts a \<and> j_started_at b = j_started_at a \<and>
        j_completed_at b = j_completed_at a)"

lemma job_evolves_refl [simp]: "job_evolves r r"
  by (simp add: job_evolves_def job_path_refl)

lemma job_evolves_trans: "job_evolves a b \<Longrightarrow> job_evolves b c \<Longrightarrow> job_evolves a c"
  unfolding job_evolves_def
  by (auto intro: job_path_trans dest: job_path_terminal)

definition jobs_evolved :: "db \<Rightarrow> db \<Rightarrow> bool" where
  "jobs_evolved s0 s \<longleftrightarrow>
     (\<forall>i a. row_at j_id i (jobs s0) = Some a \<longrightarrow>
        (\<exists>b. row_at j_id i (jobs s) = Some b \<and> job_evolves a b))"

lemma jobs_evolved_update:
  assumes "jobs_evolved s0 s" and "\<And>r. j_id (f r) = j_id r" and "\<And>r. P r \<Longrightarrow> job_evolves r (f r)"
  shows "jobs_evolved s0 (s\<lparr>jobs := sql_update P f (jobs s)\<rparr>)"
  unfolding jobs_evolved_def
proof (intro allI impI)
  fix i a
  assume "row_at j_id i (jobs s0) = Some a"
  with assms(1) obtain b where b: "row_at j_id i (jobs s) = Some b" "job_evolves a b"
    by (auto simp: jobs_evolved_def)
  moreover have "row_at j_id i (sql_update P f (jobs s)) = Some (if P b then f b else b)"
    using b(1) assms(2) by (simp add: row_at_sql_update)
  moreover have "job_evolves a (if P b then f b else b)"
    using b(2) assms(3) [of b] by (auto intro: job_evolves_trans)
  ultimately show "\<exists>b. row_at j_id i (jobs (s\<lparr>jobs := sql_update P f (jobs s)\<rparr>)) = Some b \<and> job_evolves a b"
    by simp
qed

lemma jobs_evolved_insert: "jobs_evolved s0 s \<Longrightarrow> jobs_evolved s0 (s\<lparr>jobs := jobs s @ rows\<rparr>)"
  by (simp add: jobs_evolved_def) (metis row_at_append_Some)

lemma lifecycle_change_evolves:
  assumes "lifecycle_change to extra" and "CanTransitionTo (j_status r) to"
  shows "job_evolves r (extra now (r\<lparr>j_status := to\<rparr>))"
proof -
  have "job_path (j_status r) to"
    using assms(2) by (blast intro: job_path.intros)
  moreover have "\<not> Terminal (j_status r)"
    using assms(2) Terminal_stuck by blast
  ultimately show ?thesis
    using assms(1) by (auto simp: job_evolves_def lifecycle_change_simps extra_defs)
qed

interpretation job_history: statement_invariant "jobs_evolved s0" for s0
proof (unfold_locales, goal_cases)
  case (1 s now xs)
  then show ?case by (simp add: jobs_evolved_def)
next
  case (2 s j)
  then show ?case
    by (auto simp: insert_job_def intro: jobs_evolved_insert)
next
  case (3 s "from" to extra i)
  then show ?case unfolding change_status_def update_jobs_def snd_conv
    by (intro jobs_evolved_update) (auto simp: lifecycle_change_keeps lifecycle_change_evolves)
next
  case (4 s "from" jobID runnerID)
  then have fromq: "from = JobQueued" by (simp add: assigned_only_from_queued)
  have "jobs_evolved s0 (snd (mark_assigned jobID runnerID from s))"
    unfolding mark_assigned_def update_jobs_def snd_conv
    by (rule jobs_evolved_update [OF 4(1)])
      (auto simp: job_evolves_def fromq intro: job_path.intros)
  then show ?case by (simp add: jobs_evolved_def assign_effect_def)
next
  case (6 s jobID seq chunk)
  then show ?case unfolding append_rows_def update_jobs_def snd_conv
    by (intro jobs_evolved_update) (auto simp: job_evolves_def job_path_refl)
qed (simp_all add: jobs_evolved_def mark_released_def update_runners_def insert_runner_def
      refresh_heartbeat_def reap_stale_def Let_def)

section \<open>Runners\<close>

definition runner_evolves :: "runner_row \<Rightarrow> runner_row \<Rightarrow> bool" where
  "runner_evolves a b \<longleftrightarrow>
     RunnerCanTransitionTo\<^sup>*\<^sup>* (r_status a) (r_status b) \<and>
     r_id b = r_id a \<and> r_name b = r_name a \<and> r_labels b = r_labels a \<and>
     r_architecture b = r_architecture a \<and> r_os b = r_os a \<and> r_created_at b = r_created_at a \<and>
     r_token_hash b = r_token_hash a"

lemma runner_evolves_refl [simp]: "runner_evolves r r"
  by (simp add: runner_evolves_def)

lemma runner_evolves_trans: "runner_evolves a b \<Longrightarrow> runner_evolves b c \<Longrightarrow> runner_evolves a c"
  by (auto simp: runner_evolves_def)

definition runners_evolved :: "db \<Rightarrow> db \<Rightarrow> bool" where
  "runners_evolved s0 s \<longleftrightarrow>
     (\<forall>i a. row_at r_id i (runners s0) = Some a \<longrightarrow>
        (\<exists>b. row_at r_id i (runners s) = Some b \<and> runner_evolves a b))"

lemma runners_evolved_update:
  assumes "runners_evolved s0 s" and "\<And>r. r_id (f r) = r_id r" and "\<And>r. P r \<Longrightarrow> runner_evolves r (f r)"
  shows "runners_evolved s0 (s\<lparr>runners := sql_update P f (runners s)\<rparr>)"
  unfolding runners_evolved_def
proof (intro allI impI)
  fix i a
  assume "row_at r_id i (runners s0) = Some a"
  with assms(1) obtain b where b: "row_at r_id i (runners s) = Some b" "runner_evolves a b"
    by (auto simp: runners_evolved_def)
  have "row_at r_id i (sql_update P f (runners s)) = Some (if P b then f b else b)"
    using b(1) assms(2) by (simp add: row_at_sql_update)
  moreover have "runner_evolves a (if P b then f b else b)"
    using b(2) assms(3) [of b] by (auto intro: runner_evolves_trans)
  ultimately show "\<exists>b. row_at r_id i (runners (s\<lparr>runners := sql_update P f (runners s)\<rparr>)) = Some b
      \<and> runner_evolves a b"
    by simp
qed

lemma runners_evolved_insert:
  "runners_evolved s0 s \<Longrightarrow> runners_evolved s0 (s\<lparr>runners := runners s @ rows\<rparr>)"
  by (simp add: runners_evolved_def) (metis row_at_append_Some)

lemma runner_step_evolves:
  assumes "RunnerCanTransitionTo (r_status r) (r_status r') \<or> r_status r' = r_status r"
    and "r_id r' = r_id r" "r_name r' = r_name r" "r_labels r' = r_labels r"
    "r_architecture r' = r_architecture r" "r_os r' = r_os r" "r_created_at r' = r_created_at r"
    "r_token_hash r' = r_token_hash r"
  shows "runner_evolves r r'"
  using assms by (auto simp: runner_evolves_def)

lemma offline_allowed: "RunnerOffline \<noteq> x \<Longrightarrow> RunnerCanTransitionTo x RunnerOffline"
  by (cases x) (auto simp: RunnerCanTransitionTo_def)

interpretation runner_history: statement_invariant "runners_evolved s0" for s0
proof (unfold_locales, goal_cases)
  case (4 s "from" jobID runnerID)
  then have "runners_evolved s0 (snd (mark_busy jobID runnerID s))"
    unfolding mark_busy_def update_runners_def snd_conv
    by (intro runners_evolved_update) (auto intro!: runner_step_evolves simp: RunnerCanTransitionTo_def)
  then show ?case by (simp add: runners_evolved_def assign_effect_def)
next
  case (5 s runnerID)
  then show ?case unfolding mark_released_def update_runners_def snd_conv
    by (intro runners_evolved_update) (auto intro!: runner_step_evolves simp: RunnerCanTransitionTo_def)
next
  case (7 s r tokenHash)
  then show ?case by (auto simp: insert_runner_def intro: runners_evolved_insert)
next
  case (8 s runnerID)
  then show ?case unfolding refresh_heartbeat_def update_runners_def snd_conv
    by (intro runners_evolved_update) (auto intro!: runner_step_evolves simp: RunnerCanTransitionTo_def)
next
  case (9 s timeout)
  then show ?case unfolding reap_stale_def Let_def snd_conv
    by (intro runners_evolved_update) (auto intro!: runner_step_evolves simp: offline_allowed)
qed (simp_all add: runners_evolved_def insert_job_def change_status_def append_rows_def update_jobs_def)

lemma jobs_evolved_self: "jobs_evolved s s"
  by (auto simp: jobs_evolved_def)

lemma runners_evolved_self: "runners_evolved s s"
  by (auto simp: runners_evolved_def)

end
