(* ===== verification/Store_Behaviour.thy ===== *)
theory Store_Behaviour
  imports Store_History
begin

text \<open>
  What the methods of \<^verbatim>\<open>Store\<close> return and do, branch by branch. The equations for a healthy
  database (an empty script) compute each method; the facts about success hold under every script.
\<close>

section \<open>Status changes\<close>

lemma transition_write_healthy:
  assumes "db_script s = []" and "distinct (map j_id (jobs s))"
    and "row_at j_id i (jobs s) = Some r" and "j_status r = j_status job"
  shows "transition_write None i job to extra s =
    (Inr (job\<lparr>j_status := to\<rparr>), snd (change_status i (j_status job) to extra s))"
  using assms
  by (simp add: transition_write_def change_status_def update_jobs_def rows_matching_key)

lemma transition_healthy:
  assumes "db_script s = []" and "distinct (map j_id (jobs s))"
  shows "transition bad i to extra s =
    (case row_at j_id i (jobs s) of
       None \<Rightarrow> (Inl ErrNotFound, s)
     | Some r \<Rightarrow>
         if CanTransitionTo (j_status r) to
         then case bad of Some e \<Rightarrow> (Inl (ErrPg e), s) | None \<Rightarrow>
           (Inr ((scanJob r)\<lparr>j_status := to\<rparr>), snd (change_status i (j_status r) to extra s))
         else (Inl (ErrInvalidTransition
                 (string_of_JobStatus (j_status r) @ '' -> '' @ string_of_JobStatus to)), s))"
  using assms transition_write_healthy [OF assms, of i _ "scanJob _" to extra]
  by (cases bad) (auto simp: transition_def transition_write_def split: option.splits)

text \<open>The row a status change leaves behind.\<close>

lemma change_status_row:
  assumes "lifecycle_change to extra"
  shows "row_at j_id k (jobs (snd (change_status i from to extra s))) =
    map_option (\<lambda>r. if j_id r = i \<and> j_status r = from
                    then extra (db_now s) (r\<lparr>j_status := to\<rparr>) else r) (row_at j_id k (jobs s))"
  unfolding change_status_def update_jobs_def snd_conv
  by (simp add: row_at_sql_update lifecycle_change_keeps [OF assms])

lemma change_status_frame [simp]:
  "runners (snd (change_status i from to extra s)) = runners s"
  "db_now (snd (change_status i from to extra s)) = db_now s"
  "db_script (snd (change_status i from to extra s)) = db_script s"
  by (simp_all add: change_status_def update_jobs_def)

lemma releaseRunner_healthy:
  "db_script s = [] \<Longrightarrow> releaseRunner r s = (Inr (), snd (mark_released r s))"
  by (simp add: releaseRunner_def mark_released_def update_runners_def)

lemma mark_released_frame [simp]:
  "jobs (snd (mark_released r s)) = jobs s"
  "db_now (snd (mark_released r s)) = db_now s"
  "db_script (snd (mark_released r s)) = db_script s"
  by (simp_all add: mark_released_def update_runners_def)

text \<open>
  \<open>CompleteJob\<close>, \<open>RequeueJob\<close> and \<open>CancelJob\<close> are the same two calls: the status change, then the release
  of the runner the row named.
\<close>

definition change_and_release ::
  "string \<Rightarrow> JobStatus \<Rightarrow> (time \<Rightarrow> job_row \<Rightarrow> job_row) \<Rightarrow> job_row \<Rightarrow> db \<Rightarrow> db" where
  "change_and_release i to extra r s =
     (let t = snd (change_status i (j_status r) to extra s)
      in case j_runner_id r of None \<Rightarrow> t | Some x \<Rightarrow> snd (mark_released x t))"

lemma finish_healthy:
  assumes "db_script s = []" and "distinct (map j_id (jobs s))" and "row_at j_id i (jobs s) = Some r"
    and "CanTransitionTo (j_status r) to" "bad = None"
  shows "(case transition bad i to extra s of
        (Inl e, t) \<Rightarrow> (Inl e, t)
      | (Inr job, t) \<Rightarrow> (case j_runner_id job of Some x \<Rightarrow> releaseRunner x t | None \<Rightarrow> (Inr (), t))) =
    (Inr (), change_and_release i to extra r s)"
  using assms
  by (auto simp: transition_healthy change_and_release_def releaseRunner_healthy split: option.splits)

lemma finish_refused:
  assumes "db_script s = []" and "distinct (map j_id (jobs s))" and "row_at j_id i (jobs s) = Some r"
    and "\<not> CanTransitionTo (j_status r) to"
  shows "(case transition bad i to extra s of
        (Inl e, t) \<Rightarrow> (Inl e, t)
      | (Inr job, t) \<Rightarrow> (case j_runner_id job of Some x \<Rightarrow> releaseRunner x t | None \<Rightarrow> (Inr (), t))) =
    (Inl (ErrInvalidTransition
       (string_of_JobStatus (j_status r) @ '' -> '' @ string_of_JobStatus to)), s)"
  using assms by (simp add: transition_healthy)

lemma finish_unwritable:
  assumes "db_script s = []" and "distinct (map j_id (jobs s))" and "row_at j_id i (jobs s) = Some r"
    and "CanTransitionTo (j_status r) to"
  shows "(case transition (Some e) i to extra s of
        (Inl e, t) \<Rightarrow> (Inl e, t)
      | (Inr job, t) \<Rightarrow> (case j_runner_id job of Some x \<Rightarrow> releaseRunner x t | None \<Rightarrow> (Inr (), t))) =
    (Inl (ErrPg e), s)"
  using assms by (simp add: transition_healthy)

lemma CompleteJob_unwritable:
  assumes "db_script s = []" and "distinct (map j_id (jobs s))" and "row_at j_id i (jobs s) = Some r"
    and "CanTransitionTo (j_status r) status" and "arg_error code msg = Some e"
  shows "CompleteJob i status code msg s = (Inl (ErrPg e), s)"
  unfolding CompleteJob_def assms(5) by (rule finish_unwritable [OF assms(1-4)])

section \<open>Assignment\<close>

lemma AssignJob_Inr:
  assumes "AssignJob jobID runnerID s = (Inr (), t)"
  obtains xs where "assign_guard jobID runnerID JobQueued s"
    and "t = (assign_effect jobID runnerID JobQueued s)\<lparr>db_script := xs\<rparr>"
proof -
  from assms obtain job u where g: "GetJob jobID s = (Inr job, u)"
    and c: "CanTransitionTo (j_status job) JobAssigned" and a: "assign_tx jobID runnerID job u = (Inr (), t)"
    by (auto simp: AssignJob_def split: prod.splits sum.splits if_splits)
  from GetJob_Inr [OF g] obtain ys where u: "u = s\<lparr>db_script := ys\<rparr>" by blast
  have q: "j_status job = JobQueued" using c by (simp add: assigned_only_from_queued)
  from a show ?thesis
    by (rule assign_tx_Inr)
      (rule that, auto simp: q u assign_guard_def assign_effect_def mark_assigned_def mark_busy_def
        update_jobs_def update_runners_def)
qed

lemma AssignJob_atomic:
  "\<exists>xs. snd (AssignJob jobID runnerID s) = s\<lparr>db_script := xs\<rparr> \<or>
        (assign_guard jobID runnerID JobQueued s \<and>
         snd (AssignJob jobID runnerID s) = (assign_effect jobID runnerID JobQueued s)\<lparr>db_script := xs\<rparr>)"
proof (cases "GetJob jobID s")
  case (Pair a u)
  obtain ys where u: "u = s\<lparr>db_script := ys\<rparr>"
    using GetJob_frame [of jobID s] Pair by auto
  show ?thesis
  proof (cases a)
    case (Inl e)
    with Pair u show ?thesis by (auto simp: AssignJob_def)
  next
    case (Inr job)
    show ?thesis
    proof (cases "CanTransitionTo (j_status job) JobAssigned")
      case True
      then have q: "j_status job = JobQueued" by (simp add: assigned_only_from_queued)
      have "snd (AssignJob jobID runnerID s) = snd (assign_tx jobID runnerID job u)"
        using Pair Inr True by (simp add: AssignJob_def)
      with assign_tx_atomic [of jobID runnerID job u] show ?thesis
        by (auto simp: q u assign_guard_def assign_effect_def mark_assigned_def mark_busy_def
            update_jobs_def update_runners_def)
    next
      case False
      with Pair Inr u show ?thesis by (auto simp: AssignJob_def)
    qed
  qed
qed

lemma AssignJob_healthy:
  assumes "db_script s = []" and "distinct (map j_id (jobs s))" and "distinct (map r_id (runners s))"
    and "row_at j_id jobID (jobs s) = Some j" and "j_status j = JobQueued"
    and "row_at r_id runnerID (runners s) = Some r" and "r_status r = RunnerIdle"
  shows "AssignJob jobID runnerID s = (Inr (), assign_effect jobID runnerID JobQueued s)"
  using assms
  by (simp add: AssignJob_def assign_tx_def select_def mark_assigned_def mark_busy_def update_jobs_def
      update_runners_def rows_matching_key tx_commit_def tx_rollback_def assign_effect_def)

lemma assign_effect_job:
  "row_at j_id k (jobs (assign_effect jobID runnerID from s)) =
   map_option (\<lambda>r. if j_id r = jobID \<and> j_status r = from
      then r\<lparr>j_status := JobAssigned, j_runner_id := Some runnerID, j_attempts := j_attempts r + 1\<rparr>
      else r) (row_at j_id k (jobs s))"
  by (simp add: assign_effect_def mark_assigned_def update_jobs_def row_at_sql_update)

lemma assign_effect_runner:
  "row_at r_id k (runners (assign_effect jobID runnerID from s)) =
   map_option (\<lambda>r. if r_id r = runnerID \<and> r_status r = RunnerIdle
      then r\<lparr>r_status := RunnerBusy, r_current_job_id := Some jobID, r_last_assigned_at := Some (db_now s)\<rparr>
      else r) (row_at r_id k (runners s))"
  by (simp add: assign_effect_def mark_busy_def update_runners_def row_at_sql_update)

section \<open>Build logs\<close>

lemma AppendLogs_healthy:
  assumes "db_script s = []" and "distinct (map j_id (jobs s))"
  shows "AppendLogs i n c s =
    (case arg_error n c of Some e \<Rightarrow> (Inl (ErrPg e), s) | None \<Rightarrow>
     case row_at j_id i (jobs s) of
       None \<Rightarrow> (Inl ErrNotFound, s)
     | Some r \<Rightarrow> (Inr (), s\<lparr>jobs := sql_update (\<lambda>r. j_id r = i \<and> n > j_log_seq r)
                          (\<lambda>r. r\<lparr>j_logs := j_logs r @ c, j_log_seq := n\<rparr>) (jobs s)\<rparr>))"
proof (cases "arg_error n c"; cases "row_at j_id i (jobs s)")
  assume None: "row_at j_id i (jobs s) = None" and a: "arg_error n c = None"
  then have "\<forall>r \<in> set (jobs s). \<not> (j_id r = i \<and> n > j_log_seq r)"
    by (auto simp: row_at_None)
  then have "rows_matching (\<lambda>r. j_id r = i \<and> n > j_log_seq r) (jobs s) = 0"
    by (simp add: rows_matching_0)
  moreover from this have "sql_update (\<lambda>r. j_id r = i \<and> n > j_log_seq r)
     (\<lambda>r. r\<lparr>j_logs := j_logs r @ c, j_log_seq := n\<rparr>) (jobs s) = jobs s"
    by (rule sql_update_no_match)
  ultimately show ?thesis using assms None a
    by (simp add: AppendLogs_def append_chunk_def append_rows_def update_jobs_def select_def)
next
  fix r
  assume "row_at j_id i (jobs s) = Some r" "arg_error n c = None"
  then show ?thesis using assms
    by (simp add: AppendLogs_def append_chunk_def append_rows_def update_jobs_def select_def rows_matching_key
        row_at_sql_update)
qed (use assms in \<open>simp_all add: AppendLogs_def append_chunk_def\<close>)

text \<open>
  A sequence of deliveries, each a chunk with its number, and the text the guard
  \<^verbatim>\<open>$2 > log_seq\<close> lets through: a chunk counts when it can be stored and its number is above every stored one before it.
\<close>

fun deliver :: "string \<Rightarrow> (int \<times> string) list \<Rightarrow> db \<Rightarrow> db" where
  "deliver i [] s = s"
| "deliver i ((n, c) # ds) s = deliver i ds (snd (AppendLogs i n c s))"

fun accepted :: "int \<Rightarrow> (int \<times> string) list \<Rightarrow> string" where
  "accepted m [] = []"
| "accepted m ((n, c) # ds) = (if arg_error n c = None \<and> m < n then c @ accepted n ds else accepted m ds)"

lemma deliver_logs:
  assumes "db_script s = []" and "distinct (map j_id (jobs s))" and "row_at j_id i (jobs s) = Some r"
  shows "map_option j_logs (row_at j_id i (jobs (deliver i ds s))) =
    Some (j_logs r @ accepted (j_log_seq r) ds)"
  using assms
proof (induction i ds s arbitrary: r rule: deliver.induct)
  case (1 i s)
  then show ?case by simp
next
  case (2 i n c ds s)
  let ?f = "\<lambda>r. r\<lparr>j_logs := j_logs r @ c, j_log_seq := n\<rparr>"
  let ?P = "\<lambda>r. arg_error n c = None \<and> j_id r = i \<and> n > j_log_seq r"
  let ?t = "s\<lparr>jobs := sql_update ?P ?f (jobs s)\<rparr>"
  have t: "snd (AppendLogs i n c s) = ?t"
    using 2(2-4) by (cases "arg_error n c") (simp_all add: AppendLogs_healthy sql_update_no_match rows_matching_0)
  have ids: "map j_id (jobs ?t) = map j_id (jobs s)"
    by (simp add: sql_update_keys)
  have row: "row_at j_id i (jobs ?t) = Some (if arg_error n c = None \<and> n > j_log_seq r then ?f r else r)"
    using 2(4) row_at_Some [OF 2(4)] by (simp add: row_at_sql_update)
  show ?case
    using 2(1) [of "if arg_error n c = None \<and> n > j_log_seq r then ?f r else r"] 2(2,3) ids row
    by (simp add: t) (auto split: if_splits)
qed

text \<open>
  In-order delivery with re-sends: every number is at most one above the highest so far.
\<close>

fun in_order :: "nat \<Rightarrow> nat list \<Rightarrow> bool" where
  "in_order m [] \<longleftrightarrow> True"
| "in_order m (n # ns) \<longleftrightarrow> n \<le> Suc m \<and> in_order (max m n) ns"

definition highest :: "nat \<Rightarrow> nat list \<Rightarrow> nat" where
  "highest m ns = fold max ns m"

lemma highest_ge: "m \<le> highest m ns"
  unfolding highest_def
proof (induction ns arbitrary: m)
  case (Cons n ns)
  have "m \<le> max n m" by simp
  also have "\<dots> \<le> fold max ns (max n m)" by (rule Cons)
  finally show ?case by simp
qed simp

lemma accepted_in_order:
  "in_order m ns \<Longrightarrow> list_all (\<lambda>n. arg_error (int n) (chunk n) = None) ns \<Longrightarrow>
   accepted (int m) (map (\<lambda>n. (int n, chunk n)) ns) = concat (map chunk [Suc m..<Suc (highest m ns)])"
proof (induction ns arbitrary: m)
  case Nil
  then show ?case by (simp add: highest_def)
next
  case (Cons n ns)
  show ?case
  proof (cases "n = Suc m")
    case True
    have "n \<le> highest n ns" by (rule highest_ge)
    then have split: "[Suc m..<Suc (highest n ns)] = n # [Suc n..<Suc (highest n ns)]"
      using True by (simp add: upt_rec)
    have "in_order n ns" and h: "highest m (n # ns) = highest n ns" and lt: "m < n"
      using Cons.prems True by (simp_all add: max_def highest_def)
    from Cons.IH [OF this(1)] Cons.prems(2) show ?thesis
      by (simp add: h split lt del: upt_Suc)
  next
    case False
    with Cons.prems have "n \<le> m" by simp
    with Cons show ?thesis by (simp add: highest_def max_def)
  qed
qed

end
