(* ===== verification/Ownership.thy ===== *)
theory Ownership
  imports Store_Behaviour
begin

text \<open>
  Who owns a job. A busy runner names a job in \<^verbatim>\<open>current_job_id\<close>, a job in hand names a runner in
  \<^verbatim>\<open>runner_id\<close>; \<open>own_inv {}\<close> says that the two always name each other. It holds after every
  completed method call that meets no failure. The set \<open>S\<close> holds the jobs whose runner the reaper
  has just marked OFFLINE and which it has not yet put back: inside a reaper pass they are the
  only exception.
\<close>

definition in_hand :: "JobStatus \<Rightarrow> bool" where
  "in_hand st \<longleftrightarrow> st = JobAssigned \<or> st = JobRunning"

definition job_at :: "db \<Rightarrow> string \<Rightarrow> job_row option" where
  "job_at s i = row_at j_id i (jobs s)"

definition runner_at :: "db \<Rightarrow> string \<Rightarrow> runner_row option" where
  "runner_at s x = row_at r_id x (runners s)"

definition busy_ok :: "db \<Rightarrow> bool" where
  "busy_ok s \<longleftrightarrow> (\<forall>x a j. runner_at s x = Some a \<and> r_current_job_id a = Some j \<longrightarrow>
     (\<exists>r. job_at s j = Some r \<and> in_hand (j_status r) \<and> j_runner_id r = Some x))"

definition held :: "string set \<Rightarrow> db \<Rightarrow> bool" where
  "held S s \<longleftrightarrow> (\<forall>i r. job_at s i = Some r \<and> in_hand (j_status r) \<longrightarrow>
     (\<exists>x a. j_runner_id r = Some x \<and> runner_at s x = Some a \<and>
        (if i \<in> S then r_status a \<noteq> RunnerBusy else r_current_job_id a = Some i)))"

definition own_inv :: "string set \<Rightarrow> db \<Rightarrow> bool" where
  "own_inv S s \<longleftrightarrow> store_inv s \<and> busy_ok s \<and> held S s"

lemma busy_okE:
  assumes "busy_ok s" and "runner_at s x = Some a" and "r_current_job_id a = Some j"
  obtains r where "job_at s j = Some r" "in_hand (j_status r)" "j_runner_id r = Some x"
  using assms unfolding busy_ok_def by metis

lemma busy_okI:
  assumes "\<And>x a j. runner_at s x = Some a \<Longrightarrow> r_current_job_id a = Some j \<Longrightarrow>
    \<exists>r. job_at s j = Some r \<and> in_hand (j_status r) \<and> j_runner_id r = Some x"
  shows "busy_ok s"
  using assms unfolding busy_ok_def by blast

lemma heldI:
  assumes "\<And>i r. job_at s i = Some r \<Longrightarrow> in_hand (j_status r) \<Longrightarrow>
    \<exists>x a. j_runner_id r = Some x \<and> runner_at s x = Some a \<and>
        (if i \<in> S then r_status a \<noteq> RunnerBusy else r_current_job_id a = Some i)"
  shows "held S s"
  using assms unfolding held_def by blast

lemma heldE:
  assumes "held S s" and "job_at s i = Some r" and "in_hand (j_status r)"
  obtains x a where "j_runner_id r = Some x" "runner_at s x = Some a"
    "if i \<in> S then r_status a \<noteq> RunnerBusy else r_current_job_id a = Some i"
  using assms unfolding held_def by metis

section \<open>The tables as maps\<close>

lemma job_at_row:
  "store_inv s \<Longrightarrow> job_at s i = Some r \<Longrightarrow> job_row_ok r \<and> j_id r = i \<and> r \<in> set (jobs s)"
  unfolding job_at_def by (auto dest!: row_at_Some dest: store_inv_D)

lemma runner_at_row:
  "store_inv s \<Longrightarrow> runner_at s x = Some a \<Longrightarrow> runner_row_ok a \<and> r_id a = x \<and> a \<in> set (runners s)"
  unfolding runner_at_def by (auto dest!: row_at_Some dest: store_inv_D)

lemma job_at_change:
  assumes "job_at s i = Some r" and "lifecycle_change to extra"
  shows "job_at (snd (change_status i (j_status r) to extra s)) =
    (job_at s)(i \<mapsto> extra (db_now s) (r\<lparr>j_status := to\<rparr>))"
  using assms
  by (auto simp: job_at_def fun_eq_iff change_status_row dest: row_at_Some intro!: option.map_ident_strong)

lemma runner_at_change [simp]: "runner_at (snd (change_status i from to extra s)) = runner_at s"
  by (simp add: runner_at_def fun_eq_iff)

lemma job_at_released [simp]: "job_at (snd (mark_released x s)) = job_at s"
  by (simp add: job_at_def fun_eq_iff)

lemma runner_at_released:
  "runner_at (snd (mark_released x s)) y =
   map_option (\<lambda>a. if y = x \<and> r_status a = RunnerBusy
                   then a\<lparr>r_status := RunnerIdle, r_current_job_id := None\<rparr> else a) (runner_at s y)"
proof (cases "row_at r_id y (runners s)")
  case (Some a)
  then have "r_id a = y" by (auto dest: row_at_Some)
  with Some show ?thesis
    by (simp add: runner_at_def mark_released_def update_runners_def row_at_sql_update)
qed (simp add: runner_at_def mark_released_def update_runners_def row_at_sql_update)

lemma job_at_assign:
  assumes "job_at s jobID = Some r" and "j_status r = from"
  shows "job_at (assign_effect jobID runnerID from s) = (job_at s)(jobID \<mapsto>
    r\<lparr>j_status := JobAssigned, j_runner_id := Some runnerID, j_attempts := j_attempts r + 1\<rparr>)"
  using assms
  by (auto simp: job_at_def fun_eq_iff assign_effect_job dest: row_at_Some intro!: option.map_ident_strong)

lemma runner_at_assign:
  assumes "runner_at s runnerID = Some a" and "r_status a = RunnerIdle"
  shows "runner_at (assign_effect jobID runnerID from s) = (runner_at s)(runnerID \<mapsto>
    a\<lparr>r_status := RunnerBusy, r_current_job_id := Some jobID, r_last_assigned_at := Some (db_now s)\<rparr>)"
  using assms
  by (auto simp: runner_at_def fun_eq_iff assign_effect_runner dest: row_at_Some intro!: option.map_ident_strong)

lemma assign_guard_rows:
  assumes "store_inv s" and "assign_guard jobID runnerID from s"
  obtains r a where "job_at s jobID = Some r" "j_status r = from"
    "runner_at s runnerID = Some a" "r_status a = RunnerIdle"
  using assms
  by (auto simp: assign_guard_def job_at_def runner_at_def store_inv_def rows_matching_key
      split: option.splits if_splits)

section \<open>Every completed call keeps the ownership\<close>

text \<open>
  Taking a job out of the hands of its runner: completion, cancellation, requeueing. The job may
  be one of the exceptions, and is none afterwards.
\<close>

lemma own_release:
  assumes inv: "own_inv S s" and row: "job_at s i = Some r" and ch: "lifecycle_change to extra"
    and tr: "CanTransitionTo (j_status r) to" and out: "\<not> in_hand to"
  shows "own_inv (S - {i}) (change_and_release i to extra r s)"
proof -
  let ?t = "snd (change_status i (j_status r) to extra s)"
  let ?r = "extra (db_now s) (r\<lparr>j_status := to\<rparr>)"
  have si: "store_inv s" and b: "busy_ok s" and h: "held S s" using inv by (auto simp: own_inv_def)
  have jobs: "job_at (change_and_release i to extra r s) = (job_at s)(i \<mapsto> ?r)"
    by (simp add: change_and_release_def Let_def job_at_change [OF row ch] split: option.split)
  have rs: "runner_at (change_and_release i to extra r s) y =
      map_option (\<lambda>a. if Some y = j_runner_id r \<and> r_status a = RunnerBusy
        then a\<lparr>r_status := RunnerIdle, r_current_job_id := None\<rparr> else a) (runner_at s y)" for y
    by (auto simp: change_and_release_def Let_def runner_at_released option.map_ident_strong split: option.split)
  have st: "j_status ?r = to" using ch by (simp add: lifecycle_change_keeps)
  have "store_inv (change_and_release i to extra r s)"
    using store_inv.change_law [OF si tr ch] store_inv.release_law
    by (simp add: change_and_release_def Let_def split: option.split)
  moreover have "busy_ok (change_and_release i to extra r s)"
  proof (rule busy_okI)
    fix x a j
    assume "runner_at (change_and_release i to extra r s) x = Some a" and cur: "r_current_job_id a = Some j"
    then obtain a0 where a0: "runner_at s x = Some a0"
      and a: "a = (if Some x = j_runner_id r \<and> r_status a0 = RunnerBusy
        then a0\<lparr>r_status := RunnerIdle, r_current_job_id := None\<rparr> else a0)"
      by (auto simp: rs)
    with cur have keep: "\<not> (Some x = j_runner_id r \<and> r_status a0 = RunnerBusy)" and aa: "a = a0"
      by (auto split: if_splits)
    then have busy: "r_status a0 = RunnerBusy"
      using cur runner_at_row [OF si a0] by (auto simp: runner_row_ok_def)
    from b a0 cur [unfolded aa] obtain q
      where q: "job_at s j = Some q" "in_hand (j_status q)" "j_runner_id q = Some x"
      by (rule busy_okE)
    with keep busy row have "j \<noteq> i" by auto
    with q show "\<exists>q. job_at (change_and_release i to extra r s) j = Some q \<and> in_hand (j_status q) \<and> j_runner_id q = Some x"
      by (simp add: jobs)
  qed
  moreover have "held (S - {i}) (change_and_release i to extra r s)"
  proof (rule heldI)
    fix k q
    assume "job_at (change_and_release i to extra r s) k = Some q" and hand: "in_hand (j_status q)"
    then have k: "k \<noteq> i" and q: "job_at s k = Some q"
      using out st by (auto simp: jobs split: if_splits)
    from h q hand obtain x a where xa: "j_runner_id q = Some x" "runner_at s x = Some a"
      "if k \<in> S then r_status a \<noteq> RunnerBusy else r_current_job_id a = Some k"
      by (rule heldE)
    have "\<not> (Some x = j_runner_id r \<and> r_status a = RunnerBusy)" if "k \<notin> S"
    proof
      assume *: "Some x = j_runner_id r \<and> r_status a = RunnerBusy"
      then have "in_hand (j_status r)"
        using tr job_at_row [OF si row] by (cases "j_status r") (auto simp: in_hand_def job_row_ok_def)
      with h row obtain x' a' where "j_runner_id r = Some x'" "runner_at s x' = Some a'"
        "if i \<in> S then r_status a' \<noteq> RunnerBusy else r_current_job_id a' = Some i"
        by (rule heldE)
      with * xa that k show False by (auto split: if_splits)
    qed
    with xa k show "\<exists>x a. j_runner_id q = Some x \<and> runner_at (change_and_release i to extra r s) x = Some a \<and>
        (if k \<in> S - {i} then r_status a \<noteq> RunnerBusy else r_current_job_id a = Some k)"
      by (auto simp: rs)
  qed
  ultimately show ?thesis by (simp add: own_inv_def)
qed

lemma own_assign:
  assumes inv: "own_inv {} s" and g: "assign_guard jobID runnerID JobQueued s"
  shows "own_inv {} (assign_effect jobID runnerID JobQueued s)"
proof -
  have si: "store_inv s" and b: "busy_ok s" and h: "held {} s" using inv by (auto simp: own_inv_def)
  obtain r a where r: "job_at s jobID = Some r" "j_status r = JobQueued"
    and a: "runner_at s runnerID = Some a" "r_status a = RunnerIdle"
    using assign_guard_rows [OF si g] by blast
  have free: "r_current_job_id a = None"
    using runner_at_row [OF si a(1)] a(2) by (simp add: runner_row_ok_def)
  have "store_inv (assign_effect jobID runnerID JobQueued s)"
    using store_inv.assign_law [OF si _ g] by simp
  moreover have "busy_ok (assign_effect jobID runnerID JobQueued s)"
  proof (rule busy_okI)
    fix x y j
    assume y: "runner_at (assign_effect jobID runnerID JobQueued s) x = Some y" "r_current_job_id y = Some j"
    show "\<exists>q. job_at (assign_effect jobID runnerID JobQueued s) j = Some q \<and> in_hand (j_status q) \<and> j_runner_id q = Some x"
    proof (cases "x = runnerID")
      case True
      with y show ?thesis by (auto simp: job_at_assign [OF r] runner_at_assign [OF a] in_hand_def)
    next
      case False
      with y have "runner_at s x = Some y" by (simp add: runner_at_assign [OF a])
      from b this y(2) obtain q where "job_at s j = Some q" "in_hand (j_status q)" "j_runner_id q = Some x"
        by (rule busy_okE)
      with r show ?thesis by (auto simp: job_at_assign [OF r] in_hand_def)
    qed
  qed
  moreover have "held {} (assign_effect jobID runnerID JobQueued s)"
  proof (rule heldI)
    fix k q
    assume k: "job_at (assign_effect jobID runnerID JobQueued s) k = Some q" "in_hand (j_status q)"
    show "\<exists>x y. j_runner_id q = Some x \<and> runner_at (assign_effect jobID runnerID JobQueued s) x = Some y \<and>
        (if k \<in> {} then r_status y \<noteq> RunnerBusy else r_current_job_id y = Some k)"
    proof (cases "k = jobID")
      case True
      with k show ?thesis by (auto simp: job_at_assign [OF r] runner_at_assign [OF a])
    next
      case False
      with k have "job_at s k = Some q" by (simp add: job_at_assign [OF r])
      from h this k(2) obtain x y where "j_runner_id q = Some x" "runner_at s x = Some y"
        "if k \<in> {} then r_status y \<noteq> RunnerBusy else r_current_job_id y = Some k" by (rule heldE)
      with a free show ?thesis by (auto simp: runner_at_assign [OF a])
    qed
  qed
  ultimately show ?thesis by (simp add: own_inv_def)
qed

lemma job_at_map_update:
  assumes "\<And>r. j_id (f r) = j_id r"
  shows "job_at (s\<lparr>jobs := sql_update P f (jobs s)\<rparr>) i = map_option (\<lambda>r. if P r then f r else r) (job_at s i)"
  using assms by (simp add: job_at_def row_at_sql_update)

lemma runner_at_map_update:
  assumes "\<And>r. r_id (f r) = r_id r"
  shows "runner_at (s\<lparr>runners := sql_update P f (runners s)\<rparr>) i =
    map_option (\<lambda>r. if P r then f r else r) (runner_at s i)"
  using assms by (simp add: runner_at_def row_at_sql_update)

lemma at_frame [simp]:
  "runner_at (s\<lparr>jobs := js\<rparr>) = runner_at s" "job_at (s\<lparr>runners := rs\<rparr>) = job_at s"
  by (simp_all add: runner_at_def job_at_def fun_eq_iff)

text \<open>
  The ownership only looks at which jobs are in hand and with whom, and at which runners are busy
  and with what. An UPDATE that changes neither keeps it.
\<close>

lemma own_update_jobs:
  assumes inv: "own_inv S s" and si: "store_inv (s\<lparr>jobs := sql_update P f (jobs s)\<rparr>)"
    and id: "\<And>r. j_id (f r) = j_id r" and run: "\<And>r. j_runner_id (f r) = j_runner_id r"
    and hand: "\<And>r. P r \<Longrightarrow> in_hand (j_status (f r)) = in_hand (j_status r)"
  shows "own_inv S (s\<lparr>jobs := sql_update P f (jobs s)\<rparr>)"
proof -
  let ?t = "s\<lparr>jobs := sql_update P f (jobs s)\<rparr>"
  have at: "job_at ?t i = map_option (\<lambda>r. if P r then f r else r) (job_at s i)" for i
    using id by (rule job_at_map_update)
  have same: "in_hand (j_status (if P r then f r else r)) = in_hand (j_status r)"
    "j_runner_id (if P r then f r else r) = j_runner_id r" for r
    using hand run by auto
  have "busy_ok ?t"
  proof (rule busy_okI)
    fix x a j
    assume "runner_at ?t x = Some a" and c: "r_current_job_id a = Some j"
    then have "runner_at s x = Some a" by simp
    with inv c obtain r where "job_at s j = Some r" "in_hand (j_status r)" "j_runner_id r = Some x"
      unfolding own_inv_def by (blast elim: busy_okE)
    then show "\<exists>r. job_at ?t j = Some r \<and> in_hand (j_status r) \<and> j_runner_id r = Some x"
      by (simp add: at same)
  qed
  moreover have "held S ?t"
  proof (rule heldI)
    fix i r
    assume "job_at ?t i = Some r" and "in_hand (j_status r)"
    then obtain q where q: "job_at s i = Some q" "in_hand (j_status q)" "j_runner_id r = j_runner_id q"
      by (auto simp: at same)
    with inv obtain x a where "j_runner_id q = Some x" "runner_at s x = Some a"
      "if i \<in> S then r_status a \<noteq> RunnerBusy else r_current_job_id a = Some i"
      unfolding own_inv_def by (blast elim: heldE)
    with q(3) show "\<exists>x a. j_runner_id r = Some x \<and> runner_at ?t x = Some a \<and>
        (if i \<in> S then r_status a \<noteq> RunnerBusy else r_current_job_id a = Some i)" by auto
  qed
  ultimately show ?thesis using si by (simp add: own_inv_def)
qed

lemma own_update_runners:
  assumes inv: "own_inv S s" and si: "store_inv (s\<lparr>runners := sql_update P f (runners s)\<rparr>)"
    and id: "\<And>r. r_id (f r) = r_id r" and cur: "\<And>r. r_current_job_id (f r) = r_current_job_id r"
    and busy: "\<And>r. P r \<Longrightarrow> r_status (f r) = RunnerBusy \<longleftrightarrow> r_status r = RunnerBusy"
  shows "own_inv S (s\<lparr>runners := sql_update P f (runners s)\<rparr>)"
proof -
  let ?t = "s\<lparr>runners := sql_update P f (runners s)\<rparr>"
  have at: "runner_at ?t x = map_option (\<lambda>r. if P r then f r else r) (runner_at s x)" for x
    using id by (rule runner_at_map_update)
  have same: "r_current_job_id (if P r then f r else r) = r_current_job_id r"
    "r_status (if P r then f r else r) = RunnerBusy \<longleftrightarrow> r_status r = RunnerBusy" for r
    using cur busy by auto
  have "busy_ok ?t"
  proof (rule busy_okI)
    fix x a j
    assume "runner_at ?t x = Some a" and "r_current_job_id a = Some j"
    then obtain b where "runner_at s x = Some b" "r_current_job_id b = Some j" by (auto simp: at same)
    with inv obtain r where "job_at s j = Some r" "in_hand (j_status r)" "j_runner_id r = Some x"
      unfolding own_inv_def by (blast elim: busy_okE)
    then show "\<exists>r. job_at ?t j = Some r \<and> in_hand (j_status r) \<and> j_runner_id r = Some x" by simp
  qed
  moreover have "held S ?t"
  proof (rule heldI)
    fix i r
    assume "job_at ?t i = Some r" and "in_hand (j_status r)"
    then have "job_at s i = Some r" "in_hand (j_status r)" by simp_all
    with inv obtain x a where "j_runner_id r = Some x" "runner_at s x = Some a"
      "if i \<in> S then r_status a \<noteq> RunnerBusy else r_current_job_id a = Some i"
      unfolding own_inv_def by (blast elim: heldE)
    then show "\<exists>x a. j_runner_id r = Some x \<and> runner_at ?t x = Some a \<and>
        (if i \<in> S then r_status a \<noteq> RunnerBusy else r_current_job_id a = Some i)"
      by (simp add: at same del: if_split)
  qed
  ultimately show ?thesis using si by (simp add: own_inv_def)
qed

lemma own_append:
  assumes "own_inv S s" shows "own_inv S (snd (append_rows i n c s))"
  using assms store_inv.append_law [of s i n c]
  unfolding append_rows_def update_jobs_def snd_conv
  by (intro own_update_jobs) (auto simp: own_inv_def)

lemma own_heartbeat:
  assumes "own_inv S s" shows "own_inv S (snd (refresh_heartbeat x s))"
  using assms store_inv.heartbeat_law [of s x]
  unfolding refresh_heartbeat_def update_runners_def snd_conv
  by (intro own_update_runners) (auto simp: own_inv_def)

lemma own_start:
  assumes "own_inv S s"
  shows "own_inv S (snd (change_status i JobAssigned JobRunning start_extra s))"
  using assms store_inv.change_law [OF _ _ lifecycle_change.to_running, of s JobAssigned i]
  unfolding change_status_def update_jobs_def snd_conv
  by (intro own_update_jobs) (auto simp: own_inv_def start_extra_def in_hand_def)

lemma own_insert_job:
  assumes inv: "own_inv S s" and q: "j_status j = JobQueued"
  shows "own_inv S (snd (insert_job j s))"
proof (cases "insert_conflict (jobs s) j")
  case True
  with inv show ?thesis by (simp add: insert_job_def)
next
  case False
  let ?t = "snd (insert_job j s)"
  obtain r where t: "?t = s\<lparr>jobs := jobs s @ [r]\<rparr>" "j_id r = j_id j" "j_status r = JobQueued"
    using False q by (auto simp: insert_job_def)
  have new: "job_at s (j_id j) = None"
    using False by (auto simp: insert_conflict_def job_at_def row_at_None list_ex_iff)
  have jobs: "job_at ?t = (job_at s)(j_id j \<mapsto> r)"
    using new t by (auto simp: job_at_def fun_eq_iff row_at_append split: option.split)
  have run: "runner_at ?t = runner_at s" by (simp add: t)
  have "busy_ok ?t"
    by (rule busy_okI) (use inv new in \<open>auto simp: own_inv_def jobs run elim!: busy_okE\<close>)
  moreover have "held S ?t"
    using inv t(3) unfolding held_def by (auto simp: own_inv_def held_def jobs run in_hand_def)
  ultimately show ?thesis using inv store_inv.insert_law [OF _ q] by (simp add: own_inv_def)
qed

lemma own_register:
  assumes inv: "own_inv S s"
  shows "own_inv S (snd (insert_runner x h s))"
proof (cases "list_ex (\<lambda>y. r_id y = r_id x) (runners s)")
  case True
  with inv show ?thesis by (simp add: insert_runner_def)
next
  case False
  let ?t = "snd (insert_runner x h s)"
  obtain r where t: "?t = s\<lparr>runners := runners s @ [r]\<rparr>" "r_id r = r_id x" "r_current_job_id r = None"
    using False by (auto simp: insert_runner_def)
  have new: "runner_at s (r_id x) = None"
    using False by (auto simp: runner_at_def row_at_None list_ex_iff)
  have run: "runner_at ?t = (runner_at s)(r_id x \<mapsto> r)"
    using new t by (auto simp: runner_at_def fun_eq_iff row_at_append split: option.split)
  have jobs: "job_at ?t = job_at s" by (simp add: t)
  have "busy_ok ?t"
    using inv t(3) unfolding busy_ok_def by (auto simp: own_inv_def busy_ok_def jobs run)
  moreover have "held S ?t"
    by (rule heldI) (use inv new in \<open>force simp: own_inv_def jobs run elim!: heldE\<close>)
  ultimately show ?thesis using inv store_inv.register_law by (simp add: own_inv_def)
qed

text \<open>The reaper takes the runners away; their jobs are the exceptions until they are put back.\<close>

definition orphans :: "duration \<Rightarrow> db \<Rightarrow> string set" where
  "orphans timeout s =
     {j. \<exists>x a. runner_at s x = Some a \<and> stale timeout (db_now s) a \<and> r_current_job_id a = Some j}"

lemma runner_at_reap:
  assumes "store_inv s"
  shows "runner_at (snd (reap_stale timeout s)) x =
    map_option (\<lambda>a. if stale timeout (db_now s) a
      then a\<lparr>r_status := RunnerOffline, r_current_job_id := None\<rparr> else a) (runner_at s x)"
proof (cases "runner_at s x")
  case (Some a)
  then have a: "a \<in> set (runners s)" "r_id a = x" using runner_at_row [OF assms] by auto
  have "x \<in> r_id ` set (filter (stale timeout (db_now s)) (runners s)) \<longleftrightarrow> stale timeout (db_now s) a"
  proof
    assume "x \<in> r_id ` set (filter (stale timeout (db_now s)) (runners s))"
    then obtain b where b: "b \<in> set (runners s)" "r_id b = x" "stale timeout (db_now s) b" by auto
    have "runner_at s x = Some b"
      using row_at_distinct [OF store_inv_D(2) [OF assms] b(1)] b(2) by (simp add: runner_at_def)
    with Some b(3) show "stale timeout (db_now s) a" by simp
  qed (use a in auto)
  with Some a show ?thesis
    by (simp add: reap_stale_def Let_def runner_at_map_update)
qed (simp add: reap_stale_def Let_def runner_at_map_update)

lemma own_reap:
  assumes inv: "own_inv {} s"
  shows "own_inv (orphans timeout s) (snd (reap_stale timeout s))"
proof -
  let ?t = "snd (reap_stale timeout s)"
  have si: "store_inv s" and b: "busy_ok s" and h: "held {} s" using inv by (auto simp: own_inv_def)
  have jobs: "job_at ?t = job_at s" by (simp add: reap_stale_def Let_def)
  note run = runner_at_reap [OF si]
  have "busy_ok ?t"
  proof (rule busy_okI)
    fix x a j
    assume "runner_at ?t x = Some a" and c: "r_current_job_id a = Some j"
    then have "runner_at s x = Some a" by (auto simp: run split: if_splits)
    with b c obtain r where "job_at s j = Some r" "in_hand (j_status r)" "j_runner_id r = Some x"
      by (blast elim: busy_okE)
    then show "\<exists>r. job_at ?t j = Some r \<and> in_hand (j_status r) \<and> j_runner_id r = Some x"
      by (simp add: jobs)
  qed
  moreover have "held (orphans timeout s) ?t"
  proof (rule heldI)
    fix i r
    assume "job_at ?t i = Some r" and hand: "in_hand (j_status r)"
    then have "job_at s i = Some r" by (simp add: jobs)
    from h this hand obtain x a where x: "j_runner_id r = Some x" "runner_at s x = Some a"
      "if i \<in> {} then r_status a \<noteq> RunnerBusy else r_current_job_id a = Some i" by (rule heldE)
    have own: "stale timeout (db_now s) a" if "i \<in> orphans timeout s"
    proof -
      from that obtain y c where y: "runner_at s y = Some c" "stale timeout (db_now s) c" "r_current_job_id c = Some i"
        by (auto simp: orphans_def)
      from b y(1,3) obtain q where "job_at s i = Some q" "j_runner_id q = Some y" by (rule busy_okE)
      with \<open>job_at s i = Some r\<close> x y show ?thesis by auto
    qed
    show "\<exists>x a. j_runner_id r = Some x \<and> runner_at ?t x = Some a \<and>
        (if i \<in> orphans timeout s then r_status a \<noteq> RunnerBusy else r_current_job_id a = Some i)"
      using x own by (auto simp: run orphans_def)
  qed
  ultimately show ?thesis using store_inv.reap_law [OF si] by (simp add: own_inv_def)
qed

section \<open>Method calls that are not disturbed\<close>

text \<open>
  \<open>CompleteJob\<close>, \<open>RequeueJob\<close> and \<open>CancelJob\<close> on a job in hand: the job leaves the runner's hands and the
  runner that held it is free.
\<close>

lemma finish_in_hand:
  assumes inv: "own_inv {} s" and script: "db_script s = []" and row: "job_at s i = Some r"
    and hand: "in_hand (j_status r)" and ch: "lifecycle_change to extra"
    and tr: "CanTransitionTo (j_status r) to" and out: "\<not> in_hand to"
  shows "\<exists>t x a. (case transition None i to extra s of
        (Inl e, t) \<Rightarrow> (Inl e, t)
      | (Inr job, t) \<Rightarrow> (case j_runner_id job of Some x \<Rightarrow> releaseRunner x t | None \<Rightarrow> (Inr (), t)))
      = (Inr (), t)
    \<and> job_at t = (job_at s)(i \<mapsto> extra (db_now s) (r\<lparr>j_status := to\<rparr>))
    \<and> j_runner_id r = Some x \<and> runner_at s x = Some a \<and> r_current_job_id a = Some i
    \<and> runner_at t = (runner_at s)(x \<mapsto> a\<lparr>r_status := RunnerIdle, r_current_job_id := None\<rparr>)
    \<and> own_inv {} t \<and> db_script t = []"
proof -
  have si: "store_inv s" and h: "held {} s" using inv by (auto simp: own_inv_def)
  from heldE [OF h row hand] obtain x a
    where x: "j_runner_id r = Some x" "runner_at s x = Some a" "r_current_job_id a = Some i" by auto
  have busy: "r_status a = RunnerBusy"
    using runner_at_row [OF si x(2)] x(3) by (simp add: runner_row_ok_def)
  let ?t = "change_and_release i to extra r s"
  have "distinct (map j_id (jobs s))" using si by (simp add: store_inv_def)
  note ok = finish_healthy [OF script this row [unfolded job_at_def] tr refl, of extra]
  have jobs: "job_at ?t = (job_at s)(i \<mapsto> extra (db_now s) (r\<lparr>j_status := to\<rparr>))"
    using job_at_change [OF row ch] x(1) by (simp add: change_and_release_def Let_def)
  have runners: "runner_at ?t = (runner_at s)(x \<mapsto> a\<lparr>r_status := RunnerIdle, r_current_job_id := None\<rparr>)"
    using x busy by (auto simp: change_and_release_def Let_def runner_at_released fun_eq_iff
        intro!: option.map_ident_strong)
  have "own_inv {} ?t" using own_release [OF inv row ch tr out] by simp
  moreover have "db_script ?t = []" using script x(1) by (simp add: change_and_release_def Let_def)
  ultimately show ?thesis using ok jobs runners x by blast
qed

lemma own_finish:
  assumes inv: "own_inv {} s" and script: "db_script s = []" and ch: "lifecycle_change to extra"
    and out: "\<not> in_hand to" and p_def: "p = (case transition bad i to extra s of
        (Inl e, t) \<Rightarrow> (Inl e, t)
      | (Inr job, t) \<Rightarrow> (case j_runner_id job of Some x \<Rightarrow> releaseRunner x t | None \<Rightarrow> (Inr (), t)))"
  shows "own_inv {} (snd p) \<and> db_script (snd p) = []"
proof (cases "job_at s i")
  case None
  then show ?thesis using inv script by (simp add: p_def job_at_def transition_def)
next
  case (Some r)
  have d: "distinct (map j_id (jobs s))" using inv by (simp add: own_inv_def store_inv_def)
  show ?thesis
  proof (cases "CanTransitionTo (j_status r) to")
    case True
    have "db_script (change_and_release i to extra r s) = []"
      using script by (simp add: change_and_release_def Let_def split: option.splits)
    with finish_healthy [OF script d Some [unfolded job_at_def] True, of bad extra]
      finish_unwritable [OF script d Some [unfolded job_at_def] True, of "the bad" extra]
      own_release [OF inv Some ch True out] inv script show ?thesis by (cases bad) (simp_all add: p_def)
  next
    case False
    from finish_refused [OF script d Some [unfolded job_at_def] this, of bad extra] inv script
    show ?thesis by (simp add: p_def)
  qed
qed

inductive undisturbed_call :: "db \<Rightarrow> db \<Rightarrow> bool" where
  call_wait: "db_now s \<le> now \<Longrightarrow> undisturbed_call s (s\<lparr>db_now := now\<rparr>)"
| call_create: "j_status j = JobQueued \<Longrightarrow> undisturbed_call s (snd (CreateJob j s))"
| call_assign: "undisturbed_call s (snd (AssignJob jobID runnerID s))"
| call_start: "undisturbed_call s (snd (StartJob jobID s))"
| call_complete: "status = JobSuccess \<or> status = JobFailed \<Longrightarrow>
     undisturbed_call s (snd (CompleteJob jobID status code msg s))"
| call_requeue: "undisturbed_call s (snd (RequeueJob jobID s))"
| call_cancel: "undisturbed_call s (snd (CancelJob jobID s))"
| call_append: "undisturbed_call s (snd (AppendLogs jobID seq chunk s))"
| call_register: "undisturbed_call s (snd (RegisterRunner r tokenHash s))"
| call_heartbeat: "undisturbed_call s (snd (Heartbeat runnerID s))"

lemma own_wait:
  assumes "own_inv S s" and "db_now s \<le> now" shows "own_inv S (s\<lparr>db_now := now\<rparr>)"
proof -
  have "store_inv (s\<lparr>db_now := now\<rparr>)"
    using assms by (simp add: own_inv_def store_inv_def runner_refs_ok_def)
  moreover have "job_at (s\<lparr>db_now := now\<rparr>) = job_at s" "runner_at (s\<lparr>db_now := now\<rparr>) = runner_at s"
    by (simp_all add: job_at_def runner_at_def fun_eq_iff)
  ultimately show ?thesis using assms(1) by (simp only: own_inv_def busy_ok_def held_def) blast
qed

lemma own_AssignJob:
  assumes "own_inv {} s" and "db_script s = []"
  shows "own_inv {} (snd (AssignJob i x s)) \<and> db_script (snd (AssignJob i x s)) = []"
proof -
  have frame: "own_inv {} (t\<lparr>db_script := xs\<rparr>) = own_inv {} t" for t xs
    by (simp add: own_inv_def store_inv_def runner_refs_ok_def busy_ok_def held_def job_at_def runner_at_def)
  have "db_script (snd (AssignJob i x s)) = []"
    using assms(2) by (simp add: AssignJob_def assign_tx_def select_def mark_assigned_def mark_busy_def
        update_jobs_def update_runners_def tx_commit_def tx_rollback_def split: option.splits)
  moreover have "own_inv {} (snd (AssignJob i x s))"
    using AssignJob_atomic [of i x s] own_assign [of s i x] assms(1) frame by metis
  ultimately show ?thesis by simp
qed

lemma undisturbed_call_own:
  "undisturbed_call s t \<Longrightarrow> own_inv {} s \<Longrightarrow> db_script s = [] \<Longrightarrow> own_inv {} t \<and> db_script t = []"
proof (induction rule: undisturbed_call.induct)
  case (call_wait s now)
  then show ?case using own_wait by simp
next
  case (call_create j s)
  then show ?case using own_insert_job [of "{}" s j]
    by (auto simp: CreateJob_def insert_job_def split: prod.splits sum.splits)
next
  case (call_assign s jobID runnerID)
  then show ?case using own_AssignJob by simp
next
  case (call_start s jobID)
  have "distinct (map j_id (jobs s))" using call_start by (simp add: own_inv_def store_inv_def)
  with call_start own_start [of "{}" s jobID] show ?case
    by (auto simp: StartJob_def transition_healthy running_only_from_assigned split: option.splits)
next
  case (call_complete status s jobID code msg)
  then have "lifecycle_change status (complete_extra code msg)" by (auto intro: lifecycle_change.intros)
  with call_complete show ?case unfolding CompleteJob_def
    by (intro own_finish [OF _ _ _ _ refl]) (auto simp: in_hand_def)
next
  case (call_requeue s jobID)
  then show ?case unfolding RequeueJob_def
    by (intro own_finish [OF _ _ _ _ refl] lifecycle_change.intros) (auto simp: in_hand_def)
next
  case (call_cancel s jobID)
  then show ?case unfolding CancelJob_def
    by (intro own_finish [OF _ _ _ _ refl] lifecycle_change.intros) (auto simp: in_hand_def)
next
  case (call_append s jobID seq chunk)
  have "distinct (map j_id (jobs s))" using call_append by (simp add: own_inv_def store_inv_def)
  with call_append own_append [of "{}" s jobID seq chunk] show ?case
    by (auto simp: AppendLogs_healthy append_rows_def update_jobs_def split: option.splits)
next
  case (call_register s r tokenHash)
  then show ?case using own_register [of "{}" s r tokenHash]
    by (auto simp: RegisterRunner_def insert_runner_def split: prod.splits sum.splits)
next
  case (call_heartbeat s runnerID)
  then show ?case using own_heartbeat [of "{}" s runnerID]
    by (auto simp: Heartbeat_def refresh_heartbeat_def update_runners_def)
qed

lemma undisturbed_calls_own:
  "undisturbed_call\<^sup>*\<^sup>* s t \<Longrightarrow> own_inv {} s \<Longrightarrow> db_script s = [] \<Longrightarrow> own_inv {} t \<and> db_script t = []"
  by (induction rule: rtranclp_induct) (auto dest: undisturbed_call_own)

lemma own_empty: "own_inv {} (empty_db now xs)"
  using empty_db_inv [of now xs]
  by (simp add: own_inv_def busy_ok_def held_def job_at_def runner_at_def empty_db_def)

end
