(* ===== verification/Sample_Data.thy ===== *)
theory Sample_Data
  imports Store_History Store_Behaviour Ownership
begin

text \<open>
  A small database on which the witnesses evaluate: one runner and two jobs, built by the store's own
  methods from the empty tables, and the same database with one job running.
\<close>

definition sample_job :: "string \<Rightarrow> string \<Rightarrow> Job" where
  "sample_job i sha = \<lparr>j_id = i, j_repository = ''acme/app'', j_clone_url = ''https://github.com/acme/app.git'',
     j_commit_sha = sha, j_branch = ''main'', j_event_type = ''push'', j_config_ref = ''forgerun.yml'',
     j_labels = [''linux''], j_status = JobQueued, j_runner_id = None, j_attempts = 0,
     j_exit_code = None, j_error = [], j_created_at = 0, j_started_at = None, j_completed_at = None\<rparr>"

definition sample_runner :: "string \<Rightarrow> Runner" where
  "sample_runner x = \<lparr>r_id = x, r_name = x, r_status = RunnerIdle, r_labels = [''linux'', ''x64''],
     r_architecture = ''amd64'', r_os = ''linux'', r_current_job_id = None, r_last_heartbeat = 0,
     r_last_assigned_at = None, r_created_at = 0\<rparr>"

definition pool :: db where
  "pool = snd (CreateJob (sample_job ''b'' ''22'') (snd (CreateJob (sample_job ''a'' ''11'')
     (snd (RegisterRunner (sample_runner ''x'') ''6b6579'' (empty_db (100 * second) []))))))"
  \<comment> \<open>runner x idle, jobs a and b queued\<close>

definition busy_pool :: db where
  "busy_pool = snd (StartJob ''a'' (snd (AssignJob ''a'' ''x'' pool)))"
  \<comment> \<open>job a running on x\<close>

lemma pool_eq: "pool = \<lparr>
   jobs = [
     \<lparr>j_id = ''a'', j_repository = ''acme/app'', j_clone_url = ''https://github.com/acme/app.git'',
      j_commit_sha = ''11'', j_branch = ''main'', j_event_type = ''push'', j_config_ref = ''forgerun.yml'',
      j_labels = [''linux''], j_status = JobQueued, j_runner_id = None, j_attempts = 0,
      j_exit_code = None, j_error = [], j_created_at = 100 * second, j_started_at = None,
      j_completed_at = None, j_logs = [], j_log_seq = 0\<rparr>,
     \<lparr>j_id = ''b'', j_repository = ''acme/app'', j_clone_url = ''https://github.com/acme/app.git'',
      j_commit_sha = ''22'', j_branch = ''main'', j_event_type = ''push'', j_config_ref = ''forgerun.yml'',
      j_labels = [''linux''], j_status = JobQueued, j_runner_id = None, j_attempts = 0,
      j_exit_code = None, j_error = [], j_created_at = 100 * second, j_started_at = None,
      j_completed_at = None, j_logs = [], j_log_seq = 0\<rparr>],
   runners = [\<lparr>r_id = ''x'', r_name = ''x'', r_status = RunnerIdle, r_labels = [''linux'', ''x64''],
      r_architecture = ''amd64'', r_os = ''linux'', r_current_job_id = None,
      r_last_heartbeat = 100 * second, r_last_assigned_at = None, r_created_at = 100 * second,
      r_token_hash = ''6b6579''\<rparr>],
   db_now = 100 * second, db_script = []\<rparr>"
  by (simp add: pool_def sample_job_def sample_runner_def empty_db_def CreateJob_def RegisterRunner_def
      insert_job_def insert_runner_def insert_conflict_def same_build_def index_covers_def)

lemma pool_steps: "db_steps (empty_db (100 * second) []) pool"
proof -
  let ?s = "snd (RegisterRunner (sample_runner ''x'') ''6b6579'' (empty_db (100 * second) []))"
  have "db_step (empty_db (100 * second) []) ?s" by (rule db_step.register)
  moreover have "db_step ?s (snd (CreateJob (sample_job ''a'' ''11'') ?s))"
    by (rule db_step.create) (simp add: sample_job_def)
  moreover have "db_step (snd (CreateJob (sample_job ''a'' ''11'') ?s)) pool"
    unfolding pool_def by (rule db_step.create) (simp add: sample_job_def)
  ultimately show ?thesis by (meson converse_rtranclp_into_rtranclp r_into_rtranclp)
qed

lemma busy_pool_steps: "db_steps pool busy_pool"
  unfolding busy_pool_def by (rule rtranclp_trans [OF AssignJob_steps StartJob_steps])

lemma pool_script [simp]: "db_script pool = []"
  by (simp add: pool_eq)

lemma pool_inv: "store_inv pool"
  using store_inv.steps [OF pool_steps empty_db_inv] .

lemma pool_rows [simp]:
  "map_option j_status (row_at j_id ''a'' (jobs pool)) = Some JobQueued"
  "map_option j_status (row_at j_id ''b'' (jobs pool)) = Some JobQueued"
  "map_option r_status (row_at r_id ''x'' (runners pool)) = Some RunnerIdle"
  by (simp_all add: pool_eq)

lemma AssignJob_pool [simp]:
  "AssignJob ''a'' ''x'' pool = (Inr (), assign_effect ''a'' ''x'' JobQueued pool)"
  by (rule AssignJob_healthy [where j = "hd (jobs pool)" and r = "hd (runners pool)"]) (simp_all add: pool_eq)

lemma busy_pool_eq: "busy_pool = \<lparr>
   jobs = [
     \<lparr>j_id = ''a'', j_repository = ''acme/app'', j_clone_url = ''https://github.com/acme/app.git'',
      j_commit_sha = ''11'', j_branch = ''main'', j_event_type = ''push'', j_config_ref = ''forgerun.yml'',
      j_labels = [''linux''], j_status = JobRunning, j_runner_id = Some ''x'', j_attempts = 1,
      j_exit_code = None, j_error = [], j_created_at = 100 * second, j_started_at = Some (100 * second),
      j_completed_at = None, j_logs = [], j_log_seq = 0\<rparr>,
     \<lparr>j_id = ''b'', j_repository = ''acme/app'', j_clone_url = ''https://github.com/acme/app.git'',
      j_commit_sha = ''22'', j_branch = ''main'', j_event_type = ''push'', j_config_ref = ''forgerun.yml'',
      j_labels = [''linux''], j_status = JobQueued, j_runner_id = None, j_attempts = 0,
      j_exit_code = None, j_error = [], j_created_at = 100 * second, j_started_at = None,
      j_completed_at = None, j_logs = [], j_log_seq = 0\<rparr>],
   runners = [\<lparr>r_id = ''x'', r_name = ''x'', r_status = RunnerBusy, r_labels = [''linux'', ''x64''],
      r_architecture = ''amd64'', r_os = ''linux'', r_current_job_id = Some ''a'',
      r_last_heartbeat = 100 * second, r_last_assigned_at = Some (100 * second),
      r_created_at = 100 * second, r_token_hash = ''6b6579''\<rparr>],
   db_now = 100 * second, db_script = []\<rparr>"
  unfolding busy_pool_def AssignJob_pool snd_conv
  by (simp add: assign_effect_def mark_assigned_def mark_busy_def update_jobs_def update_runners_def
      pool_eq StartJob_def transition_def transition_write_def change_status_def start_extra_def
      scanJob_def)

lemma pool_at [simp]:
  "job_at pool ''a'' = Some (hd (jobs pool))" "job_at pool ''b'' = Some (jobs pool ! 1)"
  "job_at pool [] = None" "runner_at pool ''x'' = Some (hd (runners pool))"
  by (simp_all add: job_at_def runner_at_def pool_eq)

lemma pool_a [simp]:
  "j_status (hd (jobs pool)) = JobQueued" "j_attempts (hd (jobs pool)) = 0"
  "r_status (hd (runners pool)) = RunnerIdle" "r_id (hd (runners pool)) = ''x''"
  "j_labels (hd (jobs pool)) = [''linux'']" "r_labels (hd (runners pool)) = [''linux'', ''x64'']"
  by (simp_all add: pool_eq)

lemma busy_pool_at [simp]:
  "job_at busy_pool ''a'' = Some (hd (jobs busy_pool))" "job_at busy_pool ''b'' = Some (jobs busy_pool ! 1)"
  "job_at busy_pool [] = None" "runner_at busy_pool ''x'' = Some (hd (runners busy_pool))"
  by (simp_all add: job_at_def runner_at_def busy_pool_eq)

lemma busy_pool_a [simp]:
  "j_status (hd (jobs busy_pool)) = JobRunning" "j_runner_id (hd (jobs busy_pool)) = Some ''x''"
  "j_log_seq (hd (jobs busy_pool)) = 0" "j_logs (hd (jobs busy_pool)) = []"
  "r_status (hd (runners busy_pool)) = RunnerBusy" "db_script busy_pool = []"
  "length (jobs busy_pool) = 2"
  by (simp_all add: busy_pool_eq)

lemma busy_pool_inv: "store_inv busy_pool"
  using store_inv.steps [OF busy_pool_steps pool_inv] .

lemma pool_calls: "undisturbed_call\<^sup>*\<^sup>* (empty_db (100 * second) []) pool"
proof -
  let ?s = "snd (RegisterRunner (sample_runner ''x'') ''6b6579'' (empty_db (100 * second) []))"
  have "undisturbed_call (empty_db (100 * second) []) ?s" by (rule call_register)
  moreover have "undisturbed_call ?s (snd (CreateJob (sample_job ''a'' ''11'') ?s))"
    by (rule call_create) (simp add: sample_job_def)
  moreover have "undisturbed_call (snd (CreateJob (sample_job ''a'' ''11'') ?s)) pool"
    unfolding pool_def by (rule call_create) (simp add: sample_job_def)
  ultimately show ?thesis by (meson converse_rtranclp_into_rtranclp r_into_rtranclp)
qed

lemma busy_pool_calls: "undisturbed_call\<^sup>*\<^sup>* pool busy_pool"
  unfolding busy_pool_def
  by (meson call_assign call_start converse_rtranclp_into_rtranclp r_into_rtranclp)

lemma pool_own: "own_inv {} pool"
  using undisturbed_calls_own [OF pool_calls own_empty] by (simp add: empty_db_def)

lemma busy_pool_own: "own_inv {} busy_pool"
  using undisturbed_calls_own [OF busy_pool_calls pool_own] by simp

end
