(* ===== verification/Store_Properties.thy ===== *)
theory Store_Properties
  imports Sample_Data
begin

text \<open>
  The properties of \<^verbatim>\<open>internal/store\<close>, from the invariants, the histories and the behaviour of single
  methods, each with a witness on the sample database where it has hypotheses.
\<close>

section \<open>Every interleaving, every pattern of failures\<close>

text \<open>C10: In every database that a run of store calls can reach from the empty tables, whatever the
  interleaving of the clients and whichever calls fail or lose their reply, the tables are well formed:
  ids are unique, a job's runner, timestamps and exit code fit its status, a runner is BUSY exactly when
  it has a current job, every runner a job names exists, and there is at most one unfinished job per
  repository, commit and event.\<close>

theorem store_invariant_reachable:
  assumes "db_steps (empty_db now xs) s"
  shows "distinct (map j_id (jobs s)) \<and> distinct (map r_id (runners s))
    \<and> (\<forall>r. r \<in> set (jobs s) \<longrightarrow> job_row_ok r)
    \<and> (\<forall>a. a \<in> set (runners s) \<longrightarrow> (r_status a = RunnerBusy \<longleftrightarrow> r_current_job_id a \<noteq> None))
    \<and> (\<forall>r x. r \<in> set (jobs s) \<and> j_runner_id r = Some x \<longrightarrow> x \<in> r_id ` set (runners s))
    \<and> (\<forall>r r'. r \<in> set (jobs s) \<and> r' \<in> set (jobs s) \<and> index_covers (j_status r)
         \<and> index_covers (j_status r') \<and> same_build r r' \<longrightarrow> r = r')"
proof -
  have inv: "store_inv s" using store_inv.steps [OF assms empty_db_inv] .
  have "inj_on build_key (set (filter (\<lambda>r. index_covers (j_status r)) (jobs s)))"
    using inv by (simp add: store_inv_def active_unique_def distinct_map)
  then have "r = r'" if "r \<in> set (jobs s)" "r' \<in> set (jobs s)" "index_covers (j_status r)"
    "index_covers (j_status r')" "same_build r r'" for r r'
    using that by (auto simp: inj_on_def build_key_def same_build_def)
  with inv show ?thesis
    by (auto simp: store_inv_def list_all_iff runner_row_ok_def runner_refs_ok_def)
qed

theorem store_invariant_reachable_witness:
  "distinct (map j_id (jobs busy_pool)) \<and> length (jobs busy_pool) = 2
   \<and> list_all job_row_ok (jobs busy_pool)"
  using store_invariant_reachable [OF rtranclp_trans [OF pool_steps busy_pool_steps]]
    busy_pool_a(7) unfolding list_all_iff by blast

text \<open>C3: A job's history, along any run of store calls: its row never disappears, its identity
  (repository, commit, branch, event, labels, creation time) never changes, its status moves only
  along the transitions of the state machine, attempts and the log sequence never decrease, its log
  only grows at the end, and once it is SUCCESS, FAILED or CANCELLED its status, exit code, error and
  completion time are final.\<close>

theorem job_history_preserved:
  assumes "db_steps s t" and "row_at j_id i (jobs s) = Some a"
  shows "\<exists>b. row_at j_id i (jobs t) = Some b \<and> job_path (j_status a) (j_status b)
    \<and> j_repository b = j_repository a \<and> j_commit_sha b = j_commit_sha a \<and> j_branch b = j_branch a
    \<and> j_event_type b = j_event_type a \<and> j_labels b = j_labels a \<and> j_created_at b = j_created_at a
    \<and> j_attempts a \<le> j_attempts b \<and> j_log_seq a \<le> j_log_seq b \<and> (\<exists>l. j_logs b = j_logs a @ l)
    \<and> (Terminal (j_status a) \<longrightarrow> j_status b = j_status a \<and> j_exit_code b = j_exit_code a
         \<and> j_error b = j_error a \<and> j_completed_at b = j_completed_at a)"
proof -
  have "jobs_evolved s t" using job_history.steps [OF assms(1) jobs_evolved_self] .
  with assms(2) obtain b where "row_at j_id i (jobs t) = Some b" "job_evolves a b"
    by (auto simp: jobs_evolved_def)
  then show ?thesis by (auto simp: job_evolves_def dest: job_path_terminal)
qed

theorem job_history_preserved_witness:
  "\<exists>b. row_at j_id ''a'' (jobs busy_pool) = Some b \<and> job_path JobQueued (j_status b)
    \<and> j_commit_sha b = ''11'' \<and> 0 \<le> j_attempts b"
  using job_history_preserved [OF busy_pool_steps, of "''a''" "hd (jobs pool)"]
  by (auto simp: pool_eq)

text \<open>A runner's history, along any run of store calls: its status moves only along the runner
  transitions, and its name, labels, platform and token hash stay what they were at registration.\<close>

theorem runner_history_preserved:
  assumes "db_steps s t" and "row_at r_id x (runners s) = Some a"
  shows "\<exists>b. row_at r_id x (runners t) = Some b \<and> RunnerCanTransitionTo\<^sup>*\<^sup>* (r_status a) (r_status b)
    \<and> r_name b = r_name a \<and> r_labels b = r_labels a \<and> r_architecture b = r_architecture a
    \<and> r_os b = r_os a \<and> r_token_hash b = r_token_hash a"
proof -
  have "runners_evolved s t" using runner_history.steps [OF assms(1) runners_evolved_self] .
  with assms(2) obtain b where "row_at r_id x (runners t) = Some b" "runner_evolves a b"
    by (auto simp: runners_evolved_def)
  then show ?thesis by (auto simp: runner_evolves_def)
qed

theorem runner_history_preserved_witness:
  "\<exists>b. row_at r_id ''x'' (runners busy_pool) = Some b \<and> r_token_hash b = ''6b6579''
    \<and> RunnerCanTransitionTo\<^sup>*\<^sup>* RunnerIdle (r_status b)"
  using runner_history_preserved [OF busy_pool_steps, of "''x''" "hd (runners pool)"]
  by (auto simp: pool_eq)

section \<open>Single methods\<close>

text \<open>C29: \<open>AssignJob\<close> is all or nothing. Whatever fails inside it, the tables are either untouched or
  hold both halves of the assignment, made from a QUEUED job and an IDLE runner: the job ASSIGNED to
  the runner with one more attempt, the runner BUSY with the job. A reported success is the second
  case.\<close>

theorem assign_all_or_nothing:
  assumes "AssignJob jobID runnerID s = (res, t)" and "store_inv s"
  shows "(jobs t = jobs s \<and> runners t = runners s \<and> res \<noteq> Inr ()) \<or>
    (\<exists>r a. job_at s jobID = Some r \<and> j_status r = JobQueued
       \<and> runner_at s runnerID = Some a \<and> r_status a = RunnerIdle
       \<and> job_at t = (job_at s)(jobID \<mapsto> r\<lparr>j_status := JobAssigned, j_runner_id := Some runnerID,
                                          j_attempts := j_attempts r + 1\<rparr>)
       \<and> runner_at t = (runner_at s)(runnerID \<mapsto> a\<lparr>r_status := RunnerBusy,
            r_current_job_id := Some jobID, r_last_assigned_at := Some (db_now s)\<rparr>))"
proof -
  have frame: "job_at (u\<lparr>db_script := ys\<rparr>) = job_at u" "runner_at (u\<lparr>db_script := ys\<rparr>) = runner_at u"
    for u ys by (simp_all add: job_at_def runner_at_def fun_eq_iff)
  have both: ?thesis if g: "assign_guard jobID runnerID JobQueued s"
    and t: "t = (assign_effect jobID runnerID JobQueued s)\<lparr>db_script := ys\<rparr>" for ys
    using assign_guard_rows [OF assms(2) g] job_at_assign runner_at_assign unfolding t frame by metis
  show ?thesis
  proof (cases "res = Inr ()")
    case True
    with assms(1) obtain ys where "assign_guard jobID runnerID JobQueued s"
      "t = (assign_effect jobID runnerID JobQueued s)\<lparr>db_script := ys\<rparr>" by (auto elim: AssignJob_Inr)
    then show ?thesis by (rule both)
  next
    case False
    consider (nothing) ys where "t = s\<lparr>db_script := ys\<rparr>"
      | (all) ys where "assign_guard jobID runnerID JobQueued s"
          "t = (assign_effect jobID runnerID JobQueued s)\<lparr>db_script := ys\<rparr>"
      using AssignJob_atomic [of jobID runnerID s] assms(1) by auto
    then show ?thesis by cases (use False both in auto)
  qed
qed

theorem assign_all_or_nothing_witness:
  "\<exists>r. job_at (snd (AssignJob ''a'' ''x'' pool)) ''a'' = Some r \<and> j_status r = JobAssigned
     \<and> j_runner_id r = Some ''x'' \<and> j_attempts r = 1"
  using assign_all_or_nothing [OF AssignJob_pool pool_inv] by auto

text \<open>\<open>CreateJob\<close> is idempotent per build. While the database answers, it inserts the job, QUEUED
  and unowned, when no job with its id and no unfinished job for its repository, commit and event
  exists; otherwise it reports ErrDuplicate and changes nothing.\<close>

theorem CreateJob_exact:
  assumes "db_script s = []" and "j_status j = JobQueued"
  shows "(let taken = list_ex (\<lambda>r. j_id r = j_id j \<or> (index_covers (j_status r) \<and> same_build r j)) (jobs s)
     in if taken then CreateJob j s = (Inl ErrDuplicate, s)
        else \<exists>r. CreateJob j s = (Inr (), s\<lparr>jobs := jobs s @ [r]\<rparr>) \<and> scanJob r = j\<lparr>j_runner_id := None,
          j_attempts := 0, j_exit_code := None, j_error := [], j_created_at := db_now s,
          j_started_at := None, j_completed_at := None\<rparr> \<and> j_logs r = [] \<and> j_log_seq r = 0)"
  using assms
  by (cases j) (auto simp: CreateJob_def insert_job_def insert_conflict_def list_ex_iff scanJob_def
      index_covers_def isUniqueViolation_def Let_def)

theorem CreateJob_exact_witness:
  "CreateJob (sample_job ''c'' ''11'') pool = (Inl ErrDuplicate, pool)
   \<and> fst (CreateJob (sample_job ''c'' ''33'') pool) = Inr ()"
  using CreateJob_exact [of pool "sample_job ''c'' ''11''"]
    CreateJob_exact [of pool "sample_job ''c'' ''33''"]
  by (auto simp: sample_job_def pool_eq same_build_def index_covers_def)

text \<open>\<open>CompleteJob\<close> while the database answers: an ASSIGNED or RUNNING job takes the reported result
  with the exit code, the message and the completion time, and the runner that held it is IDLE again
  with no current job; the call is refused without any change when the job is unknown, when the state
  machine has no such transition (a job that is QUEUED or already finished), or when the exit code
  does not fit the 32-bit column or the message is no UTF-8 text.\<close>

theorem CompleteJob_exact:
  assumes "own_inv {} s" and "db_script s = []" and "status = JobSuccess \<or> status = JobFailed"
  shows "case job_at s i of
      None \<Rightarrow> CompleteJob i status code msg s = (Inl ErrNotFound, s)
    | Some r \<Rightarrow>
        if CanTransitionTo (j_status r) status
        then case arg_error code msg of
          Some e \<Rightarrow> CompleteJob i status code msg s = (Inl (ErrPg e), s)
        | None \<Rightarrow> \<exists>t x a. CompleteJob i status code msg s = (Inr (), t)
          \<and> job_at t = (job_at s)(i \<mapsto> r\<lparr>j_status := status, j_completed_at := Some (db_now s),
              j_exit_code := Some code, j_error := msg\<rparr>)
          \<and> j_runner_id r = Some x \<and> runner_at s x = Some a \<and> r_current_job_id a = Some i
          \<and> runner_at t = (runner_at s)(x \<mapsto> a\<lparr>r_status := RunnerIdle, r_current_job_id := None\<rparr>)
          \<and> own_inv {} t
        else \<exists>e. CompleteJob i status code msg s = (Inl (ErrInvalidTransition e), s)"
proof (cases "job_at s i")
  case None
  then show ?thesis using assms(2) by (simp add: job_at_def CompleteJob_def transition_def)
next
  case (Some r)
  have d: "distinct (map j_id (jobs s))" using assms(1) by (simp add: own_inv_def store_inv_def)
  have ch: "lifecycle_change status (complete_extra code msg)"
    using assms(3) by (auto intro: lifecycle_change.intros)
  show ?thesis
  proof (cases "CanTransitionTo (j_status r) status")
    case False
    then show ?thesis using finish_refused [OF assms(2) d Some [unfolded job_at_def] False] Some
      by (simp add: CompleteJob_def)
  next
    case True
    then have "in_hand (j_status r)" "\<not> in_hand status"
      using assms(3) by (cases "j_status r"; auto simp: in_hand_def)+
    from finish_in_hand [OF assms(1,2) Some this(1) ch True this(2)] True Some
      CompleteJob_unwritable [OF assms(2) d Some [unfolded job_at_def] True]
    show ?thesis
      by (cases "arg_error code msg") (simp_all add: CompleteJob_def complete_extra_def, blast)
  qed
qed

theorem CompleteJob_exact_witness:
  "\<exists>t a. CompleteJob ''a'' JobSuccess 0 [] busy_pool = (Inr (), t)
     \<and> map_option j_status (job_at t ''a'') = Some JobSuccess
     \<and> runner_at t ''x'' = Some a \<and> r_status a = RunnerIdle"
  using CompleteJob_exact [OF busy_pool_own busy_pool_a(6), of JobSuccess "''a''" 0 "[]"]
  by (auto simp: arg_error_def fits_int4_def)

text \<open>Log chunks are stored exactly once and in order. While the database answers, deliver to a
  job whose log is empty the chunks 1, 2, 3, ... in order but with any number of repeats of chunks
  already sent (a retry after a lost reply), each of them UTF-8 text: the stored log is the chunks up to the highest number,
  each once.\<close>

theorem log_delivery_exactly_once:
  assumes "db_script s = []" and "store_inv s" and "job_at s i = Some r"
    and "j_log_seq r = 0" and "in_order 0 ns" and "list_all (\<lambda>n. arg_error (int n) (chunk n) = None) ns"
  shows "map_option j_logs (job_at (deliver i (map (\<lambda>n. (int n, chunk n)) ns) s) i) =
    Some (j_logs r @ concat (map chunk [1..<Suc (highest 0 ns)]))"
  using deliver_logs [OF assms(1) _ assms(3) [unfolded job_at_def], of "map (\<lambda>n. (int n, chunk n)) ns"]
    accepted_in_order [OF assms(5,6)] assms(2,4)
  by (simp add: job_at_def store_inv_def del: upt_Suc)

theorem log_delivery_exactly_once_witness:
  "map_option j_logs (job_at (deliver ''a'' (map (\<lambda>n. (int n, replicate n CHR ''z'')) [1, 2, 2, 1, 3]) busy_pool) ''a'')
   = Some ''zzzzzz''"
proof -
  have "in_order 0 [1, 2, 2, 1, 3]" "highest 0 [1, 2, 2, 1, 3] = 3"
    by (simp_all add: highest_def)
  moreover have "list_all (\<lambda>n. arg_error (int n) (replicate n CHR ''z'') = None) [1, 2, 2, 1, 3]" by code_simp
  ultimately show ?thesis
    using log_delivery_exactly_once [OF busy_pool_a(6) busy_pool_inv busy_pool_at(1), of "[1, 2, 2, 1, 3]"
        "\<lambda>n. replicate n CHR ''z''"]
    by (simp add: upt_rec numeral_eq_Suc del: upt_Suc)
qed

text \<open>A requeued job loses the first log chunks of its next attempt. \<open>RequeueJob\<close> keeps the log
  sequence of the failed attempt; the next agent numbers its chunks from 1 again, and \<open>AppendLogs\<close>
  answers success for every one up to the old number while storing nothing.\<close>

theorem requeued_attempt_log_chunks_dropped:
  assumes "own_inv {} s" and "db_script s = []" and "job_at s i = Some r" and "in_hand (j_status r)"
    and "n \<le> j_log_seq r" and "fits_int4 n" and "pg_text chunk"
  shows "\<exists>t t'. RequeueJob i s = (Inr (), t) \<and> AppendLogs i n chunk t = (Inr (), t')
    \<and> map_option j_logs (job_at t' i) = Some (j_logs r)"
proof -
  have tr: "CanTransitionTo (j_status r) JobQueued" and out: "\<not> in_hand JobQueued"
    using assms(4) by (auto simp: in_hand_def)
  obtain t where t: "RequeueJob i s = (Inr (), t)" "own_inv {} t" "db_script t = []"
    "job_at t i = Some (requeue_extra (db_now s) (r\<lparr>j_status := JobQueued\<rparr>))"
    using finish_in_hand [OF assms(1-4) lifecycle_change.to_queued tr out]
    unfolding RequeueJob_def by auto
  have d: "distinct (map j_id (jobs t))" using t(2) by (simp add: own_inv_def store_inv_def)
  show ?thesis
    using t(1,4) assms(5-7) AppendLogs_healthy [OF t(3) d, of i n chunk]
    by (auto simp: arg_error_def job_at_def row_at_sql_update requeue_extra_def dest: row_at_Some)
qed

theorem requeued_attempt_log_chunks_dropped_witness:
  "\<exists>t t'. RequeueJob ''a'' (snd (AppendLogs ''a'' 1 ''old'' busy_pool)) = (Inr (), t)
    \<and> AppendLogs ''a'' 1 ''new'' t = (Inr (), t') \<and> map_option j_logs (job_at t' ''a'') = Some ''old''"
proof -
  let ?s = "snd (AppendLogs ''a'' 1 ''old'' busy_pool)"
  have s: "?s = busy_pool\<lparr>jobs := [hd (jobs busy_pool)\<lparr>j_logs := ''old'', j_log_seq := 1\<rparr>, jobs busy_pool ! 1]\<rparr>"
    using AppendLogs_healthy [of busy_pool "''a''" 1 "''old''"]
    by (simp add: busy_pool_eq arg_error_def fits_int4_def)
  have own: "own_inv {} ?s" "db_script ?s = []"
    using undisturbed_call_own [OF call_append busy_pool_own] by simp_all
  have row: "job_at ?s ''a'' = Some (hd (jobs busy_pool)\<lparr>j_logs := ''old'', j_log_seq := 1\<rparr>)"
    unfolding s by (simp add: job_at_def busy_pool_eq)
  show ?thesis
    using requeued_attempt_log_chunks_dropped [OF own row, of 1 "''new''"] by (simp add: in_hand_def fits_int4_def)
qed

section \<open>Who holds which job\<close>



text \<open>The release of the runner is a statement of its own. When it fails, \<open>CompleteJob\<close> reports
  the error but the job is already finished; the runner stays BUSY with that finished job, a retry of
  the call is refused, and so is a cancellation: no store method but the reaper frees the runner.\<close>

theorem lost_release_strands_runner:
  assumes "own_inv {} s" and "job_at s i = Some r" and "j_status r = JobRunning"
    and "j_runner_id r = Some x" and "db_script s = [Okay, Okay, Fails msg]" and "arg_error code err = None"
  shows "\<exists>t a e. CompleteJob i JobSuccess code err s = (Inl (ErrPg e), t) \<and> db_script t = []
    \<and> map_option j_status (job_at t i) = Some JobSuccess
    \<and> runner_at t x = Some a \<and> r_status a = RunnerBusy \<and> r_current_job_id a = Some i
    \<and> snd (CompleteJob i JobSuccess code err t) = t \<and> fst (CompleteJob i JobSuccess code err t) \<noteq> Inr ()
    \<and> snd (CancelJob i t) = t \<and> snd (RequeueJob i t) = t"
proof -
  let ?s = "s\<lparr>db_script := []\<rparr>"
  let ?t = "snd (change_status i JobRunning JobSuccess (complete_extra code err) ?s)"
  have si: "store_inv s" and h: "held {} s" using assms(1) by (auto simp: own_inv_def)
  have d: "distinct (map j_id (jobs s))" using si by (simp add: store_inv_def)
  have row: "row_at j_id i (jobs s) = Some r" using assms(2) by (simp add: job_at_def)
  have "in_hand (j_status r)" using assms(3) by (simp add: in_hand_def)
  with heldE [OF h assms(2)] assms(4) obtain a where a: "runner_at s x = Some a" "r_current_job_id a = Some i"
    by auto
  then have busy: "r_status a = RunnerBusy" using runner_at_row [OF si a(1)] by (simp add: runner_row_ok_def)
  have at_s: "job_at ?s i = Some r" "j_status r = JobRunning"
    using assms(2,3) by (simp_all add: job_at_def)
  have jt: "job_at ?t i = Some (complete_extra code err (db_now s) (r\<lparr>j_status := JobSuccess\<rparr>))"
    using job_at_change [OF at_s(1) lifecycle_change.to_success, of code err] at_s(2) by simp
  have rt: "runner_at ?t x = Some a" using a(1) by (simp add: runner_at_def)
  have sc: "db_script ?t = []" by simp
  have ids: "distinct (map j_id (jobs ?t))"
    using d by (simp add: change_status_def update_jobs_def sql_update_keys complete_extra_def)
  have first: "CompleteJob i JobSuccess code err s = (Inl (ErrPg (OtherError msg)), ?t)"
    using row d assms(3-6)
    by (simp add: CompleteJob_def transition_def GetJob_def db_exec_def select_def transition_write_def
        change_status_def update_jobs_def rows_matching_key releaseRunner_def)
  note stuck = finish_refused [OF sc ids jt [unfolded job_at_def]]
  show ?thesis
    using first jt rt a(2) busy stuck sc
    by (intro exI [of _ ?t] exI [of _ a] exI [of _ "OtherError msg"])
      (simp add: CompleteJob_def CancelJob_def RequeueJob_def complete_extra_def)
qed

theorem lost_release_strands_runner_witness:
  "\<exists>t a. snd (CompleteJob ''a'' JobSuccess 0 [] (busy_pool\<lparr>db_script := [Okay, Okay, Fails ''reset'']\<rparr>)) = t
    \<and> map_option j_status (job_at t ''a'') = Some JobSuccess
    \<and> runner_at t ''x'' = Some a \<and> r_status a = RunnerBusy"
proof -
  let ?s = "busy_pool\<lparr>db_script := [Okay, Okay, Fails ''reset'']\<rparr>"
  have at: "job_at ?s = job_at busy_pool" "runner_at ?s = runner_at busy_pool"
    by (simp_all add: job_at_def runner_at_def fun_eq_iff)
  have "store_inv ?s" using busy_pool_inv by (simp add: store_inv_def runner_refs_ok_def)
  then have "own_inv {} ?s" using busy_pool_own by (simp only: own_inv_def busy_ok_def held_def at) blast
  from lost_release_strands_runner [OF this, of "''a''" "hd (jobs busy_pool)" "''x''" "''reset''" 0 "[]"]
  show ?thesis by (auto simp: at)
qed

text \<open>The release does not check which job the runner holds. Job a runs on x; x falls silent and
  is reaped, comes back with a heartbeat and is given job b; only then is the orphan a requeued. The
  requeue frees x: it is IDLE, with b still ASSIGNED to it, so it can be given a second job.\<close>

theorem late_requeue_frees_busy_runner:
  "\<exists>s1 s2 s3 s4. ReapOfflineRunners (30 * second) (busy_pool\<lparr>db_now := 200 * second\<rparr>) = (Inr [(''x'', ''a'')], s1)
    \<and> Heartbeat ''x'' s1 = (Inr (), s2) \<and> AssignJob ''b'' ''x'' s2 = (Inr (), s3)
    \<and> RequeueJob ''a'' s3 = (Inr (), s4)
    \<and> map_option j_status (job_at s4 ''b'') = Some JobAssigned
    \<and> map_option j_runner_id (job_at s4 ''b'') = Some (Some ''x'')
    \<and> map_option r_status (runner_at s4 ''x'') = Some RunnerIdle
    \<and> map_option r_current_job_id (runner_at s4 ''x'') = Some None"
  by (simp add: busy_pool_eq ReapOfflineRunners_def reap_stale_def stale_def interval_of_def Let_def
      Heartbeat_def refresh_heartbeat_def update_runners_def AssignJob_def assign_tx_def select_def
      mark_assigned_def mark_busy_def update_jobs_def tx_commit_def RequeueJob_def transition_def
      transition_write_def change_status_def requeue_extra_def releaseRunner_def mark_released_def
      scanJob_def tx_rollback_def job_at_def runner_at_def)

end
