(* ===== verification/Queue.thy ===== *)
theory Queue
  imports Prelude
begin

text \<open>
  The package \<^verbatim>\<open>internal/queue\<close>: the \<^verbatim>\<open>Queue\<close> interface and its implementation over two Redis
  lists and one list per runner. Redis and its client are not part of the repository: the client is
  a parameter, a record of the calls the code makes, and the locale \<open>redis_server\<close> names what the
  code relies on (the documented behaviour of the list commands, failures included). From it the
  sublocale \<open>job_queue\<close> follows: the contract of the interface, which is all the scheduler and the
  API use. \<open>mem_redis\<close> is a server that satisfies the laws, with a script of failures.
\<close>

section \<open>The interface\<close>

datatype queue_error = ErrEmpty | ErrQueue string

record 'q queue_ops =
  q_Enqueue :: "string \<Rightarrow> 'q \<Rightarrow> queue_error option \<times> 'q"
  q_Dequeue :: "duration \<Rightarrow> 'q \<Rightarrow> (queue_error + string) \<times> 'q"
  q_Ack :: "string \<Rightarrow> 'q \<Rightarrow> queue_error option \<times> 'q"
  q_Requeue :: "string \<Rightarrow> 'q \<Rightarrow> queue_error option \<times> 'q"
  q_Recover :: "'q \<Rightarrow> (queue_error + int) \<times> 'q"
  q_Dispatch :: "string \<Rightarrow> string \<Rightarrow> 'q \<Rightarrow> queue_error option \<times> 'q"
  q_Receive :: "string \<Rightarrow> duration \<Rightarrow> 'q \<Rightarrow> (queue_error + string) \<times> 'q"

section \<open>The Redis client\<close>

datatype redis_error = RedisNil | RedisErr string

datatype list_end = LeftEnd | RightEnd

record 'r redis =
  rd_LPush :: "string \<Rightarrow> string \<Rightarrow> 'r \<Rightarrow> string option \<times> 'r"
  rd_BLMove :: "string \<Rightarrow> string \<Rightarrow> list_end \<Rightarrow> list_end \<Rightarrow> duration \<Rightarrow> 'r \<Rightarrow> (redis_error + string) \<times> 'r"
  rd_LRem :: "string \<Rightarrow> int \<Rightarrow> string \<Rightarrow> 'r \<Rightarrow> string option \<times> 'r"
  rd_LRange :: "string \<Rightarrow> int \<Rightarrow> int \<Rightarrow> 'r \<Rightarrow> (string + string list) \<times> 'r"
  rd_BRPop :: "duration \<Rightarrow> string \<Rightarrow> 'r \<Rightarrow> (redis_error + string \<times> string) \<times> 'r"
  rd_Expire :: "string \<Rightarrow> duration \<Rightarrow> 'r \<Rightarrow> string option \<times> 'r"

definition pendingKey :: string where
  "pendingKey = ''forgerun:jobs:pending''"

definition inflightKey :: string where
  "inflightKey = ''forgerun:jobs:inflight''"

definition runnerKey :: "string \<Rightarrow> string" where
  "runnerKey runnerID = ''forgerun:runner:'' @ runnerID @ '':mailbox''"

section \<open>RedisQueue\<close>

fun queue_result :: "string option \<times> 'r \<Rightarrow> queue_error option \<times> 'r" where
  "queue_result (None, r) = (None, r)"
| "queue_result (Some e, r) = (Some (ErrQueue e), r)"

definition Enqueue :: "'r redis \<Rightarrow> string \<Rightarrow> 'r \<Rightarrow> queue_error option \<times> 'r" where
  "Enqueue R jobID r = queue_result (rd_LPush R pendingKey jobID r)"

definition Dequeue :: "'r redis \<Rightarrow> duration \<Rightarrow> 'r \<Rightarrow> (queue_error + string) \<times> 'r" where
  "Dequeue R timeout r =
     (case rd_BLMove R pendingKey inflightKey RightEnd LeftEnd timeout r of
        (Inl RedisNil, r') \<Rightarrow> (Inl ErrEmpty, r')
      | (Inl (RedisErr e), r') \<Rightarrow> (Inl (ErrQueue e), r')
      | (Inr i, r') \<Rightarrow> (Inr i, r'))"

definition Ack :: "'r redis \<Rightarrow> string \<Rightarrow> 'r \<Rightarrow> queue_error option \<times> 'r" where
  "Ack R jobID r = queue_result (rd_LRem R inflightKey 1 jobID r)"

definition Requeue :: "'r redis \<Rightarrow> string \<Rightarrow> 'r \<Rightarrow> queue_error option \<times> 'r" where
  "Requeue R jobID r =
     (case Ack R jobID r of
        (Some e, r') \<Rightarrow> (Some e, r')
      | (None, r') \<Rightarrow> Enqueue R jobID r')"

fun requeue_all :: "'r redis \<Rightarrow> string list \<Rightarrow> 'r \<Rightarrow> queue_error option \<times> 'r" where
  "requeue_all R [] r = (None, r)"
| "requeue_all R (i # ids) r =
     (case Requeue R i r of
        (Some e, r') \<Rightarrow> (Some e, r')
      | (None, r') \<Rightarrow> requeue_all R ids r')"

definition Recover :: "'r redis \<Rightarrow> 'r \<Rightarrow> (queue_error + int) \<times> 'r" where
  "Recover R r =
     (case rd_LRange R inflightKey 0 (-1) r of
        (Inl e, r') \<Rightarrow> (Inl (ErrQueue e), r')
      | (Inr ids, r') \<Rightarrow>
          (case requeue_all R ids r' of
             (Some e, r'') \<Rightarrow> (Inl e, r'')
           | (None, r'') \<Rightarrow> (Inr (int (length ids)), r'')))"

definition Dispatch :: "'r redis \<Rightarrow> string \<Rightarrow> string \<Rightarrow> 'r \<Rightarrow> queue_error option \<times> 'r" where
  "Dispatch R runnerID jobID r =
     (let key = runnerKey runnerID in
      case rd_LPush R key jobID r of
        (Some e, r') \<Rightarrow> (Some (ErrQueue e), r')
      | (None, r') \<Rightarrow> queue_result (rd_Expire R key (3600 * second) r'))"

definition Receive :: "'r redis \<Rightarrow> string \<Rightarrow> duration \<Rightarrow> 'r \<Rightarrow> (queue_error + string) \<times> 'r" where
  "Receive R runnerID timeout r =
     (case rd_BRPop R timeout (runnerKey runnerID) r of
        (Inl RedisNil, r') \<Rightarrow> (Inl ErrEmpty, r')
      | (Inl (RedisErr e), r') \<Rightarrow> (Inl (ErrQueue e), r')
      | (Inr res, r') \<Rightarrow> (Inr (snd res), r'))"

definition redis_queue :: "'r redis \<Rightarrow> 'r queue_ops" where
  "redis_queue R = \<lparr>q_Enqueue = Enqueue R, q_Dequeue = Dequeue R, q_Ack = Ack R,
     q_Requeue = Requeue R, q_Recover = Recover R, q_Dispatch = Dispatch R, q_Receive = Receive R\<rparr>"

lemma multiset_add_back: "M \<subseteq># add_mset x (M - {#x#})"
  using subset_eq_diff_conv [of M "{#x#}" "M - {#x#}"] by simp

lemma runnerKey_inj [simp]: "runnerKey x = runnerKey y \<longleftrightarrow> x = y"
  by (simp add: runnerKey_def)

lemma keys_differ [simp]:
  "pendingKey \<noteq> inflightKey" "inflightKey \<noteq> pendingKey"
  "runnerKey x \<noteq> pendingKey" "runnerKey x \<noteq> inflightKey"
  "pendingKey \<noteq> runnerKey x" "inflightKey \<noteq> runnerKey x"
  by (simp_all add: pendingKey_def inflightKey_def runnerKey_def)

section \<open>The contract of the interface\<close>

text \<open>
  \<open>pending\<close> lists the waiting ids, the next one to leave first; \<open>inflight\<close> lists the ids handed out and
  not yet acknowledged; \<open>mailbox q x\<close> is the work addressed to runner \<open>x\<close>, oldest first; \<open>up\<close> says that
  the service answers. An error leaves it open whether the call took effect.
\<close>

type_synonym 'q mailboxes = "'q \<Rightarrow> string \<Rightarrow> string list"

locale job_queue =
  fixes Q :: "'q queue_ops" and pending inflight :: "'q \<Rightarrow> string list"
    and mailbox :: "'q mailboxes" and up :: "'q \<Rightarrow> bool"
  assumes enqueue_ok: "q_Enqueue Q j q = (None, q') \<Longrightarrow>
      pending q' = pending q @ [j] \<and> inflight q' = inflight q \<and> mailbox q' = mailbox q"
    and enqueue_err: "q_Enqueue Q j q = (Some e, q') \<Longrightarrow>
      pending q' \<in> {pending q, pending q @ [j]} \<and> inflight q' = inflight q \<and> mailbox q' = mailbox q"
    and dequeue_ok: "q_Dequeue Q d q = (Inr j, q') \<Longrightarrow>
      pending q = j # pending q' \<and> inflight q' = j # inflight q \<and> mailbox q' = mailbox q"
    and dequeue_empty: "q_Dequeue Q d q = (Inl ErrEmpty, q') \<Longrightarrow>
      pending q = [] \<and> pending q' = [] \<and> inflight q' = inflight q \<and> mailbox q' = mailbox q"
    and dequeue_err: "q_Dequeue Q d q = (Inl (ErrQueue msg), q') \<Longrightarrow>
      mset (pending q') + mset (inflight q') = mset (pending q) + mset (inflight q)
      \<and> mailbox q' = mailbox q"
    and ack_ok: "q_Ack Q j q = (None, q') \<Longrightarrow>
      pending q' = pending q \<and> inflight q' = remove1 j (inflight q) \<and> mailbox q' = mailbox q"
    and ack_err: "q_Ack Q j q = (Some e, q') \<Longrightarrow>
      pending q' = pending q \<and> inflight q' \<in> {inflight q, remove1 j (inflight q)}
      \<and> mailbox q' = mailbox q"
    and requeue_ok: "q_Requeue Q j q = (None, q') \<Longrightarrow>
      pending q' = pending q @ [j] \<and> inflight q' = remove1 j (inflight q) \<and> mailbox q' = mailbox q"
    and requeue_err: "q_Requeue Q j q = (Some e, q') \<Longrightarrow>
      pending q' \<in> {pending q, pending q @ [j]} \<and> inflight q' \<in> {inflight q, remove1 j (inflight q)}
      \<and> mailbox q' = mailbox q"
    and recover_ok: "q_Recover Q q = (Inr n, q') \<Longrightarrow>
      n = int (length (inflight q)) \<and> pending q' = pending q @ inflight q \<and> inflight q' = []
      \<and> mailbox q' = mailbox q"
    and recover_err: "q_Recover Q q = (Inl e, q') \<Longrightarrow> mailbox q' = mailbox q \<and>
      (\<exists>i. mset (pending q) + mset (inflight q) - {#i#} \<subseteq># mset (pending q') + mset (inflight q'))"
    and dispatch_ok: "q_Dispatch Q x j q = (None, q') \<Longrightarrow>
      pending q' = pending q \<and> inflight q' = inflight q
      \<and> mailbox q' = (mailbox q)(x := mailbox q x @ [j])"
    and dispatch_err: "q_Dispatch Q x j q = (Some e, q') \<Longrightarrow>
      pending q' = pending q \<and> inflight q' = inflight q
      \<and> mailbox q' \<in> {mailbox q, (mailbox q)(x := mailbox q x @ [j])}"
    and receive_ok: "q_Receive Q x d q = (Inr j, q') \<Longrightarrow>
      pending q' = pending q \<and> inflight q' = inflight q
      \<and> mailbox q x = j # mailbox q' x \<and> (\<forall>y. y \<noteq> x \<longrightarrow> mailbox q' y = mailbox q y)"
    and receive_none: "q_Receive Q x d q = (Inl e, q') \<Longrightarrow>
      pending q' = pending q \<and> inflight q' = inflight q \<and> (\<forall>y. y \<noteq> x \<longrightarrow> mailbox q' y = mailbox q y)
      \<and> mailbox q' x \<in> {mailbox q x, tl (mailbox q x)}"
    and up_enqueue: "up q \<Longrightarrow> \<exists>q'. q_Enqueue Q j q = (None, q') \<and> up q'"
    and up_dequeue: "up q \<Longrightarrow> pending q \<noteq> [] \<Longrightarrow> \<exists>j q'. q_Dequeue Q d q = (Inr j, q') \<and> up q'"
    and up_dequeue_empty: "up q \<Longrightarrow> pending q = [] \<Longrightarrow>
      \<exists>q'. q_Dequeue Q d q = (Inl ErrEmpty, q') \<and> up q'"
    and up_ack: "up q \<Longrightarrow> \<exists>q'. q_Ack Q j q = (None, q') \<and> up q'"
    and up_requeue: "up q \<Longrightarrow> \<exists>q'. q_Requeue Q j q = (None, q') \<and> up q'"
    and up_recover: "up q \<Longrightarrow> \<exists>n q'. q_Recover Q q = (Inr n, q') \<and> up q'"
    and up_dispatch: "up q \<Longrightarrow> \<exists>q'. q_Dispatch Q x j q = (None, q') \<and> up q'"
    and up_receive: "up q \<Longrightarrow> mailbox q x \<noteq> [] \<Longrightarrow> \<exists>j q'. q_Receive Q x d q = (Inr j, q') \<and> up q'"
    and up_receive_empty: "up q \<Longrightarrow> mailbox q x = [] \<Longrightarrow>
      \<exists>q'. q_Receive Q x d q = (Inl ErrEmpty, q') \<and> mailbox q' x = [] \<and> up q'"
begin

definition ids :: "'q \<Rightarrow> string multiset" where
  "ids q = mset (pending q) + mset (inflight q)"

lemma enqueue_ids: "q_Enqueue Q j q = (x, q') \<Longrightarrow> ids q \<subseteq># ids q'"
  using enqueue_ok [of j q q'] enqueue_err [of j q _ q']
  by (cases x) (auto simp: ids_def subseteq_mset_def)

lemma dequeue_ids: "q_Dequeue Q d q = (x, q') \<Longrightarrow> ids q' = ids q"
  using dequeue_ok [of d q _ q'] dequeue_empty [of d q q'] dequeue_err [of d q _ q']
  by (cases x; cases "projl x") (auto simp: ids_def)

lemma ack_ids: "q_Ack Q j q = (x, q') \<Longrightarrow> ids q - {#j#} \<subseteq># ids q'"
  using ack_ok [of j q q'] ack_err [of j q _ q']
  by (cases x) (auto simp: ids_def subset_eq_diff_conv multiset_add_back)

lemma requeue_ids:
  assumes "q_Requeue Q j q = (None, q')" and "j \<in> set (inflight q)"
  shows "ids q' = ids q"
  using requeue_ok [OF assms(1)] assms(2) by (simp add: ids_def)

lemma recover_ids: "q_Recover Q q = (Inr n, q') \<Longrightarrow> ids q' = ids q"
  using recover_ok [of q n q'] by (simp add: ids_def)

end

section \<open>What the code relies on\<close>

text \<open>How the three views of the contract are laid out in Redis: the head of a list is its left end.\<close>

definition wait_list :: "('r \<Rightarrow> string \<Rightarrow> string list) \<Rightarrow> 'r \<Rightarrow> string list" where
  "wait_list rlists r = rev (rlists r pendingKey)"

definition hand_list :: "('r \<Rightarrow> string \<Rightarrow> string list) \<Rightarrow> 'r \<Rightarrow> string list" where
  "hand_list rlists r = rlists r inflightKey"

definition box :: "('r \<Rightarrow> string \<Rightarrow> string list) \<Rightarrow> 'r \<Rightarrow> string \<Rightarrow> string list" where
  "box rlists r x = rev (rlists r (runnerKey x))"

definition all_ids :: "('r \<Rightarrow> string \<Rightarrow> string list) \<Rightarrow> 'r \<Rightarrow> string multiset" where
  "all_ids rlists r = mset (wait_list rlists r) + mset (hand_list rlists r)"

lemmas views = wait_list_def hand_list_def box_def fun_eq_iff

locale redis_server =
  fixes R :: "'r redis" and rlists :: "'r \<Rightarrow> string \<Rightarrow> string list" and up :: "'r \<Rightarrow> bool"
    and ttl :: "'r \<Rightarrow> string \<Rightarrow> duration option"
  assumes lpush_ok: "rd_LPush R k v r = (None, r') \<Longrightarrow> rlists r' = (rlists r)(k := v # rlists r k)"
    and lpush_err: "rd_LPush R k v r = (Some e, r') \<Longrightarrow>
      rlists r' = rlists r \<or> rlists r' = (rlists r)(k := v # rlists r k)"
    and blmove_ok: "k \<noteq> l \<Longrightarrow> rd_BLMove R k l RightEnd LeftEnd d r = (Inr v, r') \<Longrightarrow>
      \<exists>xs. rlists r k = xs @ [v] \<and> rlists r' = (rlists r)(k := xs, l := v # rlists r l)"
    and blmove_nil: "rd_BLMove R k l RightEnd LeftEnd d r = (Inl RedisNil, r') \<Longrightarrow>
      rlists r k = [] \<and> rlists r' = rlists r"
    and blmove_err: "k \<noteq> l \<Longrightarrow> rd_BLMove R k l RightEnd LeftEnd d r = (Inl (RedisErr e), r') \<Longrightarrow>
      rlists r' = rlists r \<or>
      (\<exists>xs v. rlists r k = xs @ [v] \<and> rlists r' = (rlists r)(k := xs, l := v # rlists r l))"
    and lrem_ok: "rd_LRem R k 1 v r = (None, r') \<Longrightarrow> rlists r' = (rlists r)(k := remove1 v (rlists r k))"
    and lrem_err: "rd_LRem R k 1 v r = (Some e, r') \<Longrightarrow>
      rlists r' = rlists r \<or> rlists r' = (rlists r)(k := remove1 v (rlists r k))"
    and lrange_ok: "rd_LRange R k 0 (-1) r = (Inr xs, r') \<Longrightarrow> xs = rlists r k \<and> rlists r' = rlists r"
    and lrange_err: "rd_LRange R k 0 (-1) r = (Inl e, r') \<Longrightarrow> rlists r' = rlists r"
    and brpop_ok: "rd_BRPop R d k r = (Inr kv, r') \<Longrightarrow>
      \<exists>xs. rlists r k = xs @ [snd kv] \<and> rlists r' = (rlists r)(k := xs)"
    and brpop_nil: "rd_BRPop R d k r = (Inl RedisNil, r') \<Longrightarrow> rlists r k = [] \<and> rlists r' = rlists r"
    and brpop_err: "rd_BRPop R d k r = (Inl (RedisErr e), r') \<Longrightarrow>
      rlists r' = rlists r \<or> rlists r' = (rlists r)(k := butlast (rlists r k))"
    and expire_lists: "rlists (snd (rd_Expire R k d r)) = rlists r"
    and expire_ok: "rd_Expire R k d r = (None, r') \<Longrightarrow> rlists r k \<noteq> [] \<Longrightarrow> ttl r' k = Some d"
    and up_lpush: "up r \<Longrightarrow> \<exists>r'. rd_LPush R k v r = (None, r') \<and> up r'"
    and up_blmove: "up r \<Longrightarrow> k \<noteq> l \<Longrightarrow> rlists r k \<noteq> [] \<Longrightarrow>
      \<exists>v r'. rd_BLMove R k l RightEnd LeftEnd d r = (Inr v, r') \<and> up r'"
    and up_blmove_nil: "up r \<Longrightarrow> rlists r k = [] \<Longrightarrow>
      \<exists>r'. rd_BLMove R k l RightEnd LeftEnd d r = (Inl RedisNil, r') \<and> up r'"
    and up_lrem: "up r \<Longrightarrow> \<exists>r'. rd_LRem R k 1 v r = (None, r') \<and> up r'"
    and up_lrange: "up r \<Longrightarrow> \<exists>xs r'. rd_LRange R k 0 (-1) r = (Inr xs, r') \<and> up r'"
    and up_brpop: "up r \<Longrightarrow> rlists r k \<noteq> [] \<Longrightarrow> \<exists>kv r'. rd_BRPop R d k r = (Inr kv, r') \<and> up r'"
    and up_brpop_nil: "up r \<Longrightarrow> rlists r k = [] \<Longrightarrow>
      \<exists>r'. rd_BRPop R d k r = (Inl RedisNil, r') \<and> up r'"
    and up_expire: "up r \<Longrightarrow> \<exists>r'. rd_Expire R k d r = (None, r') \<and> up r'"

begin

lemma Enqueue_ok: "Enqueue R j r = (None, r') \<Longrightarrow>
    wait_list rlists r' = wait_list rlists r @ [j] \<and> hand_list rlists r' = hand_list rlists r \<and> box rlists r' = box rlists r"
  using lpush_ok [of pendingKey j r r']
  by (cases "rd_LPush R pendingKey j r"; cases "fst (rd_LPush R pendingKey j r)")
    (auto simp: Enqueue_def views)

lemma Enqueue_err: "Enqueue R j r = (Some e, r') \<Longrightarrow>
    wait_list rlists r' \<in> {wait_list rlists r, wait_list rlists r @ [j]} \<and> hand_list rlists r' = hand_list rlists r \<and> box rlists r' = box rlists r"
  using lpush_err [of pendingKey j r _ r']
  by (cases "rd_LPush R pendingKey j r"; cases "fst (rd_LPush R pendingKey j r)")
    (auto simp: Enqueue_def views)

lemma Ack_ok: "Ack R j r = (None, r') \<Longrightarrow>
    wait_list rlists r' = wait_list rlists r \<and> hand_list rlists r' = remove1 j (hand_list rlists r) \<and> box rlists r' = box rlists r"
  using lrem_ok [of inflightKey j r r']
  by (cases "rd_LRem R inflightKey 1 j r"; cases "fst (rd_LRem R inflightKey 1 j r)")
    (auto simp: Ack_def views)

lemma Ack_err: "Ack R j r = (Some e, r') \<Longrightarrow>
    wait_list rlists r' = wait_list rlists r \<and> hand_list rlists r' \<in> {hand_list rlists r, remove1 j (hand_list rlists r)}
    \<and> box rlists r' = box rlists r"
  using lrem_err [of inflightKey j r _ r']
  by (cases "rd_LRem R inflightKey 1 j r"; cases "fst (rd_LRem R inflightKey 1 j r)")
    (auto simp: Ack_def views)

lemma Requeue_ok: "Requeue R j r = (None, r') \<Longrightarrow>
    wait_list rlists r' = wait_list rlists r @ [j] \<and> hand_list rlists r' = remove1 j (hand_list rlists r) \<and> box rlists r' = box rlists r"
  using Ack_ok Enqueue_ok by (fastforce simp: Requeue_def split: prod.splits option.splits)

lemma Requeue_err: "Requeue R j r = (Some e, r') \<Longrightarrow>
    wait_list rlists r' \<in> {wait_list rlists r, wait_list rlists r @ [j]}
    \<and> hand_list rlists r' \<in> {hand_list rlists r, remove1 j (hand_list rlists r)} \<and> box rlists r' = box rlists r"
  using Ack_ok [of j r] Ack_err [of j r] Enqueue_err [of j]
  by (fastforce simp: Requeue_def split: prod.splits option.splits)

lemma requeue_all_ok:
  "requeue_all R ids r = (None, r') \<Longrightarrow>
   wait_list rlists r' = wait_list rlists r @ ids \<and> hand_list rlists r' = fold remove1 ids (hand_list rlists r) \<and> box rlists r' = box rlists r"
proof (induction ids arbitrary: r)
  case (Cons i ids)
  then obtain r1 where r1: "Requeue R i r = (None, r1)" "requeue_all R ids r1 = (None, r')"
    by (auto split: prod.splits option.splits)
  with Cons.IH [OF r1(2)] Requeue_ok [OF r1(1)] show ?case by simp
qed simp

lemma fold_remove1_self: "fold remove1 xs xs = []"
  by (induction xs) simp_all

lemma Recover_ok: "Recover R r = (Inr n, r') \<Longrightarrow>
    n = int (length (hand_list rlists r)) \<and> wait_list rlists r' = wait_list rlists r @ hand_list rlists r \<and> hand_list rlists r' = []
    \<and> box rlists r' = box rlists r"
  using requeue_all_ok lrange_ok [of inflightKey r]
  by (fastforce simp: Recover_def views fold_remove1_self split: prod.splits sum.splits option.splits)

lemma requeue_all_err:
  "requeue_all R ids r = (Some e, r') \<Longrightarrow> mset ids \<subseteq># mset (hand_list rlists r) \<Longrightarrow>
   box rlists r' = box rlists r \<and> (\<exists>i. all_ids rlists r - {#i#} \<subseteq># all_ids rlists r')"
proof (induction ids arbitrary: r)
  case (Cons i ids)
  have i: "i \<in> set (hand_list rlists r)" using Cons.prems(2) by (simp add: insert_subset_eq_iff)
  obtain x r1 where r1: "Requeue R i r = (x, r1)" by force
  show ?case
  proof (cases x)
    case None
    with r1 Requeue_ok [of i r r1] i have same: "all_ids rlists r1 = all_ids rlists r" "box rlists r1 = box rlists r"
      and sub: "mset ids \<subseteq># mset (hand_list rlists r1)"
      using Cons.prems(2) by (auto simp: all_ids_def insert_subset_eq_iff)
    have "requeue_all R ids r1 = (Some e, r')" using Cons.prems(1) r1 None by simp
    from Cons.IH [OF this sub] same show ?thesis by simp
  next
    case (Some f)
    with r1 Requeue_err [of i r f r1] i have "all_ids rlists r - {#i#} \<subseteq># all_ids rlists r1 \<and> box rlists r1 = box rlists r"
      by (auto simp: all_ids_def subset_eq_diff_conv multiset_add_back)
    with Cons.prems(1) r1 Some show ?thesis by auto
  qed
qed simp

lemma Recover_err:
  assumes "Recover R r = (Inl e, r')"
  shows "box rlists r' = box rlists r \<and> (\<exists>i. all_ids rlists r - {#i#} \<subseteq># all_ids rlists r')"
proof -
  obtain x r1 where range: "rd_LRange R inflightKey 0 (-1) r = (x, r1)" by force
  have frame: "rlists r1 = rlists r" using range lrange_ok lrange_err by (cases x) auto
  then have same: "all_ids rlists r1 = all_ids rlists r" "box rlists r1 = box rlists r" "hand_list rlists r1 = hand_list rlists r"
    by (auto simp: all_ids_def views)
  show ?thesis
  proof (cases x)
    case (Inl f)
    with range assms same show ?thesis by (auto simp: Recover_def)
  next
    case (Inr xs)
    with range lrange_ok have "xs = hand_list rlists r" by (auto simp: views)
    with Inr range assms requeue_all_err [of xs r1 e r'] same show ?thesis
      by (auto simp: Recover_def split: prod.splits option.splits)
  qed
qed

lemma Dequeue_ok:
  assumes "Dequeue R d r = (Inr j, r')"
  shows "wait_list rlists r = j # wait_list rlists r' \<and> hand_list rlists r' = j # hand_list rlists r \<and> box rlists r' = box rlists r"
proof -
  have "rd_BLMove R pendingKey inflightKey RightEnd LeftEnd d r = (Inr j, r')"
    using assms by (auto simp: Dequeue_def split: prod.splits sum.splits redis_error.splits)
  from blmove_ok [OF keys_differ(1) this] show ?thesis by (auto simp: views)
qed

lemma Dequeue_empty:
  assumes "Dequeue R d r = (Inl ErrEmpty, r')"
  shows "wait_list rlists r = [] \<and> wait_list rlists r' = [] \<and> hand_list rlists r' = hand_list rlists r \<and> box rlists r' = box rlists r"
proof -
  have "rd_BLMove R pendingKey inflightKey RightEnd LeftEnd d r = (Inl RedisNil, r')"
    using assms by (auto simp: Dequeue_def split: prod.splits sum.splits redis_error.splits)
  from blmove_nil [OF this] show ?thesis by (auto simp: views)
qed

lemma Dequeue_err:
  assumes "Dequeue R d r = (Inl (ErrQueue e), r')"
  shows "mset (wait_list rlists r') + mset (hand_list rlists r') = mset (wait_list rlists r) + mset (hand_list rlists r)
    \<and> box rlists r' = box rlists r"
proof -
  have "rd_BLMove R pendingKey inflightKey RightEnd LeftEnd d r = (Inl (RedisErr e), r')"
    using assms by (auto simp: Dequeue_def split: prod.splits sum.splits redis_error.splits)
  from blmove_err [OF keys_differ(1) this] show ?thesis by (auto simp: views)
qed

lemma expire_frame: "rd_Expire R k d r = (x, r') \<Longrightarrow> rlists r' = rlists r"
  using expire_lists [of k d r] by simp

lemma Dispatch_ok:
  assumes "Dispatch R x j r = (None, r')"
  shows "wait_list rlists r' = wait_list rlists r \<and> hand_list rlists r' = hand_list rlists r \<and> box rlists r' = (box rlists r)(x := box rlists r x @ [j])"
proof -
  obtain r1 where r1: "rd_LPush R (runnerKey x) j r = (None, r1)"
      "queue_result (rd_Expire R (runnerKey x) (3600 * second) r1) = (None, r')"
    using assms by (auto simp: Dispatch_def Let_def split: prod.splits option.splits)
  then have "rlists r' = rlists r1"
    using expire_frame by (cases "rd_Expire R (runnerKey x) (3600 * second) r1";
      cases "fst (rd_Expire R (runnerKey x) (3600 * second) r1)") auto
  with lpush_ok [OF r1(1)] show ?thesis by (auto simp: views)
qed

lemma Dispatch_err:
  assumes "Dispatch R x j r = (Some e, r')"
  shows "wait_list rlists r' = wait_list rlists r \<and> hand_list rlists r' = hand_list rlists r
    \<and> box rlists r' \<in> {box rlists r, (box rlists r)(x := box rlists r x @ [j])}"
proof (cases "rd_LPush R (runnerKey x) j r")
  case (Pair o1 r1)
  have push: "rlists r1 = rlists r \<or> rlists r1 = (rlists r)(runnerKey x := j # rlists r (runnerKey x))"
    using Pair lpush_ok lpush_err by (cases o1) auto
  have "rlists r' = rlists r1"
    using assms Pair expire_frame by (cases "rd_Expire R (runnerKey x) (3600 * second) r1";
      cases "fst (rd_Expire R (runnerKey x) (3600 * second) r1)")
      (auto simp: Dispatch_def Let_def split: option.splits)
  with push show ?thesis by (auto simp: views)
qed

lemma Receive_ok:
  assumes "Receive R x d r = (Inr j, r')"
  shows "wait_list rlists r' = wait_list rlists r \<and> hand_list rlists r' = hand_list rlists r \<and> box rlists r x = j # box rlists r' x
    \<and> (\<forall>y. y \<noteq> x \<longrightarrow> box rlists r' y = box rlists r y)"
proof -
  obtain kv where "rd_BRPop R d (runnerKey x) r = (Inr kv, r')" "j = snd kv"
    using assms by (auto simp: Receive_def split: prod.splits sum.splits redis_error.splits)
  from brpop_ok [OF this(1)] this(2) show ?thesis by (auto simp: views)
qed

lemma Receive_none:
  assumes "Receive R x d r = (Inl e, r')"
  shows "wait_list rlists r' = wait_list rlists r \<and> hand_list rlists r' = hand_list rlists r
    \<and> (\<forall>y. y \<noteq> x \<longrightarrow> box rlists r' y = box rlists r y) \<and> box rlists r' x \<in> {box rlists r x, tl (box rlists r x)}"
proof -
  obtain f where "rd_BRPop R d (runnerKey x) r = (Inl f, r')"
    using assms by (auto simp: Receive_def split: prod.splits sum.splits redis_error.splits)
  then have "rlists r' = rlists r \<or> rlists r' = (rlists r)(runnerKey x := butlast (rlists r (runnerKey x)))"
    using brpop_nil brpop_err by (cases f) auto
  then show ?thesis by (auto simp: views butlast_rev [symmetric]) (metis butlast_rev rev_rev_ident)
qed

lemma up_Enqueue: "up r \<Longrightarrow> \<exists>r'. Enqueue R j r = (None, r') \<and> up r'"
  using up_lpush [of r pendingKey j] by (auto simp: Enqueue_def)

lemma up_Ack: "up r \<Longrightarrow> \<exists>r'. Ack R j r = (None, r') \<and> up r'"
  using up_lrem [of r inflightKey j] by (auto simp: Ack_def)

lemma up_Requeue: "up r \<Longrightarrow> \<exists>r'. Requeue R j r = (None, r') \<and> up r'"
  using up_Ack [of r j] up_Enqueue by (auto simp: Requeue_def)

lemma up_requeue_all: "up r \<Longrightarrow> \<exists>r'. requeue_all R ids r = (None, r') \<and> up r'"
proof (induction ids arbitrary: r)
  case (Cons i ids)
  obtain r1 where "Requeue R i r = (None, r1)" "up r1" using up_Requeue [OF Cons.prems] by blast
  with Cons.IH [of r1] show ?case by simp
qed simp

lemma up_Recover: "up r \<Longrightarrow> \<exists>n r'. Recover R r = (Inr n, r') \<and> up r'"
proof -
  assume "up r"
  then obtain xs r1 where "rd_LRange R inflightKey 0 (-1) r = (Inr xs, r1)" "up r1"
    using up_lrange by blast
  with up_requeue_all [of r1 xs] show ?thesis by (auto simp: Recover_def)
qed

lemma up_Dequeue: "up r \<Longrightarrow> wait_list rlists r \<noteq> [] \<Longrightarrow> \<exists>j r'. Dequeue R d r = (Inr j, r') \<and> up r'"
  using up_blmove [of r pendingKey inflightKey d] by (auto simp: Dequeue_def views)

lemma up_Dequeue_empty: "up r \<Longrightarrow> wait_list rlists r = [] \<Longrightarrow>
    \<exists>r'. Dequeue R d r = (Inl ErrEmpty, r') \<and> up r'"
  using up_blmove_nil [of r pendingKey inflightKey d] by (auto simp: Dequeue_def views)

lemma up_Dispatch: "up r \<Longrightarrow> \<exists>r'. Dispatch R x j r = (None, r') \<and> up r'"
proof -
  assume "up r"
  then obtain r1 where "rd_LPush R (runnerKey x) j r = (None, r1)" "up r1" using up_lpush by blast
  with up_expire [of r1 "runnerKey x" "3600 * second"] show ?thesis by (auto simp: Dispatch_def Let_def)
qed

lemma up_Receive: "up r \<Longrightarrow> box rlists r x \<noteq> [] \<Longrightarrow> \<exists>j r'. Receive R x d r = (Inr j, r') \<and> up r'"
  using up_brpop [of r "runnerKey x" d] by (fastforce simp: Receive_def views)

lemma up_Receive_empty:
  assumes "up r" and "box rlists r x = []"
  shows "\<exists>r'. Receive R x d r = (Inl ErrEmpty, r') \<and> box rlists r' x = [] \<and> up r'"
proof -
  have "rlists r (runnerKey x) = []" using assms(2) by (simp add: box_def)
  with up_brpop_nil [OF assms(1)] obtain r' where
    r': "rd_BRPop R d (runnerKey x) r = (Inl RedisNil, r')" "up r'" by blast
  with brpop_nil [OF r'(1)] show ?thesis by (auto simp: Receive_def box_def)
qed

end

sublocale redis_server \<subseteq> queue: job_queue "redis_queue R" "wait_list rlists" "hand_list rlists" "box rlists" up
  by unfold_locales
    (simp_all add: redis_queue_def Enqueue_ok Dequeue_ok Dequeue_empty Dequeue_err Ack_ok
      Requeue_ok Dispatch_ok Receive_ok up_Enqueue up_Ack up_Requeue up_Recover up_Dequeue up_Dispatch
      up_Receive Enqueue_err [simplified] Ack_err [simplified] Requeue_err [simplified]
      Dispatch_err [simplified] Receive_none [simplified] Recover_ok
      Recover_err [unfolded all_ids_def] up_Dequeue_empty up_Receive_empty)

context redis_server
begin

lemma is_queue: "job_queue (redis_queue R) (wait_list rlists) (hand_list rlists) (box rlists) up"
  by (rule queue.job_queue_axioms)

end

section \<open>A server with the documented behaviour\<close>

text \<open>
  A store of lists that executes the commands, one outcome of its script per call: it shows that the
  laws of \<open>redis_server\<close> hold together, failures included, and concrete runs evaluate on it.
\<close>

record mem =
  m_lists :: "string \<Rightarrow> string list"
  m_ttl :: "string \<Rightarrow> duration option"
  m_script :: "outcome list"

definition mem_call :: "(mem \<Rightarrow> 'a \<times> mem) \<Rightarrow> mem \<Rightarrow> (string + 'a) \<times> mem" where
  "mem_call f m =
     (case next_outcome (m_script m) of (x, xs) \<Rightarrow> with_outcome x f (m\<lparr>m_script := xs\<rparr>))"

definition mem_unit :: "(string + unit) \<times> mem \<Rightarrow> string option \<times> mem" where
  "mem_unit p = (case p of (Inl e, m) \<Rightarrow> (Some e, m) | (Inr _, m) \<Rightarrow> (None, m))"

definition mem_opt :: "(string + 'a option) \<times> mem \<Rightarrow> (redis_error + 'a) \<times> mem" where
  "mem_opt p = (case p of
      (Inl e, m) \<Rightarrow> (Inl (RedisErr e), m)
    | (Inr None, m) \<Rightarrow> (Inl RedisNil, m)
    | (Inr (Some a), m) \<Rightarrow> (Inr a, m))"

definition lrem_list :: "int \<Rightarrow> string \<Rightarrow> string list \<Rightarrow> string list" where
  "lrem_list n v xs =
     (if n = 0 then removeAll v xs
      else if n > 0 then (remove1 v ^^ nat n) xs
      else rev ((remove1 v ^^ nat (- n)) (rev xs)))"

definition lrange_list :: "int \<Rightarrow> int \<Rightarrow> string list \<Rightarrow> string list" where
  "lrange_list a b xs =
     (let n = int (length xs);
          lo = nat (max 0 (if a < 0 then a + n else a));
          hi = nat (max 0 ((if b < 0 then b + n else b) + 1))
      in drop lo (take hi xs))"

definition set_list :: "string \<Rightarrow> string list \<Rightarrow> mem \<Rightarrow> mem" where
  "set_list k xs m = m\<lparr>m_lists := (m_lists m)(k := xs)\<rparr>"

fun take_end :: "list_end \<Rightarrow> string list \<Rightarrow> (string \<times> string list) option" where
  "take_end _ [] = None"
| "take_end LeftEnd (x # xs) = Some (x, xs)"
| "take_end RightEnd xs = Some (last xs, butlast xs)"

fun put_end :: "list_end \<Rightarrow> string \<Rightarrow> string list \<Rightarrow> string list" where
  "put_end LeftEnd v xs = v # xs"
| "put_end RightEnd v xs = xs @ [v]"

definition mem_redis :: "mem redis" where
  "mem_redis = \<lparr>
     rd_LPush = (\<lambda>k v m. mem_unit (mem_call (\<lambda>m. ((), set_list k (v # m_lists m k) m)) m)),
     rd_BLMove = (\<lambda>k l a b _ m. mem_opt (mem_call (\<lambda>m.
        case take_end a (m_lists m k) of
          None \<Rightarrow> (None, m)
        | Some (v, xs) \<Rightarrow> (let m' = set_list k xs m
                          in (Some v, set_list l (put_end b v (m_lists m' l)) m'))) m)),
     rd_LRem = (\<lambda>k n v m. mem_unit (mem_call (\<lambda>m. ((), set_list k (lrem_list n v (m_lists m k)) m)) m)),
     rd_LRange = (\<lambda>k a b m. mem_call (\<lambda>m. (lrange_list a b (m_lists m k), m)) m),
     rd_BRPop = (\<lambda>_ k m. mem_opt (mem_call (\<lambda>m.
        case take_end RightEnd (m_lists m k) of
          None \<Rightarrow> (None, m)
        | Some (v, xs) \<Rightarrow> (Some (k, v), set_list k xs m)) m)),
     rd_Expire = (\<lambda>k d m. mem_unit (mem_call (\<lambda>m.
        ((), if m_lists m k = [] then m else m\<lparr>m_ttl := (m_ttl m)(k \<mapsto> d)\<rparr>)) m))\<rparr>"

lemma with_outcome_cases_eq:
  "with_outcome x f m = (case x of
      Okay \<Rightarrow> (Inr (fst (f m)), snd (f m)) | Fails e \<Rightarrow> (Inl e, m) | Lost e \<Rightarrow> (Inl e, snd (f m)))"
  by (cases x) simp_all

lemma take_right: "take_end RightEnd xs = (if xs = [] then None else Some (last xs, butlast xs))"
  by (cases xs) auto

lemma lrange_whole: "lrange_list 0 (-1) xs = xs"
  by (simp add: lrange_list_def)

lemmas mem_eval = mem_redis_def mem_unit_def mem_opt_def set_list_def lrem_list_def lrange_whole
  take_right mem_call_def with_outcome_cases_eq Let_def

interpretation mem: redis_server mem_redis m_lists "\<lambda>m. m_script m = []" m_ttl
  by unfold_locales
    (auto simp: mem_eval split: prod.splits outcome.splits if_splits, (metis append_butlast_last_id)+)

end
