(* ===== verification/Queue_Spec.thy ===== *)
theory Queue_Spec
  imports Queue
begin

text \<open>
  What the queue promises: an abstract queue whose state is three lists, and the lemma that every
  provider of the contract \<open>job_queue\<close> refines it while it answers. For calls that fail, the lemma
  is that an id leaves the two job lists only through the call that names it.
\<close>

section \<open>Calls and the abstract queue\<close>

datatype queue_call =
    CEnqueue string
  | CDequeue duration
  | CAck string
  | CRequeue string
  | CRecover
  | CDispatch string string
  | CReceive string duration

datatype queue_reply =
    Done "queue_error option"
  | Got "queue_error + string"
  | Recovered "queue_error + int"

fun run_call :: "'q queue_ops \<Rightarrow> queue_call \<Rightarrow> 'q \<Rightarrow> queue_reply \<times> 'q" where
  "run_call Q (CEnqueue j) q = map_prod Done id (q_Enqueue Q j q)"
| "run_call Q (CDequeue d) q = map_prod Got id (q_Dequeue Q d q)"
| "run_call Q (CAck j) q = map_prod Done id (q_Ack Q j q)"
| "run_call Q (CRequeue j) q = map_prod Done id (q_Requeue Q j q)"
| "run_call Q CRecover q = map_prod Recovered id (q_Recover Q q)"
| "run_call Q (CDispatch x j) q = map_prod Done id (q_Dispatch Q x j q)"
| "run_call Q (CReceive x d) q = map_prod Got id (q_Receive Q x d q)"

fun run_calls :: "'q queue_ops \<Rightarrow> queue_call list \<Rightarrow> 'q \<Rightarrow> queue_reply list \<times> 'q" where
  "run_calls Q [] q = ([], q)"
| "run_calls Q (c # cs) q =
     (case run_call Q c q of (a, q') \<Rightarrow> (case run_calls Q cs q' of (as, q'') \<Rightarrow> (a # as, q'')))"

record spec_queue =
  sq_pending :: "string list"
  sq_inflight :: "string list"
  sq_mailbox :: "string \<Rightarrow> string list"

fun spec_call :: "queue_call \<Rightarrow> spec_queue \<Rightarrow> queue_reply \<times> spec_queue" where
  "spec_call (CEnqueue j) q = (Done None, q\<lparr>sq_pending := sq_pending q @ [j]\<rparr>)"
| "spec_call (CDequeue d) q =
     (case sq_pending q of
        [] \<Rightarrow> (Got (Inl ErrEmpty), q)
      | j # js \<Rightarrow> (Got (Inr j), q\<lparr>sq_pending := js, sq_inflight := j # sq_inflight q\<rparr>))"
| "spec_call (CAck j) q = (Done None, q\<lparr>sq_inflight := remove1 j (sq_inflight q)\<rparr>)"
| "spec_call (CRequeue j) q =
     (Done None, q\<lparr>sq_pending := sq_pending q @ [j], sq_inflight := remove1 j (sq_inflight q)\<rparr>)"
| "spec_call CRecover q =
     (Recovered (Inr (int (length (sq_inflight q)))),
      q\<lparr>sq_pending := sq_pending q @ sq_inflight q, sq_inflight := []\<rparr>)"
| "spec_call (CDispatch x j) q =
     (Done None, q\<lparr>sq_mailbox := (sq_mailbox q)(x := sq_mailbox q x @ [j])\<rparr>)"
| "spec_call (CReceive x d) q =
     (case sq_mailbox q x of
        [] \<Rightarrow> (Got (Inl ErrEmpty), q)
      | j # js \<Rightarrow> (Got (Inr j), q\<lparr>sq_mailbox := (sq_mailbox q)(x := js)\<rparr>))"

fun spec_calls :: "queue_call list \<Rightarrow> spec_queue \<Rightarrow> queue_reply list \<times> spec_queue" where
  "spec_calls [] q = ([], q)"
| "spec_calls (c # cs) q =
     (case spec_call c q of (a, q') \<Rightarrow> (case spec_calls cs q' of (as, q'') \<Rightarrow> (a # as, q'')))"

section \<open>Refinement and conservation, from the contract alone\<close>

context job_queue
begin

definition absq :: "'q \<Rightarrow> spec_queue" where
  "absq q = \<lparr>sq_pending = pending q, sq_inflight = inflight q, sq_mailbox = mailbox q\<rparr>"

lemma absq_sel [simp]:
  "sq_pending (absq q) = pending q" "sq_inflight (absq q) = inflight q"
  "sq_mailbox (absq q) = mailbox q"
  by (simp_all add: absq_def)

lemma dequeue_refines:
  assumes "up q"
  shows "\<exists>a q'. q_Dequeue Q d q = (a, q') \<and> spec_call (CDequeue d) (absq q) = (Got a, absq q') \<and> up q'"
proof (cases "pending q")
  case Nil
  then obtain q' where q': "q_Dequeue Q d q = (Inl ErrEmpty, q')" "up q'"
    using up_dequeue_empty [OF assms] by blast
  with dequeue_empty [OF q'(1)] Nil show ?thesis by (auto simp: absq_def)
next
  case (Cons i js)
  then obtain j q' where q': "q_Dequeue Q d q = (Inr j, q')" "up q'"
    using up_dequeue [OF assms, of d] by auto
  with dequeue_ok [OF q'(1)] Cons show ?thesis by (auto simp: absq_def)
qed

lemma receive_refines:
  assumes "up q"
  shows "\<exists>a q'. q_Receive Q x d q = (a, q') \<and> spec_call (CReceive x d) (absq q) = (Got a, absq q') \<and> up q'"
proof (cases "mailbox q x")
  case Nil
  then obtain q' where q': "q_Receive Q x d q = (Inl ErrEmpty, q')" "mailbox q' x = []" "up q'"
    using up_receive_empty [OF assms] by blast
  have "mailbox q' = mailbox q"
    using receive_none [OF q'(1)] q'(2) Nil by (metis ext)
  with q' receive_none [OF q'(1)] Nil show ?thesis by (auto simp: absq_def)
next
  case (Cons i js)
  then obtain j q' where q': "q_Receive Q x d q = (Inr j, q')" "up q'"
    using up_receive [OF assms, of x d] by auto
  have "mailbox q' = (mailbox q)(x := mailbox q' x)"
    using receive_ok [OF q'(1)] by fastforce
  with q' receive_ok [OF q'(1)] Cons show ?thesis by (auto simp: absq_def)
qed

lemma call_refines:
  assumes "up q"
  shows "\<exists>a q'. run_call Q c q = (a, q') \<and> spec_call c (absq q) = (a, absq q') \<and> up q'"
proof (cases c)
  case (CEnqueue j)
  obtain q' where "q_Enqueue Q j q = (None, q')" "up q'" using up_enqueue [OF assms] by blast
  with CEnqueue enqueue_ok [of j q q'] show ?thesis by (simp add: absq_def)
next
  case (CDequeue d)
  with dequeue_refines [OF assms, of d] show ?thesis by (auto simp del: spec_call.simps)
next
  case (CAck j)
  obtain q' where "q_Ack Q j q = (None, q')" "up q'" using up_ack [OF assms] by blast
  with CAck ack_ok [of j q q'] show ?thesis by (simp add: absq_def)
next
  case (CRequeue j)
  obtain q' where "q_Requeue Q j q = (None, q')" "up q'" using up_requeue [OF assms] by blast
  with CRequeue requeue_ok [of j q q'] show ?thesis by (simp add: absq_def)
next
  case CRecover
  obtain n q' where "q_Recover Q q = (Inr n, q')" "up q'" using up_recover [OF assms] by blast
  with CRecover recover_ok [of q n q'] show ?thesis by (simp add: absq_def)
next
  case (CDispatch x j)
  obtain q' where "q_Dispatch Q x j q = (None, q')" "up q'" using up_dispatch [OF assms] by blast
  with CDispatch dispatch_ok [of x j q q'] show ?thesis by (simp add: absq_def)
next
  case (CReceive x d)
  with receive_refines [OF assms, of x d] show ?thesis by (auto simp del: spec_call.simps)
qed

lemma calls_refine:
  "up q \<Longrightarrow> \<exists>as q'. run_calls Q cs q = (as, q') \<and> spec_calls cs (absq q) = (as, absq q') \<and> up q'"
proof (induction cs arbitrary: q)
  case (Cons c cs)
  obtain a q1 where "run_call Q c q = (a, q1)" "spec_call c (absq q) = (a, absq q1)" "up q1"
    using call_refines [OF Cons.prems] by blast
  with Cons.IH [of q1] show ?case by auto
qed simp

definition names :: "string \<Rightarrow> queue_call \<Rightarrow> bool" where
  "names j c \<longleftrightarrow> c \<in> {CAck j, CRequeue j, CRecover}"

lemma call_keeps:
  assumes "run_call Q c q = (a, q')" and "\<not> names j c"
  shows "count (ids q) j \<le> count (ids q') j"
proof (cases c)
  case (CEnqueue i)
  with assms enqueue_ids [of i q] show ?thesis
    by (cases "q_Enqueue Q i q") (auto simp: subseteq_mset_def)
next
  case (CDequeue d)
  with assms dequeue_ids [of d q] show ?thesis by (cases "q_Dequeue Q d q") auto
next
  case (CAck i)
  with assms have "i \<noteq> j" by (auto simp: names_def)
  with CAck assms ack_ids [of i q] show ?thesis
    by (cases "q_Ack Q i q") (auto simp: subseteq_mset_def split: if_splits dest: spec [of _ j])
next
  case (CRequeue i)
  with assms have i: "i \<noteq> j" by (auto simp: names_def)
  obtain x where x: "q_Requeue Q i q = (x, q')" using CRequeue assms by (cases "q_Requeue Q i q") auto
  then have "pending q' \<in> {pending q, pending q @ [i]}
      \<and> inflight q' \<in> {inflight q, remove1 i (inflight q)}"
    using requeue_ok [of i q q'] requeue_err [of i q _ q'] by (cases x) simp_all
  moreover have "count (mset (remove1 i (inflight q))) j = count (mset (inflight q)) j"
    using i by simp
  ultimately show ?thesis by (auto simp: ids_def simp del: mset_remove1)
next
  case (CDispatch x i)
  then obtain e where "q_Dispatch Q x i q = (e, q')" using assms by (cases "q_Dispatch Q x i q") auto
  then have "pending q' = pending q \<and> inflight q' = inflight q"
    by (cases e) (blast dest: dispatch_ok dispatch_err)+
  then show ?thesis by (simp add: ids_def)
next
  case (CReceive x d)
  then obtain e where "q_Receive Q x d q = (e, q')" using assms by (cases "q_Receive Q x d q") auto
  then have "pending q' = pending q \<and> inflight q' = inflight q"
    by (cases e) (blast dest: receive_ok receive_none)+
  then show ?thesis by (simp add: ids_def)
qed (use assms in \<open>auto simp: names_def\<close>)

lemma calls_keep:
  "run_calls Q cs q = (as, q') \<Longrightarrow> list_all (\<lambda>c. \<not> names j c) cs \<Longrightarrow>
   count (ids q) j \<le> count (ids q') j"
proof (induction cs arbitrary: q as)
  case (Cons c cs)
  obtain a q1 bs where "run_call Q c q = (a, q1)" "run_calls Q cs q1 = (bs, q')"
    using Cons.prems(1) by (auto split: prod.splits)
  with call_keeps [of c q a q1 j] Cons.IH [of q1 bs] Cons.prems(2) show ?case by simp
qed simp

end

end
