(* ===== verification/Queue_Properties.thy ===== *)
theory Queue_Properties
  imports Queue_Spec
begin


definition mem_with :: "string list \<Rightarrow> string list \<Rightarrow> outcome list \<Rightarrow> mem" where
  "mem_with waiting handed xs =
     \<lparr>m_lists = (\<lambda>_. [])(pendingKey := rev waiting, inflightKey := handed), m_ttl = (\<lambda>_. None), m_script = xs\<rparr>"

lemma mem_with_views [simp]:
  "wait_list m_lists (mem_with w h xs) = w" "hand_list m_lists (mem_with w h xs) = h"
  "box m_lists (mem_with w h xs) x = []" "m_script (mem_with w h xs) = xs"
  by (simp_all add: mem_with_def views)



text \<open>No call loses a job id by accident. Whatever fails, an id that is waiting or in flight stays
  in one of the two lists, as often as it was there, through any sequence of calls that does not
  acknowledge it, requeue it or recover the in-flight list: a consumer that dies after a dequeue, or a
  dequeue whose reply is lost, loses nothing.\<close>

theorem queue_keeps_ids:
  assumes "redis_server R rlists up ttl" and "run_calls (redis_queue R) calls r = (replies, r')"
    and "CAck j \<notin> set calls" and "CRequeue j \<notin> set calls" and "CRecover \<notin> set calls"
  shows "count (all_ids rlists r) j \<le> count (all_ids rlists r') j"
proof -
  note q = redis_server.is_queue [OF assms(1)]
  have ids: "job_queue.ids (wait_list rlists) (hand_list rlists) = all_ids rlists"
    by (simp add: fun_eq_iff job_queue.ids_def [OF q] all_ids_def)
  have "list_all (\<lambda>c. \<not> job_queue.names j c) calls"
    using assms(3-5) by (auto simp: list_all_iff job_queue.names_def [OF q])
  with job_queue.calls_keep [OF q assms(2), of j] show ?thesis by (simp add: ids)
qed

theorem queue_keeps_ids_witness:
  "1 \<le> count (all_ids m_lists (snd (run_calls (redis_queue mem_redis)
      [CDequeue second, CEnqueue ''b'', CAck ''b''] (mem_with [''a''] [] [Lost ''reset'', Fails ''down''])))) ''a''"
proof -
  let ?m = "mem_with [''a''] [] [Lost ''reset'', Fails ''down'']"
  have "count (all_ids m_lists ?m) ''a'' = 1" by (simp add: all_ids_def)
  with queue_keeps_ids [OF mem.redis_server_axioms surjective_pairing, of "''a''"
      "[CDequeue second, CEnqueue ''b'', CAck ''b'']" ?m]
  show ?thesis by (simp del: run_calls.simps)
qed

text \<open>\<open>Recover\<close> either succeeds, and then every in-flight id waits again behind the ids that were
  waiting, the in-flight list is empty and the count is returned; or it fails part way, and then at
  most one id is missing from the two lists.\<close>

theorem Recover_exact:
  assumes "redis_server R rlists up ttl" and "Recover R r = (res, r')"
  shows "case res of
      Inr n \<Rightarrow> n = int (length (hand_list rlists r)) \<and> hand_list rlists r' = []
        \<and> wait_list rlists r' = wait_list rlists r @ hand_list rlists r \<and> box rlists r' = box rlists r
    | Inl e \<Rightarrow> box rlists r' = box rlists r \<and> (\<exists>i. all_ids rlists r - {#i#} \<subseteq># all_ids rlists r')"
  using assms(2) redis_server.Recover_ok [OF assms(1)] redis_server.Recover_err [OF assms(1)]
  by (cases res) auto

theorem Recover_exact_witness:
  "\<exists>m. Recover mem_redis (mem_with [''c''] [''b'', ''a''] []) = (Inr 2, m)
     \<and> wait_list m_lists m = [''c'', ''b'', ''a''] \<and> hand_list m_lists m = []"
proof -
  obtain n m where m: "Recover mem_redis (mem_with [''c''] [''b'', ''a''] []) = (Inr n, m)"
    using mem.up_Recover [of "mem_with [''c''] [''b'', ''a''] []"] by auto
  show ?thesis using Recover_exact [OF mem.redis_server_axioms m] m by simp
qed

text \<open>\<open>Requeue\<close> can lose the job. It removes the id from the in-flight list and pushes it to the
  pending list in two commands; when the second one fails the id is in neither list, although the
  caller is told only that the requeue failed.\<close>

theorem Requeue_failure_loses_id:
  "\<exists>m. Requeue mem_redis ''a'' (mem_with [] [''a''] [Okay, Fails ''timeout'']) = (Some (ErrQueue ''timeout''), m)
     \<and> all_ids m_lists (mem_with [] [''a''] [Okay, Fails ''timeout'']) = {#''a''#} \<and> all_ids m_lists m = {#}"
  by (simp add: Requeue_def Ack_def Enqueue_def mem_with_def mem_eval all_ids_def views)

end
