(* ===== verification/Scheduler.thy ===== *)
theory Scheduler
  imports Models
begin

text \<open>
  \<^verbatim>\<open>internal/scheduler/scheduler.go\<close>: the choice of a runner for a job. \<open>Schedule\<close> is the loop of the
  source, one fold over the candidates with the best one so far; \<open>lessRecentlyUsed\<close> is the order it
  prefers by. The locale \<open>scheduling_policy\<close> is the interface \<^verbatim>\<open>Scheduler\<close> as the service uses it:
  what it may rely on of any policy plugged in.
\<close>

section \<open>The policy of the source\<close>

datatype sched_error = ErrNoRunner | ErrSched string

definition lessRecentlyUsed :: "Runner \<Rightarrow> Runner \<Rightarrow> bool" where
  "lessRecentlyUsed a b =
     (case (r_last_assigned_at a, r_last_assigned_at b) of
        (None, None) \<Rightarrow> r_id a < r_id b
      | (None, Some _) \<Rightarrow> True
      | (Some _, None) \<Rightarrow> False
      | (Some x, Some y) \<Rightarrow> x < y)"

fun schedule_loop :: "Job \<Rightarrow> Runner list \<Rightarrow> Runner option \<Rightarrow> Runner option" where
  "schedule_loop job [] best = best"
| "schedule_loop job (r # rs) best =
     (if r_status r \<noteq> RunnerIdle \<or> \<not> CanRun r (j_labels job) then schedule_loop job rs best
      else (case best of
              None \<Rightarrow> schedule_loop job rs (Some r)
            | Some b \<Rightarrow> if lessRecentlyUsed r b then schedule_loop job rs (Some r)
                        else schedule_loop job rs (Some b)))"

definition Schedule :: "Job \<Rightarrow> Runner list \<Rightarrow> sched_error + Runner" where
  "Schedule job candidates =
     (case schedule_loop job candidates None of None \<Rightarrow> Inl ErrNoRunner | Some best \<Rightarrow> Inr best)"

section \<open>What it promises\<close>

definition eligible :: "Job \<Rightarrow> Runner \<Rightarrow> bool" where
  "eligible job r \<longleftrightarrow> r_status r = RunnerIdle \<and> set (j_labels job) \<subseteq> set (r_labels r)"

text \<open>
  The preference is a strict weak order: it is a comparison of a key, the time of the last
  assignment with "never" first, the id deciding among runners that never ran.
\<close>

lemma lessRecentlyUsed_irrefl [simp]: "\<not> lessRecentlyUsed a a"
  by (simp add: lessRecentlyUsed_def split: option.splits)

lemma lessRecentlyUsed_asym: "lessRecentlyUsed a b \<Longrightarrow> \<not> lessRecentlyUsed b a"
  by (auto simp: lessRecentlyUsed_def split: option.splits)

lemma lessRecentlyUsed_negtrans:
  "\<not> lessRecentlyUsed a b \<Longrightarrow> \<not> lessRecentlyUsed b c \<Longrightarrow> \<not> lessRecentlyUsed a c"
  by (auto simp: lessRecentlyUsed_def split: option.splits)

lemma lessRecentlyUsed_trans:
  "lessRecentlyUsed a b \<Longrightarrow> lessRecentlyUsed b c \<Longrightarrow> lessRecentlyUsed a c"
  by (auto simp: lessRecentlyUsed_def split: option.splits)

lemma eligible_guard:
  "\<not> (r_status r \<noteq> RunnerIdle \<or> \<not> CanRun r (j_labels job)) \<longleftrightarrow> eligible job r"
  by (auto simp: eligible_def CanRun_iff)

lemma schedule_loop_None:
  "schedule_loop job rs best = None \<longleftrightarrow> best = None \<and> (\<forall>r \<in> set rs. \<not> eligible job r)"
  by (induction rs arbitrary: best) (auto simp: eligible_def CanRun_iff split: option.splits)

lemma schedule_loop_from: "schedule_loop job rs best = Some r \<Longrightarrow>
    best = Some r \<or> r \<in> set rs \<and> eligible job r"
  by (induction rs arbitrary: best)
    (auto simp: eligible_def CanRun_iff split: option.splits if_splits)

lemma schedule_loop_best:
  "schedule_loop job rs best = Some r \<Longrightarrow>
   (\<forall>b. best = Some b \<longrightarrow> \<not> lessRecentlyUsed b r) \<and>
   (\<forall>c \<in> set rs. eligible job c \<longrightarrow> \<not> lessRecentlyUsed c r)"
proof (induction rs arbitrary: best)
  case (Cons c rs)
  show ?case
  proof (cases "eligible job c")
    case False
    with Cons show ?thesis using eligible_guard [of c job] by (auto split: if_splits)
  next
    case el: True
    let ?next = "if best = None \<or> lessRecentlyUsed c (the best) then c else the best"
    have "schedule_loop job rs (Some ?next) = Some r"
      using Cons.prems el eligible_guard [of c job] by (auto split: option.splits if_splits)
    from Cons.IH [OF this] have n: "\<not> lessRecentlyUsed ?next r"
      and rest: "\<forall>c \<in> set rs. eligible job c \<longrightarrow> \<not> lessRecentlyUsed c r" by auto
    have "\<not> lessRecentlyUsed c ?next" by simp
    moreover have "\<not> lessRecentlyUsed b ?next" if "best = Some b" for b
      using that lessRecentlyUsed_asym by auto
    ultimately show ?thesis using n rest lessRecentlyUsed_negtrans
      by (metis set_ConsD)
  qed
qed auto

text \<open>The interface: a policy picks one of the eligible candidates, or says there is none.\<close>

locale scheduling_policy =
  fixes sched :: "Job \<Rightarrow> Runner list \<Rightarrow> sched_error + Runner"
  assumes picks: "sched job cs = Inr r \<Longrightarrow> r \<in> set cs \<and> eligible job r"
    and none: "sched job cs = Inl ErrNoRunner \<Longrightarrow> c \<in> set cs \<Longrightarrow> \<not> eligible job c"
    and total: "sched job cs \<noteq> Inl (ErrSched e)"
begin

lemma cases_policy:
  obtains (picked) r where "sched job cs = Inr r" "r \<in> set cs" "eligible job r"
  | (nobody) "sched job cs = Inl ErrNoRunner" "\<forall>c \<in> set cs. \<not> eligible job c"
  using picks [of job cs] none [of job cs] total [of job cs]
  by (cases "sched job cs"; cases "projl (sched job cs)") auto

lemma finds: "c \<in> set cs \<Longrightarrow> eligible job c \<Longrightarrow> \<exists>r. sched job cs = Inr r \<and> eligible job r"
  by (rule cases_policy [of job cs]) auto

end

interpretation capability: scheduling_policy Schedule
  by unfold_locales
    (auto simp: Schedule_def schedule_loop_None split: option.splits dest: schedule_loop_from)

end
