(* ===== verification/Service.thy ===== *)
theory Service
  imports Scheduler Queue_Spec Ownership
begin

text \<open>
  \<^verbatim>\<open>internal/scheduler/service.go\<close>: the process that moves jobs from the queue onto runners and rescues
  the jobs of runners that fell silent. Its state is the database and the queue it calls; the queue
  is the interface \<open>queue_ops\<close> and the policy is the interface of \<open>Scheduler\<close>, both arguments. The
  waits (\<^verbatim>\<open>time.Sleep\<close>, the ticker) only let time pass and are not part of the model; \<open>Run\<close> takes the
  number of turns the loop makes before its context is cancelled. The loops are stated once for every
  queue that satisfies the contract and every policy that does, in the locale \<open>scheduler_service\<close>.
\<close>

section \<open>The service\<close>

record 'q world =
  w_db :: db
  w_queue :: 'q

definition on_db :: "(db \<Rightarrow> 'a \<times> db) \<Rightarrow> ('q, 'z) world_scheme \<Rightarrow> 'a \<times> ('q, 'z) world_scheme" where
  "on_db f w = (case f (w_db w) of (a, s) \<Rightarrow> (a, w\<lparr>w_db := s\<rparr>))"

definition on_queue :: "('q \<Rightarrow> 'a \<times> 'q) \<Rightarrow> ('q, 'z) world_scheme \<Rightarrow> 'a \<times> ('q, 'z) world_scheme" where
  "on_queue f w = (case f (w_queue w) of (a, q) \<Rightarrow> (a, w\<lparr>w_queue := q\<rparr>))"

type_synonym policy = "Job \<Rightarrow> Runner list \<Rightarrow> sched_error + Runner"

definition requeue :: "'q queue_ops \<Rightarrow> string \<Rightarrow> 'q world \<Rightarrow> 'q world" where
  "requeue Q jobID w = snd (on_queue (q_Requeue Q jobID) w)"

definition place_job :: "'q queue_ops \<Rightarrow> string \<Rightarrow> Runner \<Rightarrow> 'q world \<Rightarrow> 'q world" where
  "place_job Q jobID runner w =
     (case on_db (AssignJob jobID (r_id runner)) w of
        (Inl _, w1) \<Rightarrow> requeue Q jobID w1
      | (Inr _, w1) \<Rightarrow>
          (case on_queue (q_Dispatch Q (r_id runner) jobID) w1 of
             (Some _, w2) \<Rightarrow> requeue Q jobID (snd (on_db (RequeueJob jobID) w2))
           | (None, w2) \<Rightarrow> snd (on_queue (q_Ack Q jobID) w2)))"

definition assign :: "'q queue_ops \<Rightarrow> policy \<Rightarrow> duration \<Rightarrow> string \<Rightarrow> 'q world \<Rightarrow> 'q world" where
  "assign Q sched heartbeat jobID w =
     (case on_db (GetJob jobID) w of
        (Inl _, w1) \<Rightarrow> snd (on_queue (q_Ack Q jobID) w1)
      | (Inr job, w1) \<Rightarrow>
          if j_status job \<noteq> JobQueued then snd (on_queue (q_Ack Q jobID) w1)
          else
            (case on_db (IdleRunners heartbeat) w1 of
               (Inl _, w2) \<Rightarrow> requeue Q jobID w2
             | (Inr candidates, w2) \<Rightarrow>
                 (case sched job candidates of
                    Inl ErrNoRunner \<Rightarrow> requeue Q jobID w2
                  | Inl (ErrSched _) \<Rightarrow> requeue Q jobID w2
                  | Inr runner \<Rightarrow> place_job Q jobID runner w2)))"

definition run_turn :: "'q queue_ops \<Rightarrow> policy \<Rightarrow> duration \<Rightarrow> 'q world \<Rightarrow> 'q world" where
  "run_turn Q sched heartbeat w =
     (case on_queue (q_Dequeue Q (2 * second)) w of
        (Inl ErrEmpty, w1) \<Rightarrow> w1
      | (Inl (ErrQueue _), w1) \<Rightarrow> w1
      | (Inr jobID, w1) \<Rightarrow> assign Q sched heartbeat jobID w1)"

fun run_turns :: "nat \<Rightarrow> 'q queue_ops \<Rightarrow> policy \<Rightarrow> duration \<Rightarrow> 'q world \<Rightarrow> 'q world" where
  "run_turns 0 Q sched heartbeat w = w"
| "run_turns (Suc n) Q sched heartbeat w = run_turns n Q sched heartbeat (run_turn Q sched heartbeat w)"

definition Run :: "nat \<Rightarrow> 'q queue_ops \<Rightarrow> policy \<Rightarrow> duration \<Rightarrow> 'q world \<Rightarrow> 'q world" where
  "Run turns Q sched heartbeat w =
     run_turns turns Q sched heartbeat (snd (on_queue (q_Recover Q) w))"

text \<open>
  One tick of \<open>reapLoop\<close>. Go iterates over the map of orphans in an order of its own: \<open>ord\<close> is that
  order, any rearrangement of the entries.
\<close>

definition rescue :: "'q queue_ops \<Rightarrow> string \<times> string \<Rightarrow> 'q world \<Rightarrow> 'q world" where
  "rescue Q entry w =
     (case entry of (runnerID, jobID) \<Rightarrow>
        if jobID = [] then w
        else
          (case on_db (RequeueJob jobID) w of
             (Inl _, w1) \<Rightarrow> w1
           | (Inr _, w1) \<Rightarrow> snd (on_queue (q_Enqueue Q jobID) w1)))"

definition reap_tick ::
  "'q queue_ops \<Rightarrow> ((string \<times> string) list \<Rightarrow> (string \<times> string) list) \<Rightarrow> duration \<Rightarrow> 'q world \<Rightarrow> 'q world" where
  "reap_tick Q ord heartbeat w =
     (case on_db (ReapOfflineRunners heartbeat) w of
        (Inl _, w1) \<Rightarrow> w1
      | (Inr orphaned, w1) \<Rightarrow> fold (rescue Q) (ord orphaned) w1)"

section \<open>What the service does to the database is a run of store calls\<close>

lemma on_db_eq: "on_db f w = (fst (f (w_db w)), w\<lparr>w_db := snd (f (w_db w))\<rparr>)"
  by (simp add: on_db_def split: prod.splits)

lemma on_queue_eq: "on_queue f w = (fst (f (w_queue w)), w\<lparr>w_queue := snd (f (w_queue w))\<rparr>)"
  by (simp add: on_queue_def split: prod.splits)

lemmas on_defs = on_db_eq on_queue_eq

lemma requeue_db [simp]: "w_db (requeue Q i w) = w_db w"
  by (simp add: requeue_def on_defs)

lemma IdleRunners_steps: "db_steps s (snd (IdleRunners d s))"
  by (rule db_exec_select [of "\<lambda>s. let live = filter (\<lambda>r. r_status r = RunnerIdle
                        \<and> r_last_heartbeat r > db_now s - interval_of d) (runners s)
          in filter (\<lambda>r. r_last_assigned_at r = None) live @
             sort_key (\<lambda>r. case r_last_assigned_at r of None \<Rightarrow> 0 | Some a \<Rightarrow> a)
               (filter (\<lambda>r. r_last_assigned_at r \<noteq> None) live)" s])
    (auto simp: IdleRunners_def intro: db_steps_script)

lemma place_job_steps: "db_steps (w_db w) (w_db (place_job Q i r w))"
  unfolding place_job_def
  by (auto simp: on_defs split: prod.splits sum.splits option.splits
      intro: AssignJob_steps RequeueJob_steps rtranclp_trans [OF AssignJob_steps RequeueJob_steps])

lemma assign_steps: "db_steps (w_db w) (w_db (assign Q sched hb i w))"
proof -
  let ?s = "snd (GetJob i (w_db w))"
  let ?t = "snd (IdleRunners hb ?s)"
  have s: "db_steps (w_db w) ?s" by (rule GetJob_steps)
  have t: "db_steps (w_db w) ?t" using s IdleRunners_steps by (rule rtranclp_trans)
  have p: "db_steps (w_db w) (w_db (place_job Q i r (w\<lparr>w_db := ?t\<rparr>)))" for r
    using t place_job_steps [of "w\<lparr>w_db := ?t\<rparr>" Q i r] by (auto intro: rtranclp_trans)
  show ?thesis
    using s t p by (auto simp: assign_def on_defs split: sum.splits sched_error.splits)
qed

lemma run_turn_steps: "db_steps (w_db w) (w_db (run_turn Q sched hb w))"
  using assign_steps [of "w\<lparr>w_queue := snd (q_Dequeue Q (2 * second) (w_queue w))\<rparr>" Q sched hb]
  by (simp add: run_turn_def on_defs split: sum.splits queue_error.splits)

lemma run_turns_steps: "db_steps (w_db w) (w_db (run_turns n Q sched hb w))"
proof (induction n arbitrary: w)
  case (Suc n)
  show ?case using rtranclp_trans [OF run_turn_steps Suc] by simp
qed simp

lemma Run_steps: "db_steps (w_db w) (w_db (Run n Q sched hb w))"
  using run_turns_steps [of "snd (on_queue (q_Recover Q) w)" n Q sched hb]
  by (simp add: Run_def on_defs)

lemma rescue_steps: "db_steps (w_db w) (w_db (rescue Q e w))"
  using RequeueJob_steps by (auto simp: rescue_def on_defs split: prod.splits sum.splits)

lemma fold_rescue_steps: "db_steps (w_db w) (w_db (fold (rescue Q) es w))"
proof (induction es arbitrary: w)
  case (Cons e es)
  show ?case using rtranclp_trans [OF rescue_steps Cons] by simp
qed simp

lemma reap_tick_steps: "db_steps (w_db w) (w_db (reap_tick Q ord hb w))"
proof -
  let ?w = "w\<lparr>w_db := snd (ReapOfflineRunners hb (w_db w))\<rparr>"
  have reap: "db_steps (w_db w) (w_db ?w)" by (simp add: db_step.reap r_into_rtranclp)
  show ?thesis
    using reap rtranclp_trans [OF reap fold_rescue_steps]
    by (auto simp: reap_tick_def on_defs split: sum.splits)
qed

end
