(* ===== verification/Service_Behaviour.thy ===== *)
theory Service_Behaviour
  imports Service
begin

text \<open>
  What a turn of the scheduler and a tick of the reaper achieve when the database and the queue
  answer: the three outcomes of \<open>assign\<close>, the progress of a turn, and the rescue of orphaned jobs. The
  lemmas are proved once, in the locale \<open>scheduler_service\<close>, from the contracts of the queue and of the
  policy; the Redis queue with the capability policy is the instance the process runs.
\<close>

section \<open>Reading the pool\<close>

definition live_idle :: "duration \<Rightarrow> time \<Rightarrow> runner_row \<Rightarrow> bool" where
  "live_idle timeout now a \<longleftrightarrow> r_status a = RunnerIdle \<and> r_last_heartbeat a > now - interval_of timeout"

definition suits :: "duration \<Rightarrow> db \<Rightarrow> job_row \<Rightarrow> runner_row \<Rightarrow> bool" where
  "suits timeout s r a \<longleftrightarrow>
     a \<in> set (runners s) \<and> live_idle timeout (db_now s) a \<and> set (j_labels r) \<subseteq> set (r_labels a)"

lemma IdleRunners_healthy:
  assumes "db_script s = []"
  shows "\<exists>rs. IdleRunners d s = (Inr rs, s) \<and>
    set rs = scanRunner ` {a \<in> set (runners s). live_idle d (db_now s) a}"
proof -
  let ?live = "filter (live_idle d (db_now s)) (runners s)"
  have "set (filter (\<lambda>r. r_last_assigned_at r = None) ?live) \<union>
      set (filter (\<lambda>r. r_last_assigned_at r \<noteq> None) ?live) = set ?live" by auto
  with assms show ?thesis
    by (auto simp: IdleRunners_def select_def Let_def live_idle_def [abs_def] image_Un [symmetric])
qed

lemma eligible_scan: "eligible (scanJob r) (scanRunner a) \<longleftrightarrow>
    r_status a = RunnerIdle \<and> set (j_labels r) \<subseteq> set (r_labels a)"
  by (simp add: eligible_def)

lemma RequeueJob_healthy:
  assumes "db_script s = []" and "store_inv s" and "job_at s i = Some r"
    and "CanTransitionTo (j_status r) JobQueued"
  shows "RequeueJob i s = (Inr (), change_and_release i JobQueued requeue_extra r s)"
  using assms unfolding RequeueJob_def job_at_def by (intro finish_healthy) (auto dest: store_inv_D)

section \<open>The orphans of one tick\<close>

definition orphan_entries :: "duration \<Rightarrow> db \<Rightarrow> (string \<times> string) list" where
  "orphan_entries timeout s =
     map (\<lambda>r. (r_id r, case r_current_job_id r of None \<Rightarrow> [] | Some j \<Rightarrow> j))
       (filter (stale timeout (db_now s)) (runners s))"

definition orphan_jobs :: "(string \<times> string) list \<Rightarrow> string list" where
  "orphan_jobs es = filter (\<lambda>j. j \<noteq> []) (map snd es)"

lemma orphan_jobs_simps [simp]:
  "orphan_jobs [] = []"
  "orphan_jobs ((x, j) # es) = (if j = [] then orphan_jobs es else j # orphan_jobs es)"
  by (simp_all add: orphan_jobs_def)

lemma orphan_jobs_perm: "mset es = mset es' \<Longrightarrow> mset (orphan_jobs es) = mset (orphan_jobs es')"
  by (simp add: orphan_jobs_def mset_filter)

lemma orphan_jobs_rows:
  "(\<And>a. a \<in> set rs \<Longrightarrow> r_current_job_id a \<noteq> Some []) \<Longrightarrow>
   orphan_jobs (map (\<lambda>r. (r_id r, case r_current_job_id r of None \<Rightarrow> [] | Some j \<Rightarrow> j)) rs) =
   map (the \<circ> r_current_job_id) (filter (\<lambda>a. r_current_job_id a \<noteq> None) rs)"
  by (induction rs) (auto split: option.splits)

lemma orphan_entries_jobs:
  assumes inv: "own_inv {} s" and named: "job_at s [] = None"
  shows "set (orphan_jobs (orphan_entries timeout s)) = orphans timeout s"
    and "distinct (orphan_jobs (orphan_entries timeout s))"
proof -
  have si: "store_inv s" and b: "busy_ok s" using inv by (auto simp: own_inv_def)
  have at: "runner_at s (r_id a) = Some a" if "a \<in> set (runners s)" for a
    using si that by (simp add: runner_at_def row_at_distinct store_inv_def)
  let ?st = "filter (stale timeout (db_now s)) (runners s)"
  let ?hold = "filter (\<lambda>a. r_current_job_id a \<noteq> None) ?st"
  have eq: "orphan_jobs (orphan_entries timeout s) = map (the \<circ> r_current_job_id) ?hold"
    unfolding orphan_entries_def
    using b named at by (intro orphan_jobs_rows) (metis busy_okE filter_is_subset option.distinct(1) subsetD)
  have "j \<in> orphans timeout s \<longleftrightarrow> j \<in> (the \<circ> r_current_job_id) ` set ?hold" for j
    using at runner_at_row [OF si] by (fastforce simp: orphans_def image_iff)
  then show "set (orphan_jobs (orphan_entries timeout s)) = orphans timeout s"
    unfolding eq by auto
  have "distinct ?hold" using si by (simp add: store_inv_def distinct_map)
  moreover have "inj_on (the \<circ> r_current_job_id) (set ?hold)"
  proof (rule inj_onI)
    fix a c
    assume ac: "a \<in> set ?hold" "c \<in> set ?hold" "(the \<circ> r_current_job_id) a = (the \<circ> r_current_job_id) c"
    then obtain j where j: "r_current_job_id a = Some j" "r_current_job_id c = Some j" by auto
    have at_ac: "runner_at s (r_id a) = Some a" "runner_at s (r_id c) = Some c" using ac at by auto
    obtain r where "job_at s j = Some r" "j_runner_id r = Some (r_id a)"
      using busy_okE [OF b at_ac(1) j(1)] by blast
    moreover obtain r' where "job_at s j = Some r'" "j_runner_id r' = Some (r_id c)"
      using busy_okE [OF b at_ac(2) j(2)] by blast
    ultimately have "r_id a = r_id c" by simp
    then show "a = c" using at_ac(1) unfolding at_ac(2) [folded \<open>r_id a = r_id c\<close>] by simp
  qed
  ultimately show "distinct (orphan_jobs (orphan_entries timeout s))"
    unfolding eq by (simp add: distinct_map)
qed

lemma ReapOfflineRunners_healthy:
  "db_script s = [] \<Longrightarrow>
   ReapOfflineRunners timeout s = (Inr (orphan_entries timeout s), snd (reap_stale timeout s))"
  by (simp add: ReapOfflineRunners_def reap_stale_def orphan_entries_def Let_def)

lemma reap_stale_frame [simp]:
  "job_at (snd (reap_stale timeout s)) = job_at s"
  "db_script (snd (reap_stale timeout s)) = db_script s"
  "db_now (snd (reap_stale timeout s)) = db_now s"
  by (simp_all add: reap_stale_def Let_def)

section \<open>The service over the two contracts\<close>

locale scheduler_service =
  job_queue Q pending inflight mailbox up + scheduling_policy sched
  for Q :: "'q queue_ops" and pending inflight :: "'q \<Rightarrow> string list"
    and mailbox :: "'q \<Rightarrow> string \<Rightarrow> string list" and up :: "'q \<Rightarrow> bool"
    and sched :: "Job \<Rightarrow> Runner list \<Rightarrow> sched_error + Runner"
begin

lemma ack_up:
  assumes "up (w_queue w)"
  obtains q where "on_queue (q_Ack Q i) w = (None, w\<lparr>w_queue := q\<rparr>)" "up q"
    "pending q = pending (w_queue w)" "inflight q = remove1 i (inflight (w_queue w))"
    "mailbox q = mailbox (w_queue w)"
proof -
  obtain q where q: "q_Ack Q i (w_queue w) = (None, q)" "up q" using up_ack [OF assms] by blast
  with ack_ok [OF q(1)] show ?thesis by (intro that [of q]) (auto simp: on_defs)
qed

lemma requeue_up:
  assumes "up (w_queue w)"
  obtains q where "requeue Q i w = w\<lparr>w_queue := q\<rparr>" "up q"
    "pending q = pending (w_queue w) @ [i]" "inflight q = remove1 i (inflight (w_queue w))"
    "mailbox q = mailbox (w_queue w)"
proof -
  obtain q where q: "q_Requeue Q i (w_queue w) = (None, q)" "up q" using up_requeue [OF assms] by blast
  with requeue_ok [OF q(1)] show ?thesis by (intro that [of q]) (auto simp: requeue_def on_defs)
qed

text \<open>An id that is no longer waiting to be assigned is dropped, and nothing else changes.\<close>

lemma assign_drops:
  assumes "db_script (w_db w) = []" and "up (w_queue w)"
    and "\<And>r. job_at (w_db w) i = Some r \<Longrightarrow> j_status r \<noteq> JobQueued"
  shows "\<exists>q. assign Q sched hb i w = w\<lparr>w_queue := q\<rparr> \<and> up q \<and> pending q = pending (w_queue w)
    \<and> inflight q = remove1 i (inflight (w_queue w)) \<and> mailbox q = mailbox (w_queue w)"
proof -
  obtain q where q: "on_queue (q_Ack Q i) w = (None, w\<lparr>w_queue := q\<rparr>)" "up q"
    "pending q = pending (w_queue w)" "inflight q = remove1 i (inflight (w_queue w))"
    "mailbox q = mailbox (w_queue w)" using ack_up [OF assms(2)] by blast
  have "assign Q sched hb i w = w\<lparr>w_queue := q\<rparr>"
    using assms(1,3) q(1)
    by (auto simp: assign_def on_db_eq job_at_def split: option.splits)
  with q show ?thesis by blast
qed

text \<open>A waiting job with no runner for it goes to the end of the queue.\<close>

lemma assign_waits:
  assumes "db_script (w_db w) = []" and "up (w_queue w)"
    and "job_at (w_db w) i = Some r" and "j_status r = JobQueued"
    and "\<And>a. \<not> suits hb (w_db w) r a"
  shows "\<exists>q. assign Q sched hb i w = w\<lparr>w_queue := q\<rparr> \<and> up q \<and> pending q = pending (w_queue w) @ [i]
    \<and> inflight q = remove1 i (inflight (w_queue w)) \<and> mailbox q = mailbox (w_queue w)"
proof -
  obtain rs where rs: "IdleRunners hb (w_db w) = (Inr rs, w_db w)"
    "set rs = scanRunner ` {a \<in> set (runners (w_db w)). live_idle hb (db_now (w_db w)) a}"
    using IdleRunners_healthy [OF assms(1)] by blast
  have "sched (scanJob r) rs = Inl ErrNoRunner"
    using assms(5) rs(2) by (rule_tac cases_policy [of "scanJob r" rs]) (auto simp: eligible_scan suits_def)
  then have "assign Q sched hb i w = requeue Q i w"
    using assms(1,3,4) rs(1) by (simp add: assign_def on_db_eq job_at_def)
  with requeue_up [OF assms(2), of i] show ?thesis by metis
qed

text \<open>A waiting job with a runner for it is assigned and lands in that runner's mailbox.\<close>

lemma place_job_up:
  assumes "db_script (w_db w) = []" and "store_inv (w_db w)" and "up (w_queue w)"
    and "job_at (w_db w) i = Some r" and "j_status r = JobQueued"
    and "a \<in> set (runners (w_db w))" and "r_status a = RunnerIdle"
  shows "\<exists>q. place_job Q i (scanRunner a) w =
      w\<lparr>w_db := assign_effect i (r_id a) JobQueued (w_db w), w_queue := q\<rparr> \<and> up q
    \<and> pending q = pending (w_queue w) \<and> inflight q = remove1 i (inflight (w_queue w))
    \<and> mailbox q = (mailbox (w_queue w))(r_id a := mailbox (w_queue w) (r_id a) @ [i])"
proof -
  let ?s = "assign_effect i (r_id a) JobQueued (w_db w)"
  have "row_at r_id (r_id a) (runners (w_db w)) = Some a"
    using assms(2,6) by (simp add: row_at_distinct store_inv_def)
  then have as: "AssignJob i (r_id a) (w_db w) = (Inr (), ?s)"
    using assms unfolding job_at_def by (intro AssignJob_healthy) (auto simp: store_inv_def)
  obtain q1 where q1: "q_Dispatch Q (r_id a) i (w_queue w) = (None, q1)" "up q1"
    using up_dispatch [OF assms(3)] by blast
  let ?w = "w\<lparr>w_db := ?s, w_queue := q1\<rparr>"
  obtain q where q: "on_queue (q_Ack Q i) ?w = (None, ?w\<lparr>w_queue := q\<rparr>)" "up q"
    "pending q = pending q1" "inflight q = remove1 i (inflight q1)" "mailbox q = mailbox q1"
    using ack_up [of ?w i] q1(2) by auto
  have "place_job Q i (scanRunner a) w = ?w\<lparr>w_queue := q\<rparr>"
    using as q1 q(1) by (simp add: place_job_def on_defs)
  with q dispatch_ok [OF q1(1)] show ?thesis by auto
qed

lemma assign_places:
  assumes "db_script (w_db w) = []" and "store_inv (w_db w)" and "up (w_queue w)"
    and "job_at (w_db w) i = Some r" and "j_status r = JobQueued" and "suits hb (w_db w) r a0"
  shows "\<exists>a q. suits hb (w_db w) r a \<and> assign Q sched hb i w =
      w\<lparr>w_db := assign_effect i (r_id a) JobQueued (w_db w), w_queue := q\<rparr> \<and> up q
    \<and> pending q = pending (w_queue w) \<and> inflight q = remove1 i (inflight (w_queue w))
    \<and> mailbox q = (mailbox (w_queue w))(r_id a := mailbox (w_queue w) (r_id a) @ [i])"
proof -
  obtain rs where rs: "IdleRunners hb (w_db w) = (Inr rs, w_db w)"
    "set rs = scanRunner ` {a \<in> set (runners (w_db w)). live_idle hb (db_now (w_db w)) a}"
    using IdleRunners_healthy [OF assms(1)] by blast
  have "scanRunner a0 \<in> set rs" "eligible (scanJob r) (scanRunner a0)"
    using assms(6) rs(2) by (auto simp: suits_def eligible_scan live_idle_def)
  then obtain c where c: "sched (scanJob r) rs = Inr c" using finds by blast
  with picks [OF c] rs(2) obtain a where a: "c = scanRunner a" "suits hb (w_db w) r a"
    by (auto simp: suits_def eligible_scan)
  have "assign Q sched hb i w = place_job Q i (scanRunner a) w"
    using assms(1,4,5) rs(1) c a(1) by (simp add: assign_def on_db_eq job_at_def)
  with place_job_up [OF assms(1-5), of a] a(2) show ?thesis by (auto simp: suits_def live_idle_def)
qed

text \<open>A turn on a non-empty queue takes its head and hands it to \<open>assign\<close>.\<close>

lemma run_turn_head:
  assumes "up (w_queue w)" and "pending (w_queue w) = i # rest"
  obtains q where "run_turn Q sched hb w = assign Q sched hb i (w\<lparr>w_queue := q\<rparr>)" "up q"
    "pending q = rest" "inflight q = i # inflight (w_queue w)" "mailbox q = mailbox (w_queue w)"
proof -
  obtain j q where q: "q_Dequeue Q (2 * second) (w_queue w) = (Inr j, q)" "up q"
    using up_dequeue [OF assms(1), of "2 * second"] assms(2) by auto
  with dequeue_ok [OF q(1)] assms(2) have "j = i" "pending q = rest"
      "inflight q = i # inflight (w_queue w)" "mailbox q = mailbox (w_queue w)" by auto
  with q show ?thesis by (intro that [of q]) (auto simp: run_turn_def on_queue_eq)
qed

text \<open>
  Rescuing one orphan: its job waits again, the runner rows stay as the reaper left them, and the id
  is at the end of the queue.
\<close>

lemma rescue_one:
  assumes inv: "own_inv S (w_db w)" and script: "db_script (w_db w) = []" and up: "up (w_queue w)"
    and i: "i \<in> S" "i \<noteq> []" and job: "job_at (w_db w) i = Some r" "in_hand (j_status r)"
  shows "\<exists>s q. rescue Q (x, i) w = w\<lparr>w_db := s, w_queue := q\<rparr>
    \<and> own_inv (S - {i}) s \<and> db_script s = [] \<and> runner_at s = runner_at (w_db w)
    \<and> job_at s = (job_at (w_db w))(i \<mapsto> requeue_extra (db_now (w_db w)) (r\<lparr>j_status := JobQueued\<rparr>))
    \<and> up q \<and> pending q = pending (w_queue w) @ [i] \<and> inflight q = inflight (w_queue w)
    \<and> mailbox q = mailbox (w_queue w)"
proof -
  let ?s = "w_db w"
  let ?t = "change_and_release i JobQueued requeue_extra r ?s"
  have si: "store_inv ?s" and h: "held S ?s" using inv by (auto simp: own_inv_def)
  have tr: "CanTransitionTo (j_status r) JobQueued" using job(2) by (auto simp: in_hand_def)
  obtain y a where y: "j_runner_id r = Some y" "runner_at ?s y = Some a" "r_status a \<noteq> RunnerBusy"
    using heldE [OF h job] i(1) by auto
  have rq: "RequeueJob i ?s = (Inr (), ?t)" by (rule RequeueJob_healthy [OF script si job(1) tr])
  have own: "own_inv (S - {i}) ?t"
    by (rule own_release [OF inv job(1) lifecycle_change.to_queued tr]) (simp add: in_hand_def)
  have rn: "runner_at ?t = runner_at ?s"
    using y by (auto simp: change_and_release_def Let_def runner_at_released fun_eq_iff
        intro!: option.map_ident_strong)
  have jb: "job_at ?t = (job_at ?s)(i \<mapsto> requeue_extra (db_now ?s) (r\<lparr>j_status := JobQueued\<rparr>))"
    using job_at_change [OF job(1) lifecycle_change.to_queued] y
    by (simp add: change_and_release_def Let_def)
  have sc: "db_script ?t = []" using script y by (simp add: change_and_release_def Let_def)
  obtain q where q: "q_Enqueue Q i (w_queue w) = (None, q)" "up q" using up_enqueue [OF up] by blast
  have "rescue Q (x, i) w = w\<lparr>w_db := ?t, w_queue := q\<rparr>"
    using i(2) rq q by (simp add: rescue_def on_defs)
  with own rn jb sc q enqueue_ok [OF q(1)] show ?thesis by blast
qed

lemma rescue_all:
  assumes "own_inv (set (orphan_jobs es)) (w_db w)"
    and "db_script (w_db w) = []" and "up (w_queue w)" and "distinct (orphan_jobs es)"
    and "\<And>j. j \<in> set (orphan_jobs es) \<Longrightarrow>
      \<exists>r. job_at (w_db w) j = Some r \<and> in_hand (j_status r)"
  shows "\<exists>s q. fold (rescue Q) es w = w\<lparr>w_db := s, w_queue := q\<rparr>
    \<and> own_inv {} s \<and> db_script s = [] \<and> runner_at s = runner_at (w_db w)
    \<and> (\<forall>j. j \<in> set (orphan_jobs es) \<longrightarrow>
         (\<exists>r. job_at s j = Some r \<and> j_status r = JobQueued \<and> j_runner_id r = None))
    \<and> (\<forall>j. j \<notin> set (orphan_jobs es) \<longrightarrow> job_at s j = job_at (w_db w) j)
    \<and> up q \<and> pending q = pending (w_queue w) @ orphan_jobs es
    \<and> inflight q = inflight (w_queue w) \<and> mailbox q = mailbox (w_queue w)"
  using assms
proof (induction es arbitrary: w)
  case Nil
  then show ?case by (intro exI [of _ "w_db w"] exI [of _ "w_queue w"]) simp
next
  case (Cons e es)
  obtain x i where e: "e = (x, i)" by force
  show ?case
  proof (cases "i = []")
    case True
    then have "rescue Q e w = w" by (simp add: e rescue_def)
    with Cons True e show ?thesis by simp
  next
    case False
    let ?js = "orphan_jobs es"
    have js: "orphan_jobs (e # es) = i # ?js" using e False by simp
    obtain r where r: "job_at (w_db w) i = Some r" "in_hand (j_status r)"
      using Cons.prems(5) [of i] js by auto
    obtain s q where one: "rescue Q e w = w\<lparr>w_db := s, w_queue := q\<rparr>"
      "own_inv (set ?js) s" "db_script s = []" "runner_at s = runner_at (w_db w)"
      "job_at s = (job_at (w_db w))(i \<mapsto> requeue_extra (db_now (w_db w)) (r\<lparr>j_status := JobQueued\<rparr>))"
      "up q" "pending q = pending (w_queue w) @ [i]" "inflight q = inflight (w_queue w)"
      "mailbox q = mailbox (w_queue w)"
      using rescue_one [OF Cons.prems(1-3) _ False r, of x] Cons.prems(4) js e by auto
    have hand: "\<exists>r. job_at s j = Some r \<and> in_hand (j_status r)" if "j \<in> set ?js" for j
    proof -
      have "j \<noteq> i" using that Cons.prems(4) js by auto
      with that Cons.prems(5) [of j] js one(5) show ?thesis by auto
    qed
    have ni: "i \<notin> set ?js" "distinct ?js" using Cons.prems(4) js by auto
    let ?w = "w\<lparr>w_db := s, w_queue := q\<rparr>"
    obtain s' q' where rest: "fold (rescue Q) es ?w = ?w\<lparr>w_db := s', w_queue := q'\<rparr>"
      "own_inv {} s'" "db_script s' = []" "runner_at s' = runner_at s"
      "\<forall>j. j \<in> set ?js \<longrightarrow> (\<exists>r. job_at s' j = Some r \<and> j_status r = JobQueued \<and> j_runner_id r = None)"
      "\<forall>j. j \<notin> set ?js \<longrightarrow> job_at s' j = job_at s j"
      "up q'" "pending q' = pending q @ ?js" "inflight q' = inflight q" "mailbox q' = mailbox q"
      using Cons.IH [of ?w] one hand ni(2) by auto
    have "job_at s' i = Some (requeue_extra (db_now (w_db w)) (r\<lparr>j_status := JobQueued\<rparr>))"
      using rest(6) ni(1) one(5) by simp
    then have i: "\<exists>r. job_at s' i = Some r \<and> j_status r = JobQueued \<and> j_runner_id r = None"
      by (simp add: requeue_extra_def)
    show ?thesis
      unfolding js using rest one i
      by (intro exI [of _ s'] exI [of _ q']) auto
  qed
qed

text \<open>A tick of the reaper, with its orphans rescued in any order.\<close>

lemma reap_tick_up:
  assumes inv: "own_inv {} (w_db w)" and script: "db_script (w_db w) = []" and up: "up (w_queue w)"
    and named: "job_at (w_db w) [] = None" and ord: "\<And>es. mset (ord es) = mset es"
  shows "\<exists>s q js. reap_tick Q ord hb w = w\<lparr>w_db := s, w_queue := q\<rparr>
    \<and> own_inv {} s \<and> db_script s = []
    \<and> set js = orphans hb (w_db w) \<and> distinct js
    \<and> (\<forall>x. runner_at s x = map_option (\<lambda>a. if stale hb (db_now (w_db w)) a
         then a\<lparr>r_status := RunnerOffline, r_current_job_id := None\<rparr> else a) (runner_at (w_db w) x))
    \<and> (\<forall>j. if j \<in> set js then \<exists>r. job_at s j = Some r \<and> j_status r = JobQueued \<and> j_runner_id r = None
           else job_at s j = job_at (w_db w) j)
    \<and> up q \<and> pending q = pending (w_queue w) @ js
    \<and> inflight q = inflight (w_queue w) \<and> mailbox q = mailbox (w_queue w)"
proof -
  let ?s = "w_db w" and ?es = "ord (orphan_entries hb (w_db w))"
  let ?t = "snd (reap_stale hb ?s)"
  have si: "store_inv ?s" and b: "busy_ok ?s" using inv by (auto simp: own_inv_def)
  have perm: "mset (orphan_jobs ?es) = mset (orphan_jobs (orphan_entries hb ?s))"
    by (rule orphan_jobs_perm) (rule ord)
  note js = orphan_entries_jobs [OF inv named, of hb]
  have set_js: "set (orphan_jobs ?es) = orphans hb ?s" using mset_eq_setD [OF perm] js(1) by simp
  have dist: "distinct (orphan_jobs ?es)" using mset_eq_imp_distinct_iff [OF perm] js(2) by simp
  have hand: "\<exists>r. job_at ?s j = Some r \<and> in_hand (j_status r)" if "j \<in> orphans hb ?s" for j
    using that b by (auto simp: orphans_def elim!: busy_okE)
  have "reap_tick Q ord hb w = fold (rescue Q) ?es (w\<lparr>w_db := ?t\<rparr>)"
    using ReapOfflineRunners_healthy [OF script] by (simp add: reap_tick_def on_db_eq)
  with rescue_all [of ?es "w\<lparr>w_db := ?t\<rparr>"] own_reap [OF inv, of hb] script up dist hand set_js
  obtain s q where out: "reap_tick Q ord hb w = w\<lparr>w_db := s, w_queue := q\<rparr>"
    "own_inv {} s" "db_script s = []" "runner_at s = runner_at ?t"
    "\<forall>j. j \<in> set (orphan_jobs ?es) \<longrightarrow>
       (\<exists>r. job_at s j = Some r \<and> j_status r = JobQueued \<and> j_runner_id r = None)"
    "\<forall>j. j \<notin> set (orphan_jobs ?es) \<longrightarrow> job_at s j = job_at ?s j"
    "up q" "pending q = pending (w_queue w) @ orphan_jobs ?es"
    "inflight q = inflight (w_queue w)" "mailbox q = mailbox (w_queue w)"
    by auto
  show ?thesis
    using out set_js dist runner_at_reap [OF si, of hb]
    by (intro exI [of _ s] exI [of _ q] exI [of _ "orphan_jobs ?es"]) auto
qed

end

sublocale redis_server \<subseteq> service: scheduler_service
    "redis_queue R" "wait_list rlists" "hand_list rlists" "box rlists" up Schedule
  by unfold_locales

context redis_server
begin

lemma is_service:
  "scheduler_service (redis_queue R) (wait_list rlists) (hand_list rlists) (box rlists) up Schedule"
  by unfold_locales

end

end
