(* ===== verification/Service_Properties.thy ===== *)
theory Service_Properties
  imports Service_Behaviour Queue_Properties Sample_Data
begin

text \<open>
  The properties of \<^verbatim>\<open>internal/scheduler\<close>: the choice of the runner, the outcomes of a turn, the rescue of
  orphaned jobs, and what a failure at the wrong moment does. They hold for every Redis server with
  the documented behaviour; the witnesses run on \<open>mem_redis\<close> and the sample database.
\<close>

text \<open>C24: \<open>Schedule\<close> picks a candidate that is IDLE and has every label the job asks for, and among
  these one that was used least recently (never used before any used one, the smaller id among the
  never used); it reports ErrNoRunner exactly when no candidate qualifies.\<close>

theorem Schedule_correct:
  "case Schedule job candidates of
     Inr r \<Rightarrow> r \<in> set candidates \<and> r_status r = RunnerIdle \<and> set (j_labels job) \<subseteq> set (r_labels r)
       \<and> list_all (\<lambda>c. eligible job c \<longrightarrow>
           (case (r_last_assigned_at r, r_last_assigned_at c) of
              (None, None) \<Rightarrow> r_id r \<le> r_id c
            | (None, Some _) \<Rightarrow> True
            | (Some _, None) \<Rightarrow> False
            | (Some t, Some u) \<Rightarrow> t \<le> u)) candidates
   | Inl e \<Rightarrow> e = ErrNoRunner \<and> list_all (\<lambda>c. \<not> eligible job c) candidates"
proof (cases "schedule_loop job candidates None")
  case None
  then have "list_all (\<lambda>c. \<not> eligible job c) candidates" by (simp add: schedule_loop_None list_all_iff)
  with None show ?thesis by (simp add: Schedule_def)
next
  case (Some r)
  from schedule_loop_from [OF Some] have el: "r \<in> set candidates" "eligible job r" by auto
  have "list_all (\<lambda>c. eligible job c \<longrightarrow>
      (case (r_last_assigned_at r, r_last_assigned_at c) of
         (None, None) \<Rightarrow> r_id r \<le> r_id c
       | (None, Some _) \<Rightarrow> True
       | (Some _, None) \<Rightarrow> False
       | (Some t, Some u) \<Rightarrow> t \<le> u)) candidates"
    using schedule_loop_best [OF Some]
    by (fastforce simp: list_all_iff lessRecentlyUsed_def not_less split: option.splits)
  with el Some show ?thesis by (simp add: Schedule_def eligible_def)
qed

theorem Schedule_correct_witness:
  "Schedule (sample_job ''a'' ''11'') [scanRunner (hd (runners busy_pool)), scanRunner (hd (runners pool))]
    = Inr (scanRunner (hd (runners pool)))"
proof -
  let ?cs = "[scanRunner (hd (runners busy_pool)), scanRunner (hd (runners pool))]"
  have "r = scanRunner (hd (runners pool))" if "Schedule (sample_job ''a'' ''11'') ?cs = Inr r" for r
    using Schedule_correct [of "sample_job ''a'' ''11''" ?cs] that by auto
  moreover have "Schedule (sample_job ''a'' ''11'') ?cs \<noteq> Inl e" for e
    using Schedule_correct [of "sample_job ''a'' ''11''" ?cs]
    by (auto simp: eligible_def sample_job_def)
  ultimately show ?thesis by (cases "Schedule (sample_job ''a'' ''11'') ?cs") auto
qed

section \<open>A turn of the scheduler\<close>

text \<open>C4: While the database and Redis answer, \<open>assign\<close> of an id has one of three outcomes. A job that
  is unknown or not QUEUED: the id is dropped from the in-flight list and nothing else changes. A
  QUEUED job for which no live IDLE runner has the labels: nothing changes in the database and the id
  goes from the in-flight list to the end of the queue. Otherwise: the job is ASSIGNED to such a
  runner, which is BUSY with it, the id is the last entry of that runner's mailbox, and it leaves the
  in-flight list.\<close>

theorem assign_outcomes:
  assumes "redis_server R rlists up ttl" and "db_script (w_db w) = []" and "store_inv (w_db w)"
    and "up (w_queue w)" and "assign (redis_queue R) Schedule hb i w = w'"
  shows "hand_list rlists (w_queue w') = remove1 i (hand_list rlists (w_queue w)) \<and>
   (case job_at (w_db w) i of
      Some r \<Rightarrow>
        if j_status r \<noteq> JobQueued
        then w_db w' = w_db w \<and> wait_list rlists (w_queue w') = wait_list rlists (w_queue w)
          \<and> box rlists (w_queue w') = box rlists (w_queue w)
        else if \<not> Bex (set (runners (w_db w))) (suits hb (w_db w) r)
        then w_db w' = w_db w \<and> wait_list rlists (w_queue w') = wait_list rlists (w_queue w) @ [i]
          \<and> box rlists (w_queue w') = box rlists (w_queue w)
        else \<exists>a. suits hb (w_db w) r a
          \<and> job_at (w_db w') = (job_at (w_db w))(i \<mapsto> r\<lparr>j_status := JobAssigned,
               j_runner_id := Some (r_id a), j_attempts := j_attempts r + 1\<rparr>)
          \<and> runner_at (w_db w') = (runner_at (w_db w))(r_id a \<mapsto> a\<lparr>r_status := RunnerBusy,
               r_current_job_id := Some i, r_last_assigned_at := Some (db_now (w_db w))\<rparr>)
          \<and> wait_list rlists (w_queue w') = wait_list rlists (w_queue w)
          \<and> box rlists (w_queue w') = (box rlists (w_queue w))(r_id a := box rlists (w_queue w) (r_id a) @ [i])
    | None \<Rightarrow> w_db w' = w_db w \<and> wait_list rlists (w_queue w') = wait_list rlists (w_queue w)
          \<and> box rlists (w_queue w') = box rlists (w_queue w))"
proof -
  note svc = redis_server.is_service [OF assms(1)]
  note drop = scheduler_service.assign_drops [OF svc assms(2,4), of i hb, unfolded assms(5)]
  show ?thesis
  proof (cases "job_at (w_db w) i")
    case None
    then show ?thesis using drop by auto
  next
    case (Some r)
    consider (gone) "j_status r \<noteq> JobQueued"
      | (waits) "j_status r = JobQueued" "\<And>a. \<not> suits hb (w_db w) r a"
      | (placed) a where "j_status r = JobQueued" "suits hb (w_db w) r a" by blast
    then show ?thesis
    proof cases
      case gone
      then show ?thesis using drop Some by auto
    next
      case waits
      then show ?thesis
        using scheduler_service.assign_waits [OF svc assms(2,4) Some waits] assms(5) Some by auto
    next
      case (placed a0)
      obtain a q where a: "suits hb (w_db w) r a"
        "w' = w\<lparr>w_db := assign_effect i (r_id a) JobQueued (w_db w), w_queue := q\<rparr>"
        "wait_list rlists q = wait_list rlists (w_queue w)"
        "hand_list rlists q = remove1 i (hand_list rlists (w_queue w))"
        "box rlists q = (box rlists (w_queue w))(r_id a := box rlists (w_queue w) (r_id a) @ [i])"
        using scheduler_service.assign_places [OF svc assms(2-4) Some placed] assms(5) by auto
      have "runner_at (w_db w) (r_id a) = Some a" "r_status a = RunnerIdle"
        using a(1) assms(3) by (auto simp: suits_def live_idle_def runner_at_def store_inv_def row_at_distinct)
      then have "job_at (w_db w') = (job_at (w_db w))(i \<mapsto> r\<lparr>j_status := JobAssigned,
               j_runner_id := Some (r_id a), j_attempts := j_attempts r + 1\<rparr>)"
        "runner_at (w_db w') = (runner_at (w_db w))(r_id a \<mapsto> a\<lparr>r_status := RunnerBusy,
               r_current_job_id := Some i, r_last_assigned_at := Some (db_now (w_db w))\<rparr>)"
        using job_at_assign [OF Some placed(1)] runner_at_assign a(2) by auto
      moreover have "Bex (set (runners (w_db w))) (suits hb (w_db w) r)"
        using a(1) by (auto simp: suits_def)
      ultimately show ?thesis using a placed Some by auto
    qed
  qed
qed

definition sample_world :: "db \<Rightarrow> string list \<Rightarrow> string list \<Rightarrow> mem world" where
  "sample_world s waiting handed = \<lparr>w_db = s, w_queue = mem_with waiting handed []\<rparr>"

lemma sample_world_sel [simp]:
  "w_db (sample_world s w h) = s" "w_queue (sample_world s w h) = mem_with w h []"
  by (simp_all add: sample_world_def)

lemma pool_suits:
  "suits (30 * second) pool (hd (jobs pool)) a \<longleftrightarrow> a = hd (runners pool)"
  "Bex (set (runners pool)) (suits (30 * second) pool (hd (jobs pool)))"
  by (auto simp: pool_eq suits_def live_idle_def interval_of_def)

theorem assign_outcomes_witness:
  "\<exists>w'. assign (redis_queue mem_redis) Schedule (30 * second) ''a'' (sample_world pool [] [''a'']) = w'
     \<and> map_option j_status (job_at (w_db w') ''a'') = Some JobAssigned
     \<and> box m_lists (w_queue w') ''x'' = [''a''] \<and> hand_list m_lists (w_queue w') = []"
proof -
  let ?w' = "assign (redis_queue mem_redis) Schedule (30 * second) ''a'' (sample_world pool [] [''a''])"
  have "hand_list m_lists (w_queue ?w') = []"
    "job_at (w_db ?w') ''a'' = Some (hd (jobs pool)\<lparr>j_status := JobAssigned, j_runner_id := Some ''x'', j_attempts := 1\<rparr>)"
    "box m_lists (w_queue ?w') ''x'' = [''a'']"
    using assign_outcomes [OF mem.redis_server_axioms, of "sample_world pool [] [''a'']", OF _ _ _ refl,
        of "30 * second" "''a''"] pool_suits
    by (simp_all add: pool_inv cong: if_cong del: mult_numeral_1 mult_numeral_1_right)
  then show ?thesis by simp
qed

text \<open>A turn makes progress. While the database and Redis answer, when the id at the head of the
  queue is a QUEUED job and some live IDLE runner has its labels, one turn of \<open>Run\<close> leaves the job
  ASSIGNED to a runner and in that runner's mailbox, the rest of the queue as it was and nothing of it
  in flight.\<close>

theorem run_turn_assigns_head:
  assumes "redis_server R rlists up ttl" and "db_script (w_db w) = []" and "store_inv (w_db w)"
    and "up (w_queue w)" and "wait_list rlists (w_queue w) = i # rest"
    and "job_at (w_db w) i = Some r" and "j_status r = JobQueued" and "suits hb (w_db w) r a"
  shows "\<exists>w' x r'. run_turn (redis_queue R) Schedule hb w = w'
    \<and> job_at (w_db w') i = Some r' \<and> j_status r' = JobAssigned \<and> j_runner_id r' = Some x
    \<and> i \<in> set (box rlists (w_queue w') x)
    \<and> wait_list rlists (w_queue w') = rest \<and> hand_list rlists (w_queue w') = hand_list rlists (w_queue w)"
proof -
  note svc = redis_server.is_service [OF assms(1)]
  obtain q where q: "run_turn (redis_queue R) Schedule hb w = assign (redis_queue R) Schedule hb i (w\<lparr>w_queue := q\<rparr>)"
    "up q" "wait_list rlists q = rest" "hand_list rlists q = i # hand_list rlists (w_queue w)"
    using scheduler_service.run_turn_head [OF svc assms(4,5)] by metis
  let ?w = "w\<lparr>w_queue := q\<rparr>"
  have pre: "db_script (w_db ?w) = []" "store_inv (w_db ?w)" "up (w_queue ?w)" "job_at (w_db ?w) i = Some r"
    "suits hb (w_db ?w) r a" using assms(2,3,6,8) q(2) by simp_all
  from scheduler_service.assign_places [OF svc pre(1-4) assms(7) pre(5)] obtain b :: runner_row and q' where b: "assign (redis_queue R) Schedule hb i ?w =
      ?w\<lparr>w_db := assign_effect i (r_id b) JobQueued (w_db w), w_queue := q'\<rparr>"
    "wait_list rlists q' = wait_list rlists q" "hand_list rlists q' = remove1 i (hand_list rlists q)"
    "box rlists q' = (box rlists q)(r_id b := box rlists q (r_id b) @ [i])"
    by auto
  have "job_at (assign_effect i (r_id b) JobQueued (w_db w)) i =
      Some (r\<lparr>j_status := JobAssigned, j_runner_id := Some (r_id b), j_attempts := j_attempts r + 1\<rparr>)"
    using job_at_assign [OF assms(6,7)] by simp
  then show ?thesis using q b by auto
qed

theorem run_turn_assigns_head_witness:
  "\<exists>w' x r'. run_turn (redis_queue mem_redis) Schedule (30 * second) (sample_world pool [''a'', ''b''] []) = w'
    \<and> job_at (w_db w') ''a'' = Some r' \<and> j_status r' = JobAssigned \<and> j_runner_id r' = Some x
    \<and> ''a'' \<in> set (box m_lists (w_queue w') x) \<and> wait_list m_lists (w_queue w') = [''b'']"
  using run_turn_assigns_head [OF mem.redis_server_axioms, of "sample_world pool [''a'', ''b''] []" "''a''"
      "[''b'']" "hd (jobs pool)" "30 * second" "hd (runners pool)"] pool_suits(1)
  by (simp add: pool_inv) blast

section \<open>Silent runners\<close>

text \<open>C14: A tick of the reaper rescues every orphan. While the database and Redis answer and jobs and
  runners agree on who holds what, after the tick exactly the runners whose last heartbeat is older
  than the timeout are OFFLINE with no job, every job such a runner held is QUEUED with no runner and
  is appended once to the queue, every other job is untouched, and jobs and runners agree again, in
  whatever order Go iterates over the orphans.\<close>

theorem reap_tick_rescues:
  assumes "redis_server R rlists up ttl" and "own_inv {} (w_db w)" and "db_script (w_db w) = []"
    and "up (w_queue w)" and "job_at (w_db w) [] = None" and "\<And>es. mset (ord es) = mset es"
  shows "\<exists>s q js. reap_tick (redis_queue R) ord hb w = w\<lparr>w_db := s, w_queue := q\<rparr>
    \<and> own_inv {} s \<and> distinct js
    \<and> (\<forall>j. j \<in> set js \<longleftrightarrow> (\<exists>x a. runner_at (w_db w) x = Some a \<and> stale hb (db_now (w_db w)) a
         \<and> r_current_job_id a = Some j))
    \<and> (\<forall>x. runner_at s x = map_option (\<lambda>a. if stale hb (db_now (w_db w)) a
         then a\<lparr>r_status := RunnerOffline, r_current_job_id := None\<rparr> else a) (runner_at (w_db w) x))
    \<and> (\<forall>j. if j \<in> set js then \<exists>r. job_at s j = Some r \<and> j_status r = JobQueued \<and> j_runner_id r = None
           else job_at s j = job_at (w_db w) j)
    \<and> wait_list rlists q = wait_list rlists (w_queue w) @ js
    \<and> hand_list rlists q = hand_list rlists (w_queue w) \<and> box rlists q = box rlists (w_queue w)"
proof -
  have orph: "(j \<in> set js) = (\<exists>x a. runner_at (w_db w) x = Some a \<and> stale hb (db_now (w_db w)) a
         \<and> r_current_job_id a = Some j)" if "set js = orphans hb (w_db w)" for j js
    using that by (simp add: orphans_def)
  from scheduler_service.reap_tick_up [OF redis_server.is_service [OF assms(1)] assms(2-6), of hb] orph
  show ?thesis by (elim exE conjE) (intro exI conjI; (assumption | blast))
qed

definition late_pool :: db where
  "late_pool = busy_pool\<lparr>db_now := 200 * second\<rparr>"
  \<comment> \<open>a hundred seconds later, with no heartbeat since\<close>

lemma late_pool_own: "own_inv {} late_pool" and late_pool_script: "db_script late_pool = []"
  unfolding late_pool_def by (rule own_wait [OF busy_pool_own]) (simp_all add: busy_pool_eq)

lemma late_pool_at: "job_at late_pool [] = None"
  "\<exists>x a. runner_at late_pool x = Some a \<and> stale (30 * second) (db_now late_pool) a
      \<and> r_current_job_id a = Some ''a''"
  by (simp_all add: late_pool_def busy_pool_eq job_at_def runner_at_def stale_def interval_of_def)

theorem reap_tick_rescues_witness:
  "\<exists>s q js. reap_tick (redis_queue mem_redis) rev (30 * second) (sample_world late_pool [''b''] []) =
      (sample_world late_pool [''b''] [])\<lparr>w_db := s, w_queue := q\<rparr>
    \<and> wait_list m_lists q = [''b''] @ js \<and> ''a'' \<in> set js
    \<and> (\<exists>r. job_at s ''a'' = Some r \<and> j_status r = JobQueued)"
proof -
  obtain s q js where out:
    "reap_tick (redis_queue mem_redis) rev (30 * second) (sample_world late_pool [''b''] []) =
      (sample_world late_pool [''b''] [])\<lparr>w_db := s, w_queue := q\<rparr>"
    "''a'' \<in> set js"
    "if ''a'' \<in> set js then \<exists>r. job_at s ''a'' = Some r \<and> j_status r = JobQueued \<and> j_runner_id r = None
       else job_at s ''a'' = job_at late_pool ''a''"
    "wait_list m_lists q = [''b''] @ js"
    using reap_tick_rescues [OF mem.redis_server_axioms, of "sample_world late_pool [''b''] []" rev "30 * second",
        unfolded sample_world_sel mem_with_views, OF late_pool_own late_pool_script refl late_pool_at(1) mset_rev]
      late_pool_at(2) by blast
  then show ?thesis by auto
qed

section \<open>Failures\<close>

text \<open>The scheduler process keeps the database sound whatever fails around it, with any queue and
  any policy plugged in: after any number of turns of \<open>Run\<close> and after any reaper tick the tables are
  well formed, and no job has left the state machine or changed after it finished.\<close>

theorem scheduler_keeps_store_sound:
  assumes "store_inv (w_db w)" and "t \<in> {w_db (Run n Q sched hb w), w_db (reap_tick Q ord hb w)}"
  shows "store_inv t \<and> (\<forall>i a. job_at (w_db w) i = Some a \<longrightarrow>
    (\<exists>b. job_at t i = Some b \<and> job_path (j_status a) (j_status b)
       \<and> (Terminal (j_status a) \<longrightarrow> j_status b = j_status a \<and> j_completed_at b = j_completed_at a)))"
proof -
  have "db_steps (w_db w) t" using assms(2) Run_steps reap_tick_steps by blast
  then have "store_inv t" "jobs_evolved (w_db w) t"
    using store_inv.steps [OF _ assms(1)] job_history.steps [OF _ jobs_evolved_self] by blast+
  then show ?thesis
    by (fastforce simp: jobs_evolved_def job_at_def job_evolves_def dest: job_path_terminal)
qed

theorem scheduler_keeps_store_sound_witness:
  "store_inv (w_db (Run 3 (redis_queue mem_redis) Schedule (30 * second)
     (sample_world (pool\<lparr>db_script := [Okay, Fails ''down'']\<rparr>) [''a'', ''b''] [])))"
proof -
  have "store_inv (pool\<lparr>db_script := [Okay, Fails ''down'']\<rparr>)" by (rule store_inv.script [OF pool_inv])
  then show ?thesis
    using scheduler_keeps_store_sound [of "sample_world (pool\<lparr>db_script := [Okay, Fails ''down'']\<rparr>) [''a'', ''b''] []"
        _ 3 "redis_queue mem_redis" Schedule "30 * second"] by simp
qed

text \<open>One failed read loses the job for good. When the read of the job fails for any reason, not
  only because the job does not exist, \<open>assign\<close> acknowledges the id: the job stays QUEUED in the
  database, its id is in neither list of the queue, and a new delivery for the same build is refused
  as a duplicate.\<close>

theorem failed_read_drops_queued_job:
  assumes "redis_server R rlists up ttl" and "up (w_queue w)" and "db_script (w_db w) = [Fails msg]"
    and "job_at (w_db w) i = Some r" and "j_status r = JobQueued"
    and "wait_list rlists (w_queue w) = []" and "hand_list rlists (w_queue w) = [i]"
    and "same_build r j" and "j_status j = JobQueued"
  shows "\<exists>w'. assign (redis_queue R) Schedule hb i w = w'
    \<and> wait_list rlists (w_queue w') = [] \<and> hand_list rlists (w_queue w') = []
    \<and> job_at (w_db w') i = Some r \<and> fst (CreateJob j (w_db w')) = Inl ErrDuplicate"
proof -
  note q = redis_server.is_service [OF assms(1)]
  let ?w = "w\<lparr>w_db := (w_db w)\<lparr>db_script := []\<rparr>\<rparr>"
  have up: "up (w_queue ?w)" using assms(2) by simp
  obtain q' where q': "on_queue (q_Ack (redis_queue R) i) ?w = (None, ?w\<lparr>w_queue := q'\<rparr>)"
    "wait_list rlists q' = wait_list rlists (w_queue ?w)"
    "hand_list rlists q' = remove1 i (hand_list rlists (w_queue ?w))"
    using scheduler_service.ack_up [OF q up] by blast
  have "r \<in> set (jobs (w_db w))" using assms(4) by (auto simp: job_at_def dest: row_at_Some)
  with assms(5,8,9) have dup: "insert_conflict (jobs (w_db w)) j"
    by (auto simp: insert_conflict_def list_ex_iff index_covers_def)
  have "assign (redis_queue R) Schedule hb i w = ?w\<lparr>w_queue := q'\<rparr>"
    using assms(3) q'(1) by (simp add: assign_def on_db_eq GetJob_def db_exec_def)
  with q' assms(4,6,7) dup show ?thesis
    by (simp add: job_at_def CreateJob_def insert_job_def isUniqueViolation_def)
qed

theorem failed_read_drops_queued_job_witness:
  "\<exists>w'. assign (redis_queue mem_redis) Schedule (30 * second) ''a''
      (sample_world (pool\<lparr>db_script := [Fails ''timeout'']\<rparr>) [] [''a'']) = w'
    \<and> hand_list m_lists (w_queue w') = [] \<and> fst (CreateJob (sample_job ''c'' ''11'') (w_db w')) = Inl ErrDuplicate"
  using failed_read_drops_queued_job [OF mem.redis_server_axioms,
      of "sample_world (pool\<lparr>db_script := [Fails ''timeout'']\<rparr>) [] [''a'']" "''timeout''" "''a''" "hd (jobs pool)"
        "sample_job ''c'' ''11''" "30 * second"]
  by (simp add: job_at_def pool_eq same_build_def sample_job_def)

text \<open>A crash between the assignment and the dispatch strands the job. The job is ASSIGNED in the
  database, its id in flight and the mailbox empty; when the scheduler restarts, \<open>Recover\<close> returns the
  id and the first turn throws it away because the job is no longer QUEUED. Nothing is left in the
  queue or in a mailbox, and the job stays ASSIGNED.\<close>

theorem crash_before_dispatch_strands_job:
  assumes "redis_server R rlists up ttl" and "up (w_queue w)" and "db_script (w_db w) = []"
    and "job_at (w_db w) i = Some r" and "j_status r = JobAssigned"
    and "wait_list rlists (w_queue w) = []" and "hand_list rlists (w_queue w) = [i]"
  shows "\<exists>q. Run 1 (redis_queue R) Schedule hb w = w\<lparr>w_queue := q\<rparr>
    \<and> wait_list rlists q = [] \<and> hand_list rlists q = [] \<and> box rlists q = box rlists (w_queue w)"
proof -
  note svc = redis_server.is_service [OF assms(1)]
  obtain n q0 where q0: "q_Recover (redis_queue R) (w_queue w) = (Inr n, q0)" "up q0"
    using job_queue.up_recover [OF redis_server.is_queue [OF assms(1)] assms(2)] by blast
  then have v0: "wait_list rlists q0 = [i]" "hand_list rlists q0 = []" "box rlists q0 = box rlists (w_queue w)"
    using job_queue.recover_ok [OF redis_server.is_queue [OF assms(1)] q0(1)] assms(6,7) by auto
  let ?w = "w\<lparr>w_queue := q0\<rparr>"
  have up: "up (w_queue ?w)" "wait_list rlists (w_queue ?w) = i # []" using q0 v0 by auto
  obtain q1 where q1: "run_turn (redis_queue R) Schedule hb ?w =
      assign (redis_queue R) Schedule hb i (?w\<lparr>w_queue := q1\<rparr>)" "up q1" "wait_list rlists q1 = []"
    "hand_list rlists q1 = i # hand_list rlists (w_queue ?w)" "box rlists q1 = box rlists (w_queue ?w)"
    using scheduler_service.run_turn_head [OF svc up] by metis
  have "Run 1 (redis_queue R) Schedule hb w = run_turn (redis_queue R) Schedule hb ?w"
    using q0(1) by (simp add: Run_def on_queue_eq)
  with q1 scheduler_service.assign_drops [OF svc, of "?w\<lparr>w_queue := q1\<rparr>" i hb] assms(3-5) v0
  show ?thesis by auto
qed

theorem crash_before_dispatch_strands_job_witness:
  "\<exists>q. Run 1 (redis_queue mem_redis) Schedule (30 * second)
      (sample_world (snd (AssignJob ''a'' ''x'' pool)) [] [''a'']) =
      (sample_world (snd (AssignJob ''a'' ''x'' pool)) [] [''a''])\<lparr>w_queue := q\<rparr>
    \<and> wait_list m_lists q = [] \<and> hand_list m_lists q = [] \<and> box m_lists q ''x'' = []"
proof -
  let ?s = "snd (AssignJob ''a'' ''x'' pool)"
  have s: "db_script ?s = []" "job_at ?s ''a'' = Some (hd (jobs pool)\<lparr>j_status := JobAssigned,
      j_runner_id := Some ''x'', j_attempts := 1\<rparr>)"
    using job_at_assign [OF pool_at(1) pool_a(1), of "''x''"]
    by (simp_all add: assign_effect_def mark_assigned_def update_jobs_def)
  show ?thesis
    using crash_before_dispatch_strands_job [OF mem.redis_server_axioms, of "sample_world ?s [] [''a'']",
        unfolded sample_world_sel mem_with_views, OF refl s _ refl refl, of "30 * second"]
    by auto
qed

end
