(* ===== verification/Go_Strings.thy ===== *)
theory Go_Strings
  imports Prelude
begin

text \<open>
  The functions of Go's standard library on strings that the program calls, on strings as lists of
  bytes: \<^verbatim>\<open>strings.HasPrefix\<close>, \<^verbatim>\<open>TrimPrefix\<close>, \<^verbatim>\<open>HasSuffix\<close>, \<^verbatim>\<open>TrimSuffix\<close>, \<^verbatim>\<open>Contains\<close>, \<^verbatim>\<open>Trim\<close>, \<^verbatim>\<open>TrimSpace\<close>, \<^verbatim>\<open>Split\<close>, \<^verbatim>\<open>Join\<close>, \<^verbatim>\<open>ReplaceAll\<close>,
  \<^verbatim>\<open>ToLower\<close>, \<^verbatim>\<open>strconv.Atoi\<close> and \<^verbatim>\<open>Itoa\<close>, \<^verbatim>\<open>encoding/hex\<close>, and \<^verbatim>\<open>io.ReadAll\<close> over \<^verbatim>\<open>http.MaxBytesReader\<close>.
\<close>

section \<open>Package strings\<close>

fun HasPrefix :: "string \<Rightarrow> string \<Rightarrow> bool" where
  "HasPrefix s [] \<longleftrightarrow> True"
| "HasPrefix [] (p # ps) \<longleftrightarrow> False"
| "HasPrefix (c # s) (p # ps) \<longleftrightarrow> c = p \<and> HasPrefix s ps"

definition TrimPrefix :: "string \<Rightarrow> string \<Rightarrow> string" where
  "TrimPrefix s p = (if HasPrefix s p then drop (length p) s else s)"

definition HasSuffix :: "string \<Rightarrow> string \<Rightarrow> bool" where
  "HasSuffix s x \<longleftrightarrow> length x \<le> length s \<and> drop (length s - length x) s = x"

definition TrimSuffix :: "string \<Rightarrow> string \<Rightarrow> string" where
  "TrimSuffix s x = (if HasSuffix s x then take (length s - length x) s else s)"

fun Contains :: "string \<Rightarrow> string \<Rightarrow> bool" where
  "Contains [] sub \<longleftrightarrow> sub = []"
| "Contains (c # s) sub \<longleftrightarrow> HasPrefix (c # s) sub \<or> Contains s sub"

definition Trim :: "string \<Rightarrow> string \<Rightarrow> string" where
  "Trim s cutset = rev (dropWhile (\<lambda>c. c \<in> set cutset) (rev (dropWhile (\<lambda>c. c \<in> set cutset) s)))"

definition ascii_space :: string where
  "ascii_space = map char_of [9 :: nat, 10, 11, 12, 13, 32]"

definition TrimSpace :: "string \<Rightarrow> string" where
  "TrimSpace s = Trim s ascii_space"

fun split_on :: "char \<Rightarrow> string \<Rightarrow> string list" where
  "split_on sep [] = [[]]"
| "split_on sep (c # s) =
     (if c = sep then [] # split_on sep s
      else (case split_on sep s of [] \<Rightarrow> [[c]] | w # ws \<Rightarrow> (c # w) # ws))"

fun join_with :: "string \<Rightarrow> string list \<Rightarrow> string" where
  "join_with sep [] = []"
| "join_with sep [s] = s"
| "join_with sep (s # ss) = s @ sep @ join_with sep ss"

text \<open>\<open>ReplaceAll s old new\<close> for a non-empty \<open>old\<close>; Go inserts \<open>new\<close> between all characters otherwise.\<close>

function ReplaceAll :: "string \<Rightarrow> string \<Rightarrow> string \<Rightarrow> string" where
  "ReplaceAll s old new =
     (if old = [] \<or> s = [] then s
      else if HasPrefix s old then new @ ReplaceAll (drop (length old) s) old new
      else hd s # ReplaceAll (tl s) old new)"
  by pat_completeness auto

termination
  by (relation "measure (\<lambda>(s, old, new). length s)") (auto simp: neq_Nil_conv)

declare ReplaceAll.simps [simp del]

definition to_lower :: "char \<Rightarrow> char" where
  "to_lower c = (let n = of_char c :: nat in if 65 \<le> n \<and> n \<le> 90 then char_of (n + 32) else c)"

definition ToLower :: "string \<Rightarrow> string" where
  "ToLower s = map to_lower s"

section \<open>Package strconv\<close>

definition digit_value :: "char \<Rightarrow> int option" where
  "digit_value c = (let n = of_char c :: nat in if 48 \<le> n \<and> n \<le> 57 then Some (int n - 48) else None)"

fun digits_value :: "int \<Rightarrow> string \<Rightarrow> int option" where
  "digits_value acc [] = Some acc"
| "digits_value acc (c # s) =
     (case digit_value c of None \<Rightarrow> None | Some d \<Rightarrow> digits_value (acc * 10 + d) s)"

text \<open>\<open>Atoi\<close>: an optional sign, at least one decimal digit and nothing else, within 64 bits.\<close>

definition in_int64 :: "int \<Rightarrow> bool" where
  "in_int64 n \<longleftrightarrow> - (2 ^ 63) \<le> n \<and> n < 2 ^ 63"

definition Atoi :: "string \<Rightarrow> int option" where
  "Atoi s =
     (let (neg, ds) = (case s of c # cs \<Rightarrow> if c = CHR ''-'' then (True, cs)
                                        else if c = CHR ''+'' then (False, cs) else (False, s)
                       | [] \<Rightarrow> (False, s))
      in if ds = [] then None
         else case digits_value 0 ds of
                None \<Rightarrow> None
              | Some n \<Rightarrow> (let v = if neg then - n else n in if in_int64 v then Some v else None))"

fun nat_digits :: "nat \<Rightarrow> string" where
  "nat_digits n = (if n < 10 then [char_of (48 + n)] else nat_digits (n div 10) @ [char_of (48 + n mod 10)])"

declare nat_digits.simps [simp del]

definition Itoa :: "int \<Rightarrow> string" where
  "Itoa n = (if n < 0 then CHR ''-'' # nat_digits (nat (- n)) else nat_digits (nat n))"

section \<open>Package encoding/hex\<close>

definition hex_digit :: "nat \<Rightarrow> char" where
  "hex_digit n = (if n < 10 then char_of (48 + n) else char_of (87 + n))"

fun hex_encode :: "string \<Rightarrow> string" where
  "hex_encode [] = []"
| "hex_encode (c # s) = hex_digit (of_char c div 16) # hex_digit (of_char c mod 16) # hex_encode s"

definition hex_value :: "char \<Rightarrow> nat option" where
  "hex_value c = (let n = of_char c :: nat in
     if 48 \<le> n \<and> n \<le> 57 then Some (n - 48)
     else if 97 \<le> n \<and> n \<le> 102 then Some (n - 87)
     else if 65 \<le> n \<and> n \<le> 70 then Some (n - 55)
     else None)"

fun hex_decode :: "string \<Rightarrow> string option" where
  "hex_decode [] = Some []"
| "hex_decode [c] = None"
| "hex_decode (a # b # s) =
     (case (hex_value a, hex_value b, hex_decode s) of
        (Some x, Some y, Some r) \<Rightarrow> Some (char_of (x * 16 + y) # r)
      | _ \<Rightarrow> None)"

section \<open>Package encoding/base64\<close>

definition std_alphabet :: string where
  "std_alphabet = ''ABCDEFGHIJKLMNOPQRSTUVWXYZabcdefghijklmnopqrstuvwxyz0123456789+/''"

definition url_alphabet :: string where
  "url_alphabet = ''ABCDEFGHIJKLMNOPQRSTUVWXYZabcdefghijklmnopqrstuvwxyz0123456789-_''"

text \<open>The groups of six bits of each three bytes; a short last group is padded with zero bits.\<close>

fun sextets :: "nat list \<Rightarrow> nat list" where
  "sextets (a # b # c # r) =
     (a div 4) # ((a mod 4) * 16 + b div 16) # ((b mod 16) * 4 + c div 64) # (c mod 64) # sextets r"
| "sextets [a, b] = [a div 4, (a mod 4) * 16 + b div 16, (b mod 16) * 4]"
| "sextets [a] = [a div 4, (a mod 4) * 16]"
| "sextets [] = []"

definition base64_raw :: "string \<Rightarrow> string \<Rightarrow> string" where
  "base64_raw alphabet s = map (\<lambda>n. alphabet ! n) (sextets (map of_char s))"

definition RawURLEncoding :: "string \<Rightarrow> string" where
  "RawURLEncoding s = base64_raw url_alphabet s"

definition StdEncoding :: "string \<Rightarrow> string" where
  "StdEncoding s = base64_raw std_alphabet s @ replicate ((3 - length s mod 3) mod 3) CHR ''=''"

section \<open>Bounded reads\<close>

definition ReadAll_limited :: "nat \<Rightarrow> string \<Rightarrow> string option" where
  "ReadAll_limited limit body = (if length body \<le> limit then Some body else None)"
  \<comment> \<open>\<open>io.ReadAll(http.MaxBytesReader(w, r.Body, limit))\<close>\<close>

section \<open>Facts\<close>

lemma HasPrefix_iff: "HasPrefix s p \<longleftrightarrow> (\<exists>r. s = p @ r)"
  by (induction s p rule: HasPrefix.induct) auto

lemma HasPrefix_append [simp]: "HasPrefix (p @ r) p"
  by (auto simp: HasPrefix_iff)

lemma TrimPrefix_append [simp]: "TrimPrefix (p @ r) p = r"
  by (simp add: TrimPrefix_def)

lemma Contains_char: "Contains s [c] \<longleftrightarrow> c \<in> set s"
  by (induction s) auto

lemma Contains_iff: "Contains s sub \<longleftrightarrow> (\<exists>a b. s = a @ sub @ b)"
proof (induction s)
  case Nil
  then show ?case by auto
next
  case (Cons c s)
  show ?case
  proof
    assume "Contains (c # s) sub"
    then consider r where "c # s = [] @ sub @ r" | a b where "c # s = (c # a) @ sub @ b"
      using Cons by (auto simp del: HasPrefix.simps simp: HasPrefix_iff)
    then show "\<exists>a b. c # s = a @ sub @ b" by cases blast+
  next
    assume "\<exists>a b. c # s = a @ sub @ b"
    then obtain a b where ab: "c # s = a @ sub @ b" by blast
    show "Contains (c # s) sub"
    proof (cases a)
      case Nil
      with ab have "HasPrefix (c # s) sub" by (auto simp del: HasPrefix.simps simp: HasPrefix_iff)
      then show ?thesis by simp
    next
      case (Cons d as)
      with ab have "s = as @ sub @ b" by simp
      then show ?thesis using Cons.IH by auto
    qed
  qed
qed

lemma Trim_empty: "Trim s cutset = [] \<longleftrightarrow> set s \<subseteq> set cutset"
proof -
  have "Trim s cutset = [] \<longleftrightarrow> (\<forall>x \<in> set (dropWhile (\<lambda>c. c \<in> set cutset) s). x \<in> set cutset)"
    by (auto simp: Trim_def dropWhile_eq_Nil_conv)
  also have "\<dots> \<longleftrightarrow> set s \<subseteq> set cutset"
    by (induction s) auto
  finally show ?thesis .
qed

lemma hex_value_digit: "n < 16 \<Longrightarrow> hex_value (hex_digit n) = Some n"
  by (auto simp: hex_value_def hex_digit_def Let_def)

lemma hex_round_trip: "hex_decode (hex_encode s) = Some s"
proof (induction s)
  case (Cons c s)
  have "of_char c < (256 :: nat)" by simp
  then have "of_char c div 16 < (16 :: nat)" by (simp add: less_mult_imp_div_less)
  with Cons show ?case by (simp add: hex_value_digit)
qed simp

text \<open>Base64 is injective: the bytes are recovered from the groups of six bits.\<close>

fun unsextets :: "nat list \<Rightarrow> nat list" where
  "unsextets (p # q # r # s # t) = (p * 4 + q div 16) # ((q mod 16) * 16 + r div 4) # ((r mod 4) * 64 + s) # unsextets t"
| "unsextets [p, q, r] = [p * 4 + q div 16, (q mod 16) * 16 + r div 4]"
| "unsextets [p, q] = [p * 4 + q div 16]"
| "unsextets [p] = []"
| "unsextets [] = []"

lemma sextet_parts:
  fixes a b c :: nat
  assumes "a < 256" "b < 256" "c < 256"
  shows "a div 4 * 4 + (a mod 4 * 16 + b div 16) div 16 = a"
    and "(a mod 4 * 16 + b div 16) mod 16 * 16 + (b mod 16 * 4 + c div 64) div 4 = b"
    and "(b mod 16 * 4 + c div 64) mod 4 * 64 + c mod 64 = c"
proof -
  have b: "b div 16 < 16" and c: "c div 64 < 4" using assms by simp_all
  show "a div 4 * 4 + (a mod 4 * 16 + b div 16) div 16 = a" using b by simp
  show "(a mod 4 * 16 + b div 16) mod 16 * 16 + (b mod 16 * 4 + c div 64) div 4 = b"
    using b c by (simp add: mod_less)
  show "(b mod 16 * 4 + c div 64) mod 4 * 64 + c mod 64 = c" using c by (simp add: mod_less)
qed

lemma unsextets_sextets: "list_all (\<lambda>n. n < 256) ns \<Longrightarrow> unsextets (sextets ns) = ns"
proof (induction ns rule: sextets.induct)
  case (1 a b c r)
  then have "b div 16 < 16" "c div 64 < 4" by auto
  with 1 show ?case by (simp add: mod_less)
next
  case (2 a b)
  then show ?case using sextet_parts [of a b 0] by simp
next
  case (3 a)
  then show ?case using sextet_parts [of a 0 0] by simp
qed simp

lemma sextets_bound: "list_all (\<lambda>n. n < 256) ns \<Longrightarrow> n \<in> set (sextets ns) \<Longrightarrow> n < 64"
proof (induction ns rule: sextets.induct)
  case (1 a b c r)
  have "(a mod 4) * 16 + b div 16 < 64" "(b mod 16) * 4 + c div 64 < 64"
    using 1(2) less_mult_imp_div_less [of b 16 16] less_mult_imp_div_less [of c 4 64]
      mod_less_divisor [of 4 a] mod_less_divisor [of 16 b] by simp_all
  with 1 show ?case by auto
next
  case (2 a b)
  have "(a mod 4) * 16 + b div 16 < 64" "(b mod 16) * 4 < 64"
    using 2 less_mult_imp_div_less [of b 16 16] mod_less_divisor [of 4 a] mod_less_divisor [of 16 b]
    by simp_all
  with 2 show ?case by auto
next
  case (3 a)
  have "(a mod 4) * 16 < 64" using mod_less_divisor [of 4 a] by simp
  with 3 show ?case by auto
qed simp

lemma std_alphabet_distinct: "distinct std_alphabet" "length std_alphabet = 64"
  by (simp_all add: std_alphabet_def)

lemma url_alphabet_distinct: "distinct url_alphabet" "length url_alphabet = 64"
  by (simp_all add: url_alphabet_def)

lemma base64_raw_inj:
  assumes al: "distinct alphabet" "length alphabet = 64"
    and eq: "base64_raw alphabet s = base64_raw alphabet t"
  shows "s = t"
proof -
  have byte: "list_all (\<lambda>n. n < 256) (map of_char u :: nat list)" for u :: string
    by (simp add: list_all_iff)
  have inj: "inj_on (\<lambda>n. alphabet ! n) {..<64}" using al by (simp add: inj_on_nth)
  have sub: "set (sextets (map of_char u)) \<subseteq> {..<64}" for u :: string
    using sextets_bound [OF byte] by auto
  have "sextets (map of_char s) = sextets (map of_char t)"
    using eq inj sub unfolding base64_raw_def
    by (subst (asm) inj_on_map_eq_map) (auto intro: inj_on_subset)
  then have "map of_char s = (map of_char t :: nat list)"
    using unsextets_sextets [OF byte] by metis
  moreover have "inj (of_char :: char \<Rightarrow> nat)" by (rule inj_of_char)
  ultimately show ?thesis by (simp add: inj_map_eq_map)
qed

lemma split_on_not_Nil [simp]: "split_on c s \<noteq> []"
  by (induction s) (auto split: list.splits)

lemma ReplaceAll_Nil [simp]: "ReplaceAll [] old new = []"
  by (simp add: ReplaceAll.simps)

end
