(* ===== verification/Github_Webhook.thy ===== *)
theory Github_Webhook
  imports Go_Strings
begin

text \<open>
  \<^verbatim>\<open>internal/github/webhook.go\<close>: the signature check and the parser of webhook payloads. The keyed hash
  (HMAC-SHA256) and the decoders that \<^verbatim>\<open>encoding/json\<close> derives from the payload structs are arguments:
  the theorems hold whatever they return, and \<^verbatim>\<open>Wire\<close> gives the decoders. \<^verbatim>\<open>hmac.Equal\<close> is equality of bytes; that it takes constant
  time is not part of the model. Errors are values that name the branch they come from.
\<close>

datatype signature_error = NoSecret | MalformedHeader | NotHex | SignatureMismatch

definition VerifySignature ::
  "(string \<Rightarrow> string \<Rightarrow> string) \<Rightarrow> string \<Rightarrow> string \<Rightarrow> string \<Rightarrow> signature_error option" where
  "VerifySignature hmac secret body header =
     (if secret = [] then Some NoSecret
      else if \<not> HasPrefix header ''sha256='' then Some MalformedHeader
      else
        let want = hmac secret body in
        case hex_decode (TrimPrefix header ''sha256='') of
          None \<Rightarrow> Some NotHex
        | Some got \<Rightarrow> if want \<noteq> got then Some SignatureMismatch else None)"

record Event =
  ev_Repository :: string
  ev_CloneURL :: string
  ev_CommitSHA :: string
  ev_Branch :: string
  ev_EventType :: string
  ev_PRNumber :: int

record pushPayload =
  pu_Ref :: string
  pu_After :: string
  pu_Deleted :: bool
  pu_FullName :: string
  pu_CloneURL :: string

record pullRequestPayload =
  pr_Action :: string
  pr_Number :: int
  pr_SHA :: string
  pr_Ref :: string
  pr_FullName :: string
  pr_CloneURL :: string

datatype event_error =
    ErrIgnored
  | DecodePush string
  | DecodePullRequest string
  | InvalidRepository string
  | InvalidCommit string
  | InvalidCloneURL string
  | EmptyBranch

definition hex_digits :: string where
  "hex_digits = ''0123456789abcdef''"

definition validate :: "Event \<Rightarrow> event_error option" where
  "validate e =
     (if \<not> Contains (ev_Repository e) ''/'' then Some (InvalidRepository (ev_Repository e))
      else if length (ev_CommitSHA e) \<noteq> 40 \<or> Trim (ev_CommitSHA e) hex_digits \<noteq> []
        then Some (InvalidCommit (ev_CommitSHA e))
      else if \<not> HasPrefix (ev_CloneURL e) ''https://'' then Some (InvalidCloneURL (ev_CloneURL e))
      else if ev_Branch e = [] then Some EmptyBranch
      else None)"

definition checked :: "Event \<Rightarrow> event_error + Event" where
  "checked e = (case validate e of None \<Rightarrow> Inr e | Some err \<Rightarrow> Inl err)"
  \<comment> \<open>\<open>return e, validate(e)\<close>, which every caller reads as the error when there is one\<close>

definition ParseEvent ::
  "(string \<Rightarrow> string + pushPayload) \<Rightarrow> (string \<Rightarrow> string + pullRequestPayload) \<Rightarrow>
   string \<Rightarrow> string \<Rightarrow> event_error + Event" where
  "ParseEvent push_of pr_of eventType body =
     (if eventType = ''push'' then
        (case push_of body of
           Inl e \<Rightarrow> Inl (DecodePush e)
         | Inr p \<Rightarrow>
             if pu_Deleted p \<or> \<not> HasPrefix (pu_Ref p) ''refs/heads/'' then Inl ErrIgnored
             else checked \<lparr>ev_Repository = pu_FullName p, ev_CloneURL = pu_CloneURL p,
                    ev_CommitSHA = pu_After p, ev_Branch = TrimPrefix (pu_Ref p) ''refs/heads/'',
                    ev_EventType = ''push'', ev_PRNumber = 0\<rparr>)
      else if eventType = ''pull_request'' then
        (case pr_of body of
           Inl e \<Rightarrow> Inl (DecodePullRequest e)
         | Inr p \<Rightarrow>
             if pr_Action p \<notin> set [''opened'', ''synchronize'', ''reopened''] then Inl ErrIgnored
             else checked \<lparr>ev_Repository = pr_FullName p, ev_CloneURL = pr_CloneURL p,
                    ev_CommitSHA = pr_SHA p, ev_Branch = pr_Ref p,
                    ev_EventType = ''pull_request'', ev_PRNumber = pr_Number p\<rparr>)
      else if eventType = ''ping'' then Inl ErrIgnored
      else Inl ErrIgnored)"

section \<open>Facts\<close>

definition buildable :: "Event \<Rightarrow> bool" where
  "buildable e \<longleftrightarrow> CHR ''/'' \<in> set (ev_Repository e) \<and> length (ev_CommitSHA e) = 40
     \<and> set (ev_CommitSHA e) \<subseteq> set ''0123456789abcdef'' \<and> (\<exists>r. ev_CloneURL e = ''https://'' @ r)
     \<and> ev_Branch e \<noteq> []"

lemma validate_None: "validate e = None \<longleftrightarrow> buildable e"
  by (auto simp: validate_def buildable_def Contains_char Trim_empty hex_digits_def HasPrefix_iff)

lemma checked_Inr: "checked e = Inr e' \<longleftrightarrow> e' = e \<and> buildable e"
  by (auto simp: checked_def validate_None [symmetric] split: option.splits)

lemma VerifySignature_None:
  "VerifySignature hmac secret body header = None \<longleftrightarrow>
   secret \<noteq> [] \<and> (\<exists>sig. header = ''sha256='' @ sig \<and> hex_decode sig = Some (hmac secret body))"
proof (cases "HasPrefix header ''sha256=''")
  case True
  then obtain sig where "header = ''sha256='' @ sig" by (auto simp: HasPrefix_iff)
  then show ?thesis by (auto simp: VerifySignature_def Let_def TrimPrefix_def split: option.splits)
next
  case False
  then show ?thesis by (auto simp: VerifySignature_def HasPrefix_iff)
qed

lemma ParseEvent_Inr:
  assumes "ParseEvent push_of pr_of eventType body = Inr e"
  shows "buildable e \<and> ev_EventType e = eventType \<and> (eventType = ''push'' \<or> eventType = ''pull_request'')"
  using assms
  by (auto simp: ParseEvent_def checked_Inr split: if_splits sum.splits)

end
