(* ===== verification/Api.thy ===== *)
theory Api
  imports Service Config Github_Webhook
begin

text \<open>
  The package \<^verbatim>\<open>internal/api\<close>: the HTTP surface of the control plane. A request carries its headers, the
  \<open>id\<close> of its path, the \<open>limit\<close> of its query, its body, and the random values drawn while it is served;
  a handler is a function of the server, the request and the state of the control plane, and returns
  the response and the new state. The state adds to the database and the queue the GitHub client and
  the commit statuses that \<^verbatim>\<open>go s.report(...)\<close> has still to send. What the handlers take from outside the
  repository is in the record \<open>server\<close>: the hash functions and the decoders of the JSON bodies, which \<^verbatim>\<open>Wire\<close> gives. Log
  lines are left out.
\<close>

section \<open>Requests, responses and the server\<close>

record request =
  rq_header :: "string \<Rightarrow> string"  \<comment> \<open>\<open>Header.Get\<close>: empty when the header is missing\<close>
  rq_id :: string  \<comment> \<open>\<open>PathValue("id")\<close>\<close>
  rq_limit :: string
  rq_body :: string
  rq_gone :: bool  \<comment> \<open>the client closed the connection\<close>
  rq_uuid :: string  \<comment> \<open>what \<open>uuid.NewString()\<close> returns\<close>
  rq_random :: "string + string"  \<comment> \<open>what \<open>rand.Read\<close> of 32 bytes returns\<close>
  rq_request_uuid :: string  \<comment> \<open>the \<open>uuid.NewString()\<close> of \<open>withRequestID\<close>\<close>

record registerRequest =
  rg_Name :: string
  rg_Labels :: "string list"
  rg_Architecture :: string
  rg_OS :: string

record resultRequest =
  rr_Status :: string
  rr_ExitCode :: int
  rr_Error :: string

datatype body =
    Empty
  | ErrorMsg string
  | EventError event_error
  | Fields "(string \<times> string) list"
  | RegisterResponse string string
  | HeartbeatResponse string bool
  | JobBody Job
  | JobList "Job list"
  | RunnerBody Runner
  | RunnerList "Runner list"
  | JobDelivery Job string
  | PlainText string

record response =
  rs_code :: int
  rs_body :: body
  rs_request_id :: string

definition respond :: "int \<Rightarrow> body \<Rightarrow> response" where
  "respond code b = \<lparr>rs_code = code, rs_body = b, rs_request_id = []\<rparr>"

definition writeJSON :: "int \<Rightarrow> body \<Rightarrow> response" where
  "writeJSON code b = respond code b"

definition writeError :: "int \<Rightarrow> string \<Rightarrow> response" where
  "writeError code msg = writeJSON code (ErrorMsg msg)"

text \<open>
  \<^verbatim>\<open>json.NewDecoder(http.MaxBytesReader(w, r.Body, n)).Decode\<close> reads one value from the first \<open>n\<close> bytes of the
  body; \<open>limited\<close> says whether the reader ends in an error there.
\<close>

type_synonym 'a decoder = "string \<Rightarrow> bool \<Rightarrow> string + 'a"

definition decode_limited :: "'a decoder \<Rightarrow> nat \<Rightarrow> string \<Rightarrow> string + 'a" where
  "decode_limited dec limit b = dec (take limit b) (limit < length b)"

record 'g github_ops =
  gh_SetStatus :: "string \<Rightarrow> string \<Rightarrow> string \<Rightarrow> string \<Rightarrow> string \<Rightarrow> 'g \<Rightarrow> string option \<times> 'g"
  gh_CloneToken :: "string \<Rightarrow> 'g \<Rightarrow> (string \<times> string option) \<times> 'g"

record ('q, 'g) server =
  sv_cfg :: Config
  sv_queue :: "'q queue_ops"
  sv_github :: "'g github_ops"
  sv_sha256 :: "string \<Rightarrow> string"
  sv_hmac :: "string \<Rightarrow> string \<Rightarrow> string"
  sv_register :: "registerRequest decoder"
  sv_heartbeat :: "string decoder"  \<comment> \<open>the \<open>job_id\<close> of a heartbeat\<close>
  sv_result :: "resultRequest decoder"
  sv_ping :: "('q \<Rightarrow> string option \<times> 'q) option"  \<comment> \<open>the queue's \<open>Ping\<close>, when it has one\<close>
  sv_push :: "string \<Rightarrow> string + pushPayload"
  sv_pull_request :: "string \<Rightarrow> string + pullRequestPayload"

record status_report =
  sr_job :: Job
  sr_state :: string
  sr_description :: string

record ('q, 'g) api_world = "'q world" +
  a_github :: 'g
  a_reports :: "status_report list"

type_synonym ('q, 'g) handler =
  "('q, 'g) server \<Rightarrow> request \<Rightarrow> ('q, 'g) api_world \<Rightarrow> response \<times> ('q, 'g) api_world"

definition on_github :: "('g \<Rightarrow> 'a \<times> 'g) \<Rightarrow> ('q, 'g) api_world \<Rightarrow> 'a \<times> ('q, 'g) api_world" where
  "on_github f w = (case f (a_github w) of (a, g) \<Rightarrow> (a, w\<lparr>a_github := g\<rparr>))"

definition go_report :: "Job \<Rightarrow> string \<Rightarrow> string \<Rightarrow> ('q, 'g) api_world \<Rightarrow> ('q, 'g) api_world" where
  "go_report job state description w =
     w\<lparr>a_reports := a_reports w @ [\<lparr>sr_job = job, sr_state = state, sr_description = description\<rparr>]\<rparr>"
  \<comment> \<open>\<open>go s.report(job, state, description)\<close>\<close>

definition report :: "('q, 'g) server \<Rightarrow> status_report \<Rightarrow> ('q, 'g) api_world \<Rightarrow> string option \<times> ('q, 'g) api_world" where
  "report srv r w =
     (let job = sr_job r;
          target = c_ServerURL (sv_cfg srv) @ ''/api/v1/jobs/'' @ j_id job @ ''/logs''
      in on_github (gh_SetStatus (sv_github srv) (j_repository job) (j_commit_sha job)
           (sr_state r) (sr_description r) target) w)"
  \<comment> \<open>the goroutine; its result is only logged\<close>

section \<open>middleware.go\<close>

definition isNotFound :: "store_error \<Rightarrow> bool" where
  "isNotFound e \<longleftrightarrow> e = ErrNotFound"

definition transition_message :: "store_error \<Rightarrow> string option" where
  "transition_message e = (case e of ErrInvalidTransition m \<Rightarrow> Some (''invalid state transition: '' @ m) | _ \<Rightarrow> None)"
  \<comment> \<open>the text of an error that \<open>errors.Is(err, store.ErrInvalidTransition)\<close> accepts\<close>

definition hashToken :: "('q, 'g) server \<Rightarrow> string \<Rightarrow> string" where
  "hashToken srv token = hex_encode (sv_sha256 srv token)"

definition withRequestID :: "('q, 'g) handler \<Rightarrow> ('q, 'g) handler" where
  "withRequestID nxt srv rq w =
     (let i = (if rq_header rq ''X-Request-ID'' = [] then rq_request_uuid rq else rq_header rq ''X-Request-ID'')
      in case nxt srv rq w of (rs, w') \<Rightarrow> (rs\<lparr>rs_request_id := i\<rparr>, w'))"

definition auth_id :: "request \<Rightarrow> string" where
  "auth_id rq = (if rq_header rq ''X-Runner-ID'' = [] then rq_id rq else rq_header rq ''X-Runner-ID'')"

definition auth_token :: "request \<Rightarrow> string" where
  "auth_token rq = TrimPrefix (rq_header rq ''Authorization'') ''Bearer ''"

definition withRunnerAuth :: "('q, 'g) handler \<Rightarrow> ('q, 'g) handler" where
  "withRunnerAuth nxt srv rq w =
     (let runnerID = auth_id rq; token = auth_token rq in
      if runnerID = [] \<or> token = [] then (writeError 401 ''missing runner credentials'', w)
      else
        (case on_db (RunnerTokenHash runnerID) w of
           (Inl _, w1) \<Rightarrow> (writeError 401 ''unknown runner'', w1)
         | (Inr want, w1) \<Rightarrow>
             if want \<noteq> hashToken srv token then (writeError 401 ''invalid runner token'', w1)
             else nxt srv rq w1))"

definition runnerOwnsJob :: "request \<Rightarrow> string \<Rightarrow> ('q, 'g) api_world \<Rightarrow> bool \<times> ('q, 'g) api_world" where
  "runnerOwnsJob rq jobID w =
     (case on_db (GetJob jobID) w of
        (Inl _, w1) \<Rightarrow> (False, w1)
      | (Inr job, w1) \<Rightarrow> (j_runner_id job = Some (rq_header rq ''X-Runner-ID''), w1))"

section \<open>server.go\<close>

definition handleHealth :: "('q, 'g) handler" where
  "handleHealth srv rq w = (writeJSON 200 (Fields [(''status'', ''ok'')]), w)"

fun store_text :: "store_error \<Rightarrow> string" where
  "store_text ErrNotFound = ''not found''"
| "store_text ErrDuplicate = ''an active job already exists for this commit''"
| "store_text (ErrInvalidTransition m) = ''invalid state transition: '' @ m"
| "store_text (ErrRunnerNotIdle x) = ''runner '' @ x @ '' is no longer idle''"
| "store_text (ErrPg (PgError code)) = ''SQLSTATE '' @ code"
| "store_text (ErrPg (OtherError e)) = e"

definition handleReady :: "('q, 'g) handler" where
  "handleReady srv rq w =
     (case on_db Ping w of (pg, w1) \<Rightarrow>
     (let checks = (case pg of Inl e \<Rightarrow> (''postgres'', store_text e) | Inr _ \<Rightarrow> (''postgres'', ''ok''));
          code = (case pg of Inl _ \<Rightarrow> 503 | Inr _ \<Rightarrow> 200)
      in case sv_ping srv of
           None \<Rightarrow> (writeJSON code (Fields [checks, (''redis'', ''ok'')]), w1)
         | Some ping \<Rightarrow>
             (case on_queue ping w1 of
                (Some e, w2) \<Rightarrow> (writeJSON 503 (Fields [checks, (''redis'', e)]), w2)
              | (None, w2) \<Rightarrow> (writeJSON code (Fields [checks, (''redis'', ''ok'')]), w2))))"

section \<open>runners.go\<close>

definition newToken :: "string + string \<Rightarrow> string + string" where
  "newToken rnd = (case rnd of Inl e \<Rightarrow> Inl e | Inr buf \<Rightarrow> Inr (RawURLEncoding buf))"

definition new_runner :: "string \<Rightarrow> registerRequest \<Rightarrow> Runner" where
  "new_runner i req = \<lparr>r_id = i, r_name = rg_Name req, r_status = RunnerIdle, r_labels = rg_Labels req,
     r_architecture = rg_Architecture req, r_os = rg_OS req, r_current_job_id = None,
     r_last_heartbeat = 0, r_last_assigned_at = None, r_created_at = 0\<rparr>"

definition handleRegister :: "('q, 'g) handler" where
  "handleRegister srv rq w =
     (if rq_header rq ''X-Registration-Token'' \<noteq> c_RunnerRegistrationToken (sv_cfg srv)
      then (writeError 401 ''invalid registration token'', w)
      else
        (case decode_limited (sv_register srv) (2 ^ 16) (rq_body rq) of
           Inl _ \<Rightarrow> (writeError 400 ''invalid JSON body'', w)
         | Inr req \<Rightarrow>
             if rg_Name req = [] then (writeError 400 ''name is required'', w)
             else
               (case newToken (rq_random rq) of
                  Inl _ \<Rightarrow> (writeError 500 ''cannot generate token'', w)
                | Inr token \<Rightarrow>
                    (case on_db (RegisterRunner (new_runner (rq_uuid rq) req) (hashToken srv token)) w of
                       (Inl _, w1) \<Rightarrow> (writeError 500 ''registration failed'', w1)
                     | (Inr _, w1) \<Rightarrow> (writeJSON 201 (RegisterResponse (rq_uuid rq) token), w1)))))"

definition leaseLost :: "string \<Rightarrow> string \<Rightarrow> ('q, 'g) api_world \<Rightarrow> bool \<times> ('q, 'g) api_world" where
  "leaseLost runnerID jobID w =
     (case on_db (GetJob jobID) w of
        (Inl _, w1) \<Rightarrow> (True, w1)
      | (Inr job, w1) \<Rightarrow> (Terminal (j_status job) \<or> j_runner_id job \<noteq> Some runnerID, w1))"

definition handleHeartbeat :: "('q, 'g) handler" where
  "handleHeartbeat srv rq w =
     (case on_db (Heartbeat (rq_id rq)) w of
        (Inl e, w1) \<Rightarrow>
          if isNotFound e then (writeError 404 ''unknown runner'', w1)
          else (writeError 500 ''heartbeat failed'', w1)
      | (Inr _, w1) \<Rightarrow>
          (let jobID = (case decode_limited (sv_heartbeat srv) (4 * 2 ^ 10) (rq_body rq) of Inl _ \<Rightarrow> [] | Inr j \<Rightarrow> j)
           in if jobID = [] then (writeJSON 200 (HeartbeatResponse ''ok'' False), w1)
              else (case leaseLost (rq_id rq) jobID w1 of
                      (lost, w2) \<Rightarrow> (writeJSON 200 (HeartbeatResponse ''ok'' lost), w2))))"

definition handlePollJob :: "('q, 'g) handler" where
  "handlePollJob srv rq w =
     (case on_queue (q_Receive (sv_queue srv) (rq_id rq) (25 * second)) w of
        (Inl ErrEmpty, w1) \<Rightarrow> (respond 204 Empty, w1)
      | (Inl (ErrQueue _), w1) \<Rightarrow>
          if rq_gone rq then (respond 200 Empty, w1)
          else (writeError 500 ''cannot read mailbox'', w1)
      | (Inr jobID, w1) \<Rightarrow>
          (case on_db (GetJob jobID) w1 of
             (Inl _, w2) \<Rightarrow> (writeError 500 ''job not found'', w2)
           | (Inr job, w2) \<Rightarrow>
               (case on_github (gh_CloneToken (sv_github srv) (j_repository job)) w2 of
                  ((token, _), w3) \<Rightarrow> (writeJSON 200 (JobDelivery job token), w3))))"

definition handleListRunners :: "('q, 'g) handler" where
  "handleListRunners srv rq w =
     (case on_db ListRunners w of
        (Inl _, w1) \<Rightarrow> (writeError 500 ''cannot list runners'', w1)
      | (Inr rs, w1) \<Rightarrow> (writeJSON 200 (RunnerList rs), w1))"

definition handleGetRunner :: "('q, 'g) handler" where
  "handleGetRunner srv rq w =
     (case on_db (GetRunner (rq_id rq)) w of
        (Inl e, w1) \<Rightarrow> if isNotFound e then (writeError 404 ''runner not found'', w1)
                      else (writeError 500 ''cannot load runner'', w1)
      | (Inr r, w1) \<Rightarrow> (writeJSON 200 (RunnerBody r), w1))"

section \<open>jobs.go\<close>

definition list_limit :: "string \<Rightarrow> int" where
  "list_limit q = (case Atoi q of Some v \<Rightarrow> if v > 0 \<and> v \<le> 500 then v else 50 | None \<Rightarrow> 50)"

definition handleListJobs :: "('q, 'g) handler" where
  "handleListJobs srv rq w =
     (case on_db (ListJobs (list_limit (rq_limit rq))) w of
        (Inl _, w1) \<Rightarrow> (writeError 500 ''cannot list jobs'', w1)
      | (Inr js, w1) \<Rightarrow> (writeJSON 200 (JobList js), w1))"

definition handleGetJob :: "('q, 'g) handler" where
  "handleGetJob srv rq w =
     (case on_db (GetJob (rq_id rq)) w of
        (Inl e, w1) \<Rightarrow> if isNotFound e then (writeError 404 ''job not found'', w1)
                      else (writeError 500 ''cannot load job'', w1)
      | (Inr job, w1) \<Rightarrow> (writeJSON 200 (JobBody job), w1))"

definition handleGetJobLogs :: "('q, 'g) handler" where
  "handleGetJobLogs srv rq w =
     (case on_db (GetLogs (rq_id rq)) w of
        (Inl e, w1) \<Rightarrow> if isNotFound e then (writeError 404 ''job not found'', w1)
                      else (writeError 500 ''cannot load logs'', w1)
      | (Inr logs, w1) \<Rightarrow> (respond 200 (PlainText logs), w1))"

definition handleCancelJob :: "('q, 'g) handler" where
  "handleCancelJob srv rq w =
     (case on_db (CancelJob (rq_id rq)) w of
        (Inl e, w1) \<Rightarrow>
          if isNotFound e then (writeError 404 ''job not found'', w1)
          else (case transition_message e of
                  Some m \<Rightarrow> (writeError 409 m, w1)
                | None \<Rightarrow> (writeError 500 ''cancel failed'', w1))
      | (Inr _, w1) \<Rightarrow> (writeJSON 200 (Fields [(''status'', ''CANCELLED'')]), w1))"

definition report_job :: "string \<Rightarrow> string \<Rightarrow> string \<Rightarrow> ('q, 'g) api_world \<Rightarrow> ('q, 'g) api_world" where
  "report_job i state description w =
     (case on_db (GetJob i) w of
        (Inl _, w1) \<Rightarrow> w1
      | (Inr job, w1) \<Rightarrow> go_report job state description w1)"
  \<comment> \<open>\<open>if job, err := s.store.GetJob(...); err == nil { go s.report(...) }\<close>\<close>

definition handleJobStart :: "('q, 'g) handler" where
  "handleJobStart srv rq w =
     (case runnerOwnsJob rq (rq_id rq) w of (owns, w0) \<Rightarrow>
      if \<not> owns then (writeError 403 ''job is not assigned to this runner'', w0)
      else
        (case on_db (StartJob (rq_id rq)) w0 of
           (Inl e, w1) \<Rightarrow>
             (case transition_message e of
                Some m \<Rightarrow> (writeError 409 m, w1)
              | None \<Rightarrow> (writeError 500 ''cannot start job'', w1))
         | (Inr _, w1) \<Rightarrow>
             (writeJSON 200 (Fields [(''status'', ''RUNNING'')]),
              report_job (rq_id rq) ''pending'' ''build running'' w1)))"

definition handleJobLogs :: "('q, 'g) handler" where
  "handleJobLogs srv rq w =
     (case runnerOwnsJob rq (rq_id rq) w of (owns, w0) \<Rightarrow>
      if \<not> owns then (writeError 403 ''job is not assigned to this runner'', w0)
      else
        (case Atoi (rq_header rq ''X-Log-Seq'') of
           None \<Rightarrow> (writeError 400 ''X-Log-Seq must be a positive integer'', w0)
         | Some seq \<Rightarrow>
             if seq \<le> 0 then (writeError 400 ''X-Log-Seq must be a positive integer'', w0)
             else
               (case ReadAll_limited (2 ^ 20) (rq_body rq) of
                  None \<Rightarrow> (writeError 413 ''log chunk too large'', w0)
                | Some chunk \<Rightarrow>
                    (case on_db (AppendLogs (rq_id rq) seq chunk) w0 of
                       (Inl _, w1) \<Rightarrow> (writeError 500 ''cannot append logs'', w1)
                     | (Inr _, w1) \<Rightarrow> (respond 202 Empty, w1)))))"

definition result_status :: "string \<Rightarrow> JobStatus option" where
  "result_status s =
     (case ParseJobStatus s of
        Inl _ \<Rightarrow> None
      | Inr st \<Rightarrow> if st \<noteq> JobSuccess \<and> st \<noteq> JobFailed then None else Some st)"

definition handleJobResult :: "('q, 'g) handler" where
  "handleJobResult srv rq w =
     (case runnerOwnsJob rq (rq_id rq) w of (owns, w0) \<Rightarrow>
      if \<not> owns then (writeError 403 ''job is not assigned to this runner'', w0)
      else
        (case decode_limited (sv_result srv) (2 ^ 16) (rq_body rq) of
           Inl _ \<Rightarrow> (writeError 400 ''invalid JSON body'', w0)
         | Inr req \<Rightarrow>
             (case result_status (rr_Status req) of
                None \<Rightarrow> (writeError 400 ''status must be SUCCESS or FAILED'', w0)
              | Some st \<Rightarrow>
                  (case on_db (CompleteJob (rq_id rq) st (rr_ExitCode req) (rr_Error req)) w0 of
                     (Inl e, w1) \<Rightarrow>
                       (case transition_message e of
                          Some m \<Rightarrow> (writeJSON 409 (ErrorMsg m), w1)
                        | None \<Rightarrow> (writeError 500 ''cannot complete job'', w1))
                   | (Inr _, w1) \<Rightarrow>
                       (let (state, desc) =
                          (if st = JobFailed
                           then (''failure'', ''build failed with exit code '' @ Itoa (rr_ExitCode req))
                           else (''success'', ''build passed''))
                        in (writeJSON 200 (Fields [(''status'', string_of_JobStatus st)]),
                            report_job (rq_id rq) state desc w1))))))"

section \<open>webhook.go\<close>

definition webhook_job :: "string \<Rightarrow> Event \<Rightarrow> Job" where
  "webhook_job i ev = \<lparr>j_id = i, j_repository = ev_Repository ev, j_clone_url = ev_CloneURL ev,
     j_commit_sha = ev_CommitSHA ev, j_branch = ev_Branch ev, j_event_type = ev_EventType ev,
     j_config_ref = ''forgerun.yml'', j_labels = [''linux'', ''docker''], j_status = JobQueued,
     j_runner_id = None, j_attempts = 0, j_exit_code = None, j_error = [], j_created_at = 0,
     j_started_at = None, j_completed_at = None\<rparr>"

definition handleWebhook :: "('q, 'g) handler" where
  "handleWebhook srv rq w =
     (case ReadAll_limited (2 ^ 20) (rq_body rq) of
        None \<Rightarrow> (writeError 413 ''payload too large'', w)
      | Some b \<Rightarrow>
     (case VerifySignature (sv_hmac srv) (c_GitHubWebhookSecret (sv_cfg srv)) b
             (rq_header rq ''X-Hub-Signature-256'') of
        Some _ \<Rightarrow> (writeError 401 ''invalid signature'', w)
      | None \<Rightarrow>
     (case ParseEvent (sv_push srv) (sv_pull_request srv) (rq_header rq ''X-GitHub-Event'') b of
        Inl e \<Rightarrow>
          if e = ErrIgnored then (writeJSON 200 (Fields [(''status'', ''ignored'')]), w)
          else (writeJSON 400 (EventError e), w)
      | Inr event \<Rightarrow>
          (let job = webhook_job (rq_uuid rq) event in
     (case on_db (CreateJob job) w of
        (Inl e, w1) \<Rightarrow>
          if e = ErrDuplicate then (writeJSON 200 (Fields [(''status'', ''duplicate'')]), w1)
          else (writeError 500 ''cannot create job'', w1)
      | (Inr _, w1) \<Rightarrow>
     (case on_queue (q_Enqueue (sv_queue srv) (j_id job)) w1 of
        (Some _, w2) \<Rightarrow>
          (writeError 500 ''cannot enqueue job'',
           snd (on_db (CompleteJob (j_id job) JobFailed (-1) ''could not be queued'') w2))
      | (None, w2) \<Rightarrow>
          (writeJSON 202 (Fields [(''job_id'', j_id job), (''status'', ''QUEUED'')]),
           go_report job ''pending'' ''queued by forgerun'' w2)))))))"

section \<open>Routes\<close>

text \<open>
  The patterns of \<^verbatim>\<open>Routes\<close>, with \<^verbatim>\<open>net/http\<close>'s matching: a literal segment matches itself, \<^verbatim>\<open>{id}\<close> any one
  segment, GET patterns also take HEAD. No two patterns of one method match the same path, so the
  order of the table does not matter. A path no pattern matches is answered with 404, one that only
  patterns of other methods match with 405; paths are clean (\<^verbatim>\<open>net/http\<close> redirects the others).
\<close>

fun match_path :: "string list \<Rightarrow> string list \<Rightarrow> string option" where
  "match_path [] [] = Some []"
| "match_path (p # ps) (s # ss) =
     (if p = ''{id}'' then (if s \<noteq> [] \<and> match_path ps ss \<noteq> None then Some s else None)
      else if p = s then match_path ps ss else None)"
| "match_path _ _ = None"

definition route_table :: "(string \<times> string \<times> ('q, 'g) handler) list" where
  "route_table = [
     (''GET'', ''/health'', handleHealth),
     (''GET'', ''/ready'', handleReady),
     (''POST'', ''/webhooks/github'', handleWebhook),
     (''POST'', ''/api/v1/runners/register'', handleRegister),
     (''POST'', ''/api/v1/runners/{id}/heartbeat'', withRunnerAuth handleHeartbeat),
     (''GET'', ''/api/v1/runners/{id}/job'', withRunnerAuth handlePollJob),
     (''POST'', ''/api/v1/jobs/{id}/start'', withRunnerAuth handleJobStart),
     (''POST'', ''/api/v1/jobs/{id}/logs'', withRunnerAuth handleJobLogs),
     (''POST'', ''/api/v1/jobs/{id}/result'', withRunnerAuth handleJobResult),
     (''GET'', ''/api/v1/runners'', handleListRunners),
     (''GET'', ''/api/v1/runners/{id}'', handleGetRunner),
     (''GET'', ''/api/v1/jobs'', handleListJobs),
     (''GET'', ''/api/v1/jobs/{id}'', handleGetJob),
     (''GET'', ''/api/v1/jobs/{id}/logs'', handleGetJobLogs),
     (''POST'', ''/api/v1/jobs/{id}/cancel'', handleCancelJob)]"

definition path_id :: "string \<Rightarrow> string \<Rightarrow> string option" where
  "path_id pattern path = match_path (split_on CHR ''/'' pattern) (split_on CHR ''/'' path)"

definition matching :: "string \<Rightarrow> (string \<times> string \<times> ('q, 'g) handler) list" where
  "matching path = filter (\<lambda>(_, pat, _). path_id pat path \<noteq> None) route_table"

definition pick :: "string \<Rightarrow> (string \<times> string \<times> ('q, 'g) handler) list \<Rightarrow> (string \<times> string \<times> ('q, 'g) handler) option" where
  "pick meth hits = find (\<lambda>(m, _, _). m = (if meth = ''HEAD'' then ''GET'' else meth)) hits"

definition mux :: "string \<Rightarrow> string \<Rightarrow> ('q, 'g) handler" where
  "mux meth path srv rq w =
     (let hits = matching path in
      case pick meth hits of
        Some (_, pat, h) \<Rightarrow> h srv (rq\<lparr>rq_id := the (path_id pat path)\<rparr>) w
      | None \<Rightarrow> if hits = [] then (respond 404 (PlainText ''404 page not found''), w)
                else (respond 405 (PlainText ''Method Not Allowed''), w))"

definition Routes :: "string \<Rightarrow> string \<Rightarrow> ('q, 'g) handler" where
  "Routes meth path = withRequestID (mux meth path)"

end
