(* ===== verification/Api_Behaviour.thy ===== *)
theory Api_Behaviour
  imports Api Service_Behaviour
begin

text \<open>
  What the handlers do to the database: every one is a run of store calls, reads leave the tables
  alone, and the authentication wrapper runs its handler only for a runner whose stored hash is the hash
  of the presented token. From these the API properties follow.
\<close>

section \<open>Handlers are runs of store calls\<close>

lemma read_steps: "db_steps s (snd (db_exec (select q) s))"
  by (rule db_exec_select [of q s]) (auto intro: db_steps_script)

lemma GetLogs_steps: "db_steps s (snd (GetLogs i s))"
  using read_steps [of s "\<lambda>s. map_option j_logs (row_at j_id i (jobs s))"]
  by (auto simp: GetLogs_def split: prod.splits sum.splits option.splits)

lemma GetRunner_steps: "db_steps s (snd (GetRunner i s))"
  using read_steps [of s "\<lambda>s. row_at r_id i (runners s)"]
  by (auto simp: GetRunner_def split: prod.splits sum.splits option.splits)

lemma RunnerTokenHash_steps: "db_steps s (snd (RunnerTokenHash i s))"
  using read_steps [of s "\<lambda>s. map_option r_token_hash (row_at r_id i (runners s))"]
  by (auto simp: RunnerTokenHash_def split: prod.splits sum.splits option.splits)

lemma ListRunners_steps: "db_steps s (snd (ListRunners s))"
  using read_steps [of s "\<lambda>s. sort_key (\<lambda>r. - r_created_at r) (runners s)"]
  by (auto simp: ListRunners_def split: prod.splits sum.splits)

lemma Ping_steps: "db_steps s (snd (Ping s))"
  using read_steps [of s "\<lambda>_. ()"] by (auto simp: Ping_def split: prod.splits sum.splits)

lemma ListJobs_steps: "db_steps s (snd (ListJobs n s))"
proof -
  let ?q = "\<lambda>s. if n < 0 then (Inl (PgError ''2201W''), s)
      else select (\<lambda>s. take (nat n) (sort_key (\<lambda>r. - j_created_at r) (jobs s))) s"
  have "\<exists>xs. snd (db_exec ?q s) = s\<lparr>db_script := xs\<rparr>"
    by (rule db_exec_cases [of ?q s]) (auto simp: select_def)
  then show ?thesis using db_steps_script
    by (auto simp: ListJobs_def split: prod.splits sum.splits)
qed

lemma Heartbeat_steps: "db_steps s (snd (Heartbeat i s))"
  by (intro r_into_rtranclp db_step.heartbeat)

lemma RegisterRunner_steps: "db_steps s (snd (RegisterRunner r h s))"
  by (intro r_into_rtranclp db_step.register)

lemma AppendLogs_steps: "db_steps s (snd (AppendLogs i n c s))"
  by (intro r_into_rtranclp db_step.append)

definition steady :: "('q, 'g) handler \<Rightarrow> bool" where
  "steady h \<longleftrightarrow> (\<forall>srv rq w. db_steps (w_db w) (w_db (snd (h srv rq w))))"

lemma steadyI: "(\<And>srv rq w. db_steps (w_db w) (w_db (snd (h srv rq w)))) \<Longrightarrow> steady h"
  by (simp add: steady_def)

lemma on_github_eq: "on_github f w = (fst (f (a_github w)), w\<lparr>a_github := snd (f (a_github w))\<rparr>)"
  by (simp add: on_github_def split: prod.splits)

lemmas api_defs = on_defs on_github_eq go_report_def report_job_def writeJSON_def writeError_def respond_def
lemmas api_splits = prod.splits sum.splits option.splits queue_error.splits if_splits

lemma report_job_db: "w_db (report_job i st d w) = snd (GetJob i (w_db w))"
  by (auto simp: api_defs split: sum.splits)

lemma runnerOwnsJob_db: "w_db (snd (runnerOwnsJob rq i w)) = snd (GetJob i (w_db w))"
  by (auto simp: runnerOwnsJob_def api_defs split: sum.splits)

lemma leaseLost_db: "w_db (snd (leaseLost x i w)) = snd (GetJob i (w_db w))"
  by (auto simp: leaseLost_def api_defs split: sum.splits)

lemma steady_read_handlers:
  "steady handleHealth" "steady handleReady" "steady handleListRunners" "steady handleGetRunner"
  "steady handleListJobs" "steady handleGetJob" "steady handleGetJobLogs" "steady handlePollJob"
  by (rule steadyI; use Ping_steps ListRunners_steps GetRunner_steps ListJobs_steps GetJob_steps
        GetLogs_steps in \<open>auto simp: handleHealth_def handleReady_def handleListRunners_def
        handleGetRunner_def handleListJobs_def handleGetJob_def handleGetJobLogs_def handlePollJob_def
        api_defs Let_def split: api_splits\<close>)+

lemma steady_register: "steady handleRegister"
  by (rule steadyI; use RegisterRunner_steps in \<open>auto simp: handleRegister_def api_defs split: api_splits\<close>)

lemma steady_cancel: "steady handleCancelJob"
  by (rule steadyI; use CancelJob_steps in \<open>auto simp: handleCancelJob_def api_defs split: api_splits\<close>)

lemma steady_heartbeat: "steady handleHeartbeat"
proof (rule steadyI)
  fix srv :: "('a, 'b) server" and rq :: request and w :: "('a, 'b) api_world"
  let ?t = "snd (Heartbeat (rq_id rq) (w_db w))"
  have t: "db_steps (w_db w) ?t" by (rule Heartbeat_steps)
  have l: "db_steps (w_db w) (w_db (snd (leaseLost x i (w\<lparr>w_db := ?t\<rparr>))))" for x i
    using rtranclp_trans [OF t GetJob_steps] by (simp add: leaseLost_db)
  show "db_steps (w_db w) (w_db (snd (handleHeartbeat srv rq w)))"
    using t l by (auto simp: handleHeartbeat_def api_defs Let_def split: api_splits) (metis snd_conv)
qed

text \<open>The three job routes first read the job, then call one method, then may read it again.\<close>

lemma steady_after_read:
  assumes "\<And>s. db_steps s (snd (f s))"
  shows "db_steps s (snd (f (snd (GetJob i s))))"
    and "db_steps s (snd (GetJob i (snd (f (snd (GetJob i s))))))"
  using assms GetJob_steps rtranclp_trans by metis+

lemma steady_start: "steady handleJobStart"
proof (rule steadyI)
  fix srv :: "('a, 'b) server" and rq :: request and w :: "('a, 'b) api_world"
  obtain owns w0 where o: "runnerOwnsJob rq (rq_id rq) w = (owns, w0)" by force
  then have w0: "w_db w0 = snd (GetJob (rq_id rq) (w_db w))" using runnerOwnsJob_db by (metis snd_conv)
  show "db_steps (w_db w) (w_db (snd (handleJobStart srv rq w)))"
    using GetJob_steps [of "w_db w" "rq_id rq"] steady_after_read [OF StartJob_steps, where i = "rq_id rq"]
    by (auto simp: handleJobStart_def o on_defs w0 report_job_db split: api_splits)
qed

lemma steady_logs: "steady handleJobLogs"
proof (rule steadyI)
  fix srv :: "('a, 'b) server" and rq :: request and w :: "('a, 'b) api_world"
  obtain owns w0 where o: "runnerOwnsJob rq (rq_id rq) w = (owns, w0)" by force
  then have w0: "w_db w0 = snd (GetJob (rq_id rq) (w_db w))" using runnerOwnsJob_db by (metis snd_conv)
  show "db_steps (w_db w) (w_db (snd (handleJobLogs srv rq w)))"
    using GetJob_steps [of "w_db w" "rq_id rq"] steady_after_read(1) [OF AppendLogs_steps, where i = "rq_id rq"]
    by (auto simp: handleJobLogs_def o on_defs w0 split: api_splits)
qed

lemma result_status_Some: "result_status s = Some st \<Longrightarrow> st = JobSuccess \<or> st = JobFailed"
  by (auto simp: result_status_def split: sum.splits if_splits)

lemma result_status_Some_iff:
  "result_status ''SUCCESS'' = Some JobSuccess" "result_status ''FAILED'' = Some JobFailed"
  by (simp_all add: result_status_def ParseJobStatus_def)

lemma steady_result: "steady handleJobResult"
proof (rule steadyI)
  fix srv :: "('a, 'b) server" and rq :: request and w :: "('a, 'b) api_world"
  obtain owns w0 where o: "runnerOwnsJob rq (rq_id rq) w = (owns, w0)" by force
  then have w0: "w_db w0 = snd (GetJob (rq_id rq) (w_db w))" using runnerOwnsJob_db by (metis snd_conv)
  have c: "db_steps (w_db w) (snd (CompleteJob (rq_id rq) st code msg (w_db w0)))"
    "db_steps (w_db w) (snd (GetJob (rq_id rq) (snd (CompleteJob (rq_id rq) st code msg (w_db w0)))))"
    if "result_status x = Some st" for x st code msg
    unfolding w0
    by (rule steady_after_read [OF CompleteJob_steps [OF result_status_Some [OF that]]])+
  show "db_steps (w_db w) (w_db (snd (handleJobResult srv rq w)))"
    using GetJob_steps [of "w_db w" "rq_id rq"] c
    by (auto simp: handleJobResult_def o on_defs w0 report_job_db Let_def split: api_splits)
qed

lemma steady_webhook: "steady handleWebhook"
proof (rule steadyI)
  fix srv :: "('a, 'b) server" and rq :: request and w :: "('a, 'b) api_world"
  have c: "db_steps (w_db w) (snd (CreateJob (webhook_job i ev) (w_db w)))" for i ev
    by (rule CreateJob_steps) (simp add: webhook_job_def)
  have f: "db_steps (w_db w) (snd (CompleteJob k JobFailed n m (snd (CreateJob (webhook_job i ev) (w_db w)))))"
    for i ev k n m by (rule rtranclp_trans [OF c CompleteJob_steps]) simp
  show "db_steps (w_db w) (w_db (snd (handleWebhook srv rq w)))"
    using c f by (auto simp: handleWebhook_def api_defs Let_def split: api_splits)
qed

lemma steady_auth:
  assumes "steady h" shows "steady (withRunnerAuth h)"
proof (rule steadyI)
  fix srv :: "('a, 'b) server" and rq :: request and w :: "('a, 'b) api_world"
  let ?t = "snd (RunnerTokenHash (auth_id rq) (w_db w))"
  have t: "db_steps (w_db w) ?t" by (rule RunnerTokenHash_steps)
  moreover have "db_steps (w_db w) (w_db (snd (h srv rq (w\<lparr>w_db := ?t\<rparr>))))"
    using assms rtranclp_trans [OF t] unfolding steady_def by (metis world.select_convs(1) world.surjective world.update_convs(1))
  ultimately show "db_steps (w_db w) (w_db (snd (withRunnerAuth h srv rq w)))"
    by (auto simp: withRunnerAuth_def api_defs Let_def split: api_splits)
qed

lemma route_table_steady: "(m, p, h) \<in> set route_table \<Longrightarrow> steady h"
  by (auto simp: route_table_def intro!: steady_read_handlers steady_register steady_cancel steady_heartbeat
      steady_start steady_logs steady_result steady_webhook steady_auth)

lemma pick_matching:
  "pick meth (matching path) = Some (m, pat, h) \<Longrightarrow> (m, pat, h) \<in> set route_table \<and> path_id pat path \<noteq> None
    \<and> m = (if meth = ''HEAD'' then ''GET'' else meth)"
  unfolding pick_def matching_def by (auto simp: find_Some_iff dest!: nth_mem)

lemma mux_steps:
  fixes w :: "('q, 'g) api_world"
  shows "db_steps (w_db w) (w_db (snd (mux meth path srv rq w)))"
proof (cases "pick meth (matching path :: (string \<times> string \<times> ('q, 'g) handler) list)")
  case None
  then show ?thesis by (simp add: mux_def Let_def)
next
  case (Some hit)
  obtain m pat h where hit: "hit = (m, pat, h)" by (cases hit) auto
  then have "steady h" using Some pick_matching route_table_steady by blast
  with Some hit show ?thesis by (simp add: mux_def Let_def steady_def)
qed

lemma Routes_steps: "db_steps (w_db w) (w_db (snd (Routes meth path srv rq w)))"
  using mux_steps [of w meth path srv rq]
  by (cases "mux meth path srv rq w") (simp add: Routes_def withRequestID_def Let_def)

section \<open>Authentication and ownership\<close>

definition untouched :: "('q, 'g) api_world \<Rightarrow> ('q, 'g) api_world \<Rightarrow> bool" where
  "untouched w w' \<longleftrightarrow> jobs (w_db w') = jobs (w_db w) \<and> runners (w_db w') = runners (w_db w)
     \<and> w_queue w' = w_queue w \<and> a_github w' = a_github w \<and> a_reports w' = a_reports w"

definition credentials_ok :: "('q, 'g) server \<Rightarrow> request \<Rightarrow> db \<Rightarrow> bool" where
  "credentials_ok srv rq s \<longleftrightarrow> auth_id rq \<noteq> [] \<and> auth_token rq \<noteq> [] \<and>
     (case runner_at s (auth_id rq) of None \<Rightarrow> False | Some a \<Rightarrow> r_token_hash a = hashToken srv (auth_token rq))"

lemma untouched_refl [simp]: "untouched w w"
  by (simp add: untouched_def)

lemma untouched_script [simp]: "untouched w (w\<lparr>w_db := (w_db w)\<lparr>db_script := xs\<rparr>\<rparr>)"
  by (simp add: untouched_def)

lemma RunnerTokenHash_result:
  obtains xs res where "RunnerTokenHash x s = (res, s\<lparr>db_script := xs\<rparr>)"
    "\<And>h. res = Inr h \<Longrightarrow> \<exists>a. runner_at s x = Some a \<and> h = r_token_hash a"
proof (cases rule: db_exec_select [of "\<lambda>s. map_option r_token_hash (row_at r_id x (runners s))" s])
  case (read xs)
  show ?thesis
    by (rule that [of "case map_option r_token_hash (row_at r_id x (runners s)) of None \<Rightarrow> Inl ErrNotFound | Some h \<Rightarrow> Inr h" xs])
      (use read in \<open>auto simp: RunnerTokenHash_def runner_at_def split: option.splits\<close>)
next
  case (failed xs e)
  show ?thesis by (rule that [of "Inl (ErrPg (OtherError e))" xs]) (use failed in \<open>auto simp: RunnerTokenHash_def\<close>)
qed

lemma withRunnerAuth_cases:
  obtains (refused) xs msg where "withRunnerAuth h srv rq w = (writeError 401 msg, w\<lparr>w_db := (w_db w)\<lparr>db_script := xs\<rparr>\<rparr>)"
  | (passed) xs where "credentials_ok srv rq (w_db w)"
      "withRunnerAuth h srv rq w = h srv rq (w\<lparr>w_db := (w_db w)\<lparr>db_script := xs\<rparr>\<rparr>)"
proof (cases "auth_id rq = [] \<or> auth_token rq = []")
  case True
  have "w = w\<lparr>w_db := (w_db w)\<lparr>db_script := db_script (w_db w)\<rparr>\<rparr>" by simp
  with True show ?thesis using refused [of "''missing runner credentials''" "db_script (w_db w)"]
    by (simp add: withRunnerAuth_def Let_def)
next
  case False
  obtain xs res where r: "RunnerTokenHash (auth_id rq) (w_db w) = (res, (w_db w)\<lparr>db_script := xs\<rparr>)"
    "\<And>h. res = Inr h \<Longrightarrow> \<exists>a. runner_at (w_db w) (auth_id rq) = Some a \<and> h = r_token_hash a"
    by (rule RunnerTokenHash_result) blast
  show ?thesis
  proof (cases res)
    case (Inl e)
    with False r(1) show ?thesis using refused [of "''unknown runner''" xs]
      by (simp add: withRunnerAuth_def on_defs Let_def)
  next
    case (Inr want)
    with r(2) obtain a where a: "runner_at (w_db w) (auth_id rq) = Some a" "want = r_token_hash a" by blast
    show ?thesis
    proof (cases "want = hashToken srv (auth_token rq)")
      case True
      with False a have "credentials_ok srv rq (w_db w)" by (simp add: credentials_ok_def)
      with True False Inr r(1) show ?thesis using passed [of xs]
        by (simp add: withRunnerAuth_def on_defs Let_def)
    next
      case ne: False
      with False Inr r(1) show ?thesis using refused [of "''invalid runner token''" xs]
        by (simp add: withRunnerAuth_def on_defs Let_def)
    qed
  qed
qed

lemma runnerOwnsJob_cases:
  obtains (foreign) xs where "runnerOwnsJob rq i w = (False, w\<lparr>w_db := (w_db w)\<lparr>db_script := xs\<rparr>\<rparr>)"
  | (owner) xs r where "runnerOwnsJob rq i w = (True, w\<lparr>w_db := (w_db w)\<lparr>db_script := xs\<rparr>\<rparr>)"
      "job_at (w_db w) i = Some r" "j_runner_id r = Some (rq_header rq ''X-Runner-ID'')"
proof (cases "GetJob i (w_db w)")
  case (Pair res t)
  obtain xs where t: "t = (w_db w)\<lparr>db_script := xs\<rparr>" using GetJob_frame [of i "w_db w"] Pair by auto
  show ?thesis
  proof (cases res)
    case (Inl e)
    with Pair t show ?thesis using foreign [of xs] by (simp add: runnerOwnsJob_def on_defs)
  next
    case (Inr job)
    obtain r where "job_at (w_db w) i = Some r" "job = scanJob r"
      using GetJob_Inr Pair Inr by (fastforce simp: job_at_def)
    with Inr Pair t show ?thesis using foreign [of xs] owner [of xs r]
      by (cases "j_runner_id job = Some (rq_header rq ''X-Runner-ID'')") (auto simp: runnerOwnsJob_def on_defs)
  qed
qed

lemma job_route_foreign:
  assumes "runnerOwnsJob rq (rq_id rq) w = (False, w0)"
    and "h = handleJobStart \<or> h = handleJobLogs \<or> h = handleJobResult"
  shows "h srv rq w = (writeError 403 ''job is not assigned to this runner'', w0)"
  using assms by (auto simp: handleJobStart_def handleJobLogs_def handleJobResult_def)

lemma heartbeat_refreshes:
  assumes "db_script s = []" and "store_inv s" and "runner_at s i = Some a"
  defines "t \<equiv> snd (refresh_heartbeat i s)"
  shows "Heartbeat i s = (Inr (), t)" "job_at t = job_at s" "jobs t = jobs s" "db_script t = []"
    "runner_at t i = Some (a\<lparr>r_last_heartbeat := db_now s,
       r_status := (if r_status a = RunnerOffline then RunnerIdle else r_status a)\<rparr>)"
proof -
  show "Heartbeat i s = (Inr (), t)"
    using assms(1,3) rows_matching_key_0 [of r_id i "runners s"]
    by (simp add: t_def Heartbeat_def refresh_heartbeat_def update_runners_def runner_at_def)
  show "job_at t = job_at s" "jobs t = jobs s" "db_script t = []"
    using assms(1) by (simp_all add: t_def refresh_heartbeat_def update_runners_def job_at_def fun_eq_iff)
  have "r_id a = i" using runner_at_row [OF assms(2,3)] by simp
  then show "runner_at t i = Some (a\<lparr>r_last_heartbeat := db_now s,
       r_status := (if r_status a = RunnerOffline then RunnerIdle else r_status a)\<rparr>)"
    using assms(3) by (simp add: t_def refresh_heartbeat_def update_runners_def runner_at_map_update)
qed

end
