(* ===== verification/Api_Properties.thy ===== *)
theory Api_Properties
  imports Api_Behaviour Service_Properties
begin

text \<open>
  The properties of \<^verbatim>\<open>internal/api\<close> and of the webhook parser of \<^verbatim>\<open>internal/github\<close>. The witnesses run on the
  sample database, the list store \<open>mem_redis\<close> and a server whose hash functions are transparent.
\<close>

section \<open>A sample server\<close>

definition sample_env :: environment where
  "sample_env = \<lparr>os_Getenv = (\<lambda>k. if k = ''GITHUB_WEBHOOK_SECRET'' then ''key'' else []), os_Hostname = None,
     os_TempDir = ''/tmp'', parse_float = (\<lambda>_. None), parse_duration = (\<lambda>_. None)\<rparr>"

definition sample_push :: pushPayload where
  "sample_push = \<lparr>pu_Ref = ''refs/heads/main'', pu_After = replicate 40 CHR ''3'', pu_Deleted = False,
     pu_FullName = ''acme/app'', pu_CloneURL = ''https://github.com/acme/app.git''\<rparr>"

definition sample_github :: "unit github_ops" where
  "sample_github = \<lparr>gh_SetStatus = (\<lambda>_ _ _ _ _ g. (None, g)), gh_CloneToken = (\<lambda>_ g. ((''secret'', None), g))\<rparr>"

definition sample_server :: "(mem, unit) server" where
  "sample_server = \<lparr>sv_cfg = Load sample_env, sv_queue = redis_queue mem_redis, sv_github = sample_github,
     sv_sha256 = (\<lambda>t. t), sv_hmac = (\<lambda>k b. k @ b),
     sv_register = (\<lambda>b _. Inr \<lparr>rg_Name = b, rg_Labels = [], rg_Architecture = [], rg_OS = []\<rparr>),
     sv_heartbeat = (\<lambda>b _. Inr b),
     sv_result = (\<lambda>b _. Inr \<lparr>rr_Status = ''SUCCESS'', rr_ExitCode = 0, rr_Error = []\<rparr>),
     sv_ping = None, sv_push = (\<lambda>_. Inr sample_push), sv_pull_request = (\<lambda>_. Inl ''none'')\<rparr>"

definition sample_request :: "string \<Rightarrow> string \<Rightarrow> string \<Rightarrow> string \<Rightarrow> request" where
  "sample_request i runner auth b = \<lparr>rq_header = (\<lambda>h. if h = ''X-Runner-ID'' then runner
        else if h = ''Authorization'' then auth
        else if h = ''X-Registration-Token'' then ''dev-registration-token''
        else if h = ''X-GitHub-Event'' then ''push''
        else if h = ''X-Hub-Signature-256'' then auth else []),
     rq_id = i, rq_limit = [], rq_body = b, rq_gone = False, rq_uuid = ''new'', rq_random = Inr ''abc'',
     rq_request_uuid = ''req''\<rparr>"

definition sample_state :: "db \<Rightarrow> string list \<Rightarrow> string list \<Rightarrow> (mem, unit) api_world" where
  "sample_state s waiting handed =
     \<lparr>w_db = s, w_queue = mem_with waiting handed [], a_github = (), a_reports = []\<rparr>"

lemma sample_state_sel [simp]:
  "w_db (sample_state s w h) = s" "w_queue (sample_state s w h) = mem_with w h []"
  "a_reports (sample_state s w h) = []"
  by (simp_all add: sample_state_def)

lemma sample_request_sel [simp]:
  "rq_id (sample_request i x t b) = i" "rq_header (sample_request i x t b) ''X-Runner-ID'' = x"
  "rq_header (sample_request i x t b) ''Authorization'' = t" "rq_body (sample_request i x t b) = b"
  "rq_uuid (sample_request i x t b) = ''new''" "rq_header (sample_request i x t b) ''X-GitHub-Event'' = ''push''"
  "rq_header (sample_request i x t b) ''X-Hub-Signature-256'' = t" "rq_random (sample_request i x t b) = Inr ''abc''"
  "rq_header (sample_request i x t b) ''X-Registration-Token'' = ''dev-registration-token''"
  "rq_gone (sample_request i x t b) = False"
  by (simp_all add: sample_request_def)

lemma sample_auth:
  "x \<noteq> [] \<Longrightarrow> auth_id (sample_request i x t b) = x"
  "auth_token (sample_request i x (''Bearer '' @ t) b) = t"
  by (simp_all add: auth_id_def auth_token_def TrimPrefix_def)

section \<open>Who may do what\<close>

text \<open>The runner protocol needs credentials. A request to an authenticated route that does not name a
  registered runner together with a token whose SHA-256 is the hash stored for that runner is answered
  with 401, and neither the tables nor the queue, the GitHub client or the status reports change,
  whatever fails meanwhile.\<close>

theorem runner_auth_required:
  assumes "\<not> credentials_ok srv rq (w_db w)" and "withRunnerAuth h srv rq w = (rs, w')"
  shows "rs_code rs = 401 \<and> untouched w w'"
  by (rule withRunnerAuth_cases [of h srv rq w])
    (use assms in \<open>auto simp: writeError_def writeJSON_def respond_def\<close>)

theorem runner_auth_required_witness:
  "rs_code (fst (withRunnerAuth handlePollJob sample_server (sample_request ''x'' ''x'' ''Bearer wrong'' [])
      (sample_state pool [] []))) = 401"
proof -
  have "\<not> credentials_ok sample_server (sample_request ''x'' ''x'' ''Bearer wrong'' []) (w_db (sample_state pool [] []))"
    using sample_auth(2) [of "''x''" "''x''" "''wrong''" "[]"]
    by (simp add: credentials_ok_def sample_auth(1) pool_eq runner_at_def hashToken_def sample_server_def hex_digit_def)
  from runner_auth_required [OF this surjective_pairing, of handlePollJob] show ?thesis by simp
qed

text \<open>C15: A runner can only touch the job it was assigned. Whatever fails, a request to the start, logs
  or result route of a job changes a job or a runner only if it presents the token of the runner that
  the job is assigned to.\<close>

theorem only_owner_touches_job:
  assumes "h = handleJobStart \<or> h = handleJobLogs \<or> h = handleJobResult"
    and "withRunnerAuth h srv rq w = (rs, w')"
    and "jobs (w_db w') \<noteq> jobs (w_db w) \<or> runners (w_db w') \<noteq> runners (w_db w)"
    and "store_inv (w_db w)" and "runner_at (w_db w) [] = None"
  shows "\<exists>r x a. job_at (w_db w) (rq_id rq) = Some r \<and> j_runner_id r = Some x
    \<and> runner_at (w_db w) x = Some a \<and> r_token_hash a = hashToken srv (auth_token rq)"
proof (cases rule: withRunnerAuth_cases [of h srv rq w])
  case (refused xs msg)
  with assms(2,3) show ?thesis by auto
next
  case (passed xs)
  let ?w = "w\<lparr>w_db := (w_db w)\<lparr>db_script := xs\<rparr>\<rparr>"
  show ?thesis
  proof (cases rule: runnerOwnsJob_cases [of rq "rq_id rq" ?w])
    case (foreign ys)
    from job_route_foreign [OF foreign assms(1), of srv] passed(2) assms(2,3) show ?thesis by auto
  next
    case (owner ys r)
    have r: "job_at (w_db w) (rq_id rq) = Some r" using owner(2) by (simp add: job_at_def)
    let ?x = "rq_header rq ''X-Runner-ID''"
    have "?x \<in> r_id ` set (runners (w_db w))"
      using owner(3) assms(4) job_at_row [OF assms(4) r]
      by (auto simp: store_inv_def runner_refs_ok_def list_all_iff)
    then have "?x \<noteq> []" using assms(5) by (auto simp: runner_at_def row_at_None)
    then have "auth_id rq = ?x" by (simp add: auth_id_def)
    with passed(1) r owner(3) show ?thesis by (auto simp: credentials_ok_def split: option.splits)
  qed
qed

lemma hex_key: "hex_encode ''key'' = ''6b6579''"
  by code_simp

lemma sample_credentials:
  "credentials_ok sample_server (sample_request i ''x'' ''Bearer key'' b) pool"
  "credentials_ok sample_server (sample_request i ''x'' ''Bearer key'' b) busy_pool"
  using sample_auth(2) [of i "''x''" "''key''" b]
  by (simp_all add: credentials_ok_def sample_auth(1) pool_eq busy_pool_eq runner_at_def hashToken_def
      sample_server_def hex_key del: hex_encode.simps)

lemma sample_auth_passes:
  assumes "credentials_ok srv rq (w_db w)" and "db_script (w_db w) = []"
  shows "withRunnerAuth h srv rq w = h srv rq w"
  using assms
  by (auto simp: withRunnerAuth_def credentials_ok_def RunnerTokenHash_def select_def on_defs Let_def
      runner_at_def split: option.splits)

theorem only_owner_touches_job_witness:
  "\<exists>r x a. job_at busy_pool ''a'' = Some r \<and> j_runner_id r = Some x \<and> runner_at busy_pool x = Some a
    \<and> r_token_hash a = ''6b6579''"
proof -
  let ?rq = "sample_request ''a'' ''x'' ''Bearer key'' []" and ?w = "sample_state busy_pool [] []"
  have "withRunnerAuth handleJobResult sample_server ?rq ?w = handleJobResult sample_server ?rq ?w"
    using sample_credentials(2) by (intro sample_auth_passes) simp_all
  moreover have "jobs (w_db (snd (handleJobResult sample_server ?rq ?w))) \<noteq> jobs (w_db ?w)"
    by (simp add: handleJobResult_def runnerOwnsJob_def on_defs decode_limited_def sample_server_def
        result_status_Some_iff report_job_db CompleteJob_def transition_def transition_write_def
        change_status_def update_jobs_def releaseRunner_def mark_released_def update_runners_def
        complete_extra_def busy_pool_eq scanJob_def arg_error_def fits_int4_def)
  ultimately show ?thesis
    using only_owner_touches_job [OF _ surjective_pairing, of handleJobResult sample_server ?rq ?w]
      busy_pool_inv sample_auth(2) [of "''a''" "''x''" "''key''" "[]"]
    by (auto simp: runner_at_def busy_pool_eq hashToken_def sample_server_def hex_key simp del: hex_encode.simps)
qed

section \<open>Results\<close>

lemma result_effect:
  assumes "own_inv {} (w_db w)" and "db_script (w_db w) = []"
    and "job_at (w_db w) (rq_id rq) = Some r" and "j_runner_id r = Some (rq_header rq ''X-Runner-ID'')"
    and "decode_limited (sv_result srv) (2 ^ 16) (rq_body rq) = Inr req"
    and "(rr_Status req = ''SUCCESS'' \<and> st = JobSuccess) \<or> (rr_Status req = ''FAILED'' \<and> st = JobFailed)"
    and "handleJobResult srv rq w = (rs, w')"
  shows "if CanTransitionTo (j_status r) st
    then if arg_error (rr_ExitCode req) (rr_Error req) \<noteq> None then rs_code rs = 500 \<and> w' = w
      else rs_code rs = 200
      \<and> job_at (w_db w') = (job_at (w_db w))(rq_id rq \<mapsto> r\<lparr>j_status := st,
           j_completed_at := Some (db_now (w_db w)), j_exit_code := Some (rr_ExitCode req), j_error := rr_Error req\<rparr>)
      \<and> map_option r_status (runner_at (w_db w') (rq_header rq ''X-Runner-ID'')) = Some RunnerIdle
      \<and> (\<exists>job. a_reports w' = a_reports w @ [\<lparr>sr_job = job,
           sr_state = (if st = JobSuccess then ''success'' else ''failure''),
           sr_description = (if st = JobSuccess then ''build passed''
             else ''build failed with exit code '' @ Itoa (rr_ExitCode req))\<rparr>]
           \<and> j_id job = rq_id rq \<and> j_status job = st)
    else rs_code rs = 409 \<and> w' = w"
proof -
  have st: "st = JobSuccess \<or> st = JobFailed" using assms(6) by auto
  have parse: "result_status (rr_Status req) = Some st"
    using assms(6) by (auto simp: result_status_Some_iff)
  have si: "store_inv (w_db w)" using assms(1) by (simp add: own_inv_def)
  have owns: "runnerOwnsJob rq (rq_id rq) w = (True, w)"
    using assms(2-4) by (simp add: runnerOwnsJob_def on_defs job_at_def)
  have d: "distinct (map j_id (jobs (w_db w)))" using si by (simp add: store_inv_def)
  have ch: "lifecycle_change st (complete_extra (rr_ExitCode req) (rr_Error req))"
    using st by (auto intro: lifecycle_change.intros)
  show ?thesis
  proof (cases "CanTransitionTo (j_status r) st")
    case False
    have "CompleteJob (rq_id rq) st (rr_ExitCode req) (rr_Error req) (w_db w) =
        (Inl (ErrInvalidTransition (string_of_JobStatus (j_status r) @ '' -> '' @ string_of_JobStatus st)), w_db w)"
      using finish_refused [OF assms(2) d assms(3) [unfolded job_at_def] False] by (simp add: CompleteJob_def)
    with False owns assms(5,7) parse show ?thesis
      by (auto simp: handleJobResult_def api_defs transition_message_def)
  next
    case unwritable: True
    show ?thesis
    proof (cases "arg_error (rr_ExitCode req) (rr_Error req)")
      case (Some e)
      from CompleteJob_unwritable [OF assms(2) d assms(3) [unfolded job_at_def] unwritable Some]
      show ?thesis using unwritable Some owns assms(5,7) parse
        by (auto simp: handleJobResult_def api_defs transition_message_def)
    next
    case args: None
    note True = unwritable
    then have hand: "in_hand (j_status r)" "\<not> in_hand st" using st by (cases "j_status r"; auto simp: in_hand_def)+
    obtain t x a where t: "CompleteJob (rq_id rq) st (rr_ExitCode req) (rr_Error req) (w_db w) = (Inr (), t)"
      "job_at t = (job_at (w_db w))(rq_id rq \<mapsto> complete_extra (rr_ExitCode req) (rr_Error req) (db_now (w_db w)) (r\<lparr>j_status := st\<rparr>))"
      "j_runner_id r = Some x"
      "runner_at t = (runner_at (w_db w))(x \<mapsto> a\<lparr>r_status := RunnerIdle, r_current_job_id := None\<rparr>)"
      "db_script t = []"
      using finish_in_hand [OF assms(1-3) hand(1) ch True hand(2)] unfolding CompleteJob_def args by blast
    have get: "GetJob (rq_id rq) t = (Inr (scanJob (complete_extra (rr_ExitCode req) (rr_Error req) (db_now (w_db w)) (r\<lparr>j_status := st\<rparr>))), t)"
      using t(2,5) by (simp add: job_at_def fun_eq_iff)
    have id: "j_id r = rq_id rq" using job_at_row [OF si assms(3)] by simp
    show ?thesis
      using True owns assms(4,5,7) parse t get id st args
      by (auto simp: handleJobResult_def api_defs complete_extra_def)
    qed
  qed
qed

text \<open>C18: A runner's result, while the database answers and jobs and runners agree on who holds what: the
  result of the job's own runner, SUCCESS or FAILED, makes an ASSIGNED or RUNNING job take it
  (SUCCESS only a RUNNING one) with the exit code and message, frees the runner, answers 200 and
  queues one commit status, success or failure with the exit code; a result the state machine does not
  allow, as for a cancelled job, is answered with 409 and changes nothing, and one whose exit code does
  not fit the 32-bit column (or whose message is no UTF-8 text) with 500.\<close>

theorem result_recorded:
  assumes "own_inv {} (w_db w)" and "db_script (w_db w) = []"
    and "job_at (w_db w) (rq_id rq) = Some r" and "j_runner_id r = Some (rq_header rq ''X-Runner-ID'')"
    and "decode_limited (sv_result srv) (2 ^ 16) (rq_body rq) = Inr req"
    and "(rr_Status req = ''SUCCESS'' \<and> st = JobSuccess) \<or> (rr_Status req = ''FAILED'' \<and> st = JobFailed)"
    and "handleJobResult srv rq w = (rs, w')"
  shows "if CanTransitionTo (j_status r) st
    then if arg_error (rr_ExitCode req) (rr_Error req) \<noteq> None then rs_code rs = 500 \<and> w' = w
      else rs_code rs = 200
      \<and> job_at (w_db w') = (job_at (w_db w))(rq_id rq \<mapsto> r\<lparr>j_status := st,
           j_completed_at := Some (db_now (w_db w)), j_exit_code := Some (rr_ExitCode req), j_error := rr_Error req\<rparr>)
      \<and> map_option r_status (runner_at (w_db w') (rq_header rq ''X-Runner-ID'')) = Some RunnerIdle
      \<and> (\<exists>job. a_reports w' = a_reports w @ [\<lparr>sr_job = job,
           sr_state = (if st = JobSuccess then ''success'' else ''failure''),
           sr_description = (if st = JobSuccess then ''build passed''
             else ''build failed with exit code '' @ Itoa (rr_ExitCode req))\<rparr>]
           \<and> j_id job = rq_id rq \<and> j_status job = st)
    else rs_code rs = 409 \<and> w' = w"
  by (rule result_effect [OF assms])

theorem result_recorded_witness:
  "rs_code (fst (handleJobResult sample_server (sample_request ''a'' ''x'' [] []) (sample_state busy_pool [] []))) = 200
   \<and> map_option j_status (job_at (w_db (snd (handleJobResult sample_server (sample_request ''a'' ''x'' [] [])
        (sample_state busy_pool [] [])))) ''a'') = Some JobSuccess"
  using result_recorded [OF _ _ _ _ _ _ surjective_pairing, of "sample_state busy_pool [] []"
      "sample_request ''a'' ''x'' [] []" "hd (jobs busy_pool)" sample_server
      "\<lparr>rr_Status = ''SUCCESS'', rr_ExitCode = 0, rr_Error = []\<rparr>" JobSuccess]
  by (simp add: busy_pool_own decode_limited_def sample_server_def arg_error_def fits_int4_def)

text \<open>What registration hands out works. When \<open>handleRegister\<close> answers 201 with an id and a token, the
  request presented the configured registration token, the runner is stored IDLE with the labels it
  sent, and a later request that presents this id and token passes authentication: the wrapped handler
  runs on it while the database answers.\<close>

theorem register_then_authenticated:
  assumes "handleRegister srv rq w = (rs, w')" and "rs_body rs = RegisterResponse i token"
    and "db_script (w_db w) = []" and "i \<noteq> []" and "token \<noteq> []"
    and "rq_header rq2 ''X-Runner-ID'' = i" and "rq_header rq2 ''Authorization'' = ''Bearer '' @ token"
  shows "rq_header rq ''X-Registration-Token'' = c_RunnerRegistrationToken (sv_cfg srv) \<and> rs_code rs = 201
    \<and> map_option r_status (runner_at (w_db w') i) = Some RunnerIdle
    \<and> withRunnerAuth h srv rq2 w' = h srv rq2 w'"
proof -
  obtain req where req: "rq_header rq ''X-Registration-Token'' = c_RunnerRegistrationToken (sv_cfg srv)"
    "i = rq_uuid rq" "on_db (RegisterRunner (new_runner i req) (hashToken srv token)) w = (Inr (), w')"
    "rs_code rs = 201"
    using assms(1,2) by (auto simp: handleRegister_def api_defs split: sum.splits if_splits prod.splits)
  have t: "w' = w\<lparr>w_db := snd (insert_runner (new_runner i req) (hashToken srv token) (w_db w))\<rparr>"
    "\<not> list_ex (\<lambda>x. r_id x = i) (runners (w_db w))"
    using req(3) assms(3)
    by (auto simp: on_defs RegisterRunner_def insert_runner_def new_runner_def split: sum.splits prod.splits if_splits)
  have row: "\<exists>a. runner_at (w_db w') i = Some a \<and> r_status a = RunnerIdle \<and> r_token_hash a = hashToken srv token"
    using t(2) row_at_None [of r_id i "runners (w_db w)"] unfolding t(1)
    by (auto simp: insert_runner_def new_runner_def runner_at_def row_at_append list_ex_iff image_iff)
  have "auth_token rq2 = token" unfolding auth_token_def assms(7) by (rule TrimPrefix_append)
  moreover have "auth_id rq2 = i" using assms(4,6) by (simp add: auth_id_def)
  ultimately have "credentials_ok srv rq2 (w_db w')" using row assms(4,5) by (auto simp: credentials_ok_def)
  moreover have "db_script (w_db w') = []" using assms(3) unfolding t(1) by (simp add: insert_runner_def)
  ultimately show ?thesis using sample_auth_passes req row by auto
qed

theorem register_then_authenticated_witness:
  "\<exists>token w'. handleRegister sample_server (sample_request [] [] [] ''builder'') (sample_state pool [] []) =
      (writeJSON 201 (RegisterResponse ''new'' token), w')
    \<and> withRunnerAuth handlePollJob sample_server (sample_request ''new'' ''new'' (''Bearer '' @ token) []) w'
      = handlePollJob sample_server (sample_request ''new'' ''new'' (''Bearer '' @ token) []) w'"
proof -
  let ?r = "handleRegister sample_server (sample_request [] [] [] ''builder'') (sample_state pool [] [])"
  let ?t = "RawURLEncoding ''abc''"
  have t: "?t \<noteq> []" by (simp add: RawURLEncoding_def base64_raw_def)
  have r: "fst ?r = writeJSON 201 (RegisterResponse ''new'' ?t)"
    by (simp add: handleRegister_def decode_limited_def sample_server_def newToken_def api_defs Load_def
        env_def sample_env_def RegisterRunner_def insert_runner_def new_runner_def pool_eq)
  have "rs_body (fst ?r) = RegisterResponse ''new'' ?t" by (simp add: r writeJSON_def respond_def)
  from register_then_authenticated [OF surjective_pairing this, of "sample_request ''new'' ''new'' (''Bearer '' @ ?t) []" handlePollJob]
  have "withRunnerAuth handlePollJob sample_server (sample_request ''new'' ''new'' (''Bearer '' @ ?t) []) (snd ?r)
      = handlePollJob sample_server (sample_request ''new'' ''new'' (''Bearer '' @ ?t) []) (snd ?r)"
    using t by simp
  with r show ?thesis by (metis prod.collapse)
qed

section \<open>Webhooks\<close>




lemma sample_push_event:
  "ParseEvent (sv_push sample_server) (sv_pull_request sample_server) ''push'' b = Inr
     \<lparr>ev_Repository = ''acme/app'', ev_CloneURL = ''https://github.com/acme/app.git'',
      ev_CommitSHA = replicate 40 CHR ''3'', ev_Branch = ''main'', ev_EventType = ''push'', ev_PRNumber = 0\<rparr>"
proof -
  have "buildable \<lparr>ev_Repository = ''acme/app'', ev_CloneURL = ''https://github.com/acme/app.git'',
      ev_CommitSHA = replicate 40 CHR ''3'', ev_Branch = ''main'', ev_EventType = ''push'', ev_PRNumber = 0\<rparr>"
    by (simp add: buildable_def)
  then show ?thesis
    by (simp add: ParseEvent_def sample_server_def sample_push_def checked_Inr TrimPrefix_def)
qed

lemma hex_signature: "hex_encode (''key'' @ ''{}'') = ''6b65797b7d''"
  by code_simp

lemma sample_signature:
  "VerifySignature (sv_hmac sample_server) (c_GitHubWebhookSecret (sv_cfg sample_server)) ''{}'' ''sha256=6b65797b7d'' = None"
proof -
  have "hex_decode ''6b65797b7d'' = Some (''key'' @ ''{}'')"
    unfolding hex_signature [symmetric] by (rule hex_round_trip)
  then show ?thesis
    by (auto simp: VerifySignature_None sample_server_def Load_def env_def sample_env_def simp del: hex_decode.simps)
qed


text \<open>A job that cannot be enqueued is not failed. When the push to Redis fails, the handler asks for
  QUEUED to FAILED, a transition the state machine does not have; the call is refused and its error
  dropped. The job stays QUEUED with its id in no list, and every later delivery of the event is
  answered as a duplicate.\<close>

theorem failed_enqueue_leaves_job_queued:
  assumes "q_Enqueue (sv_queue srv) (rq_uuid rq) (w_queue w) = (Some e, w_queue w)"
    and "db_script (w_db w) = []" and "store_inv (w_db w)" and "length (rq_body rq) \<le> 2 ^ 20"
    and "VerifySignature (sv_hmac srv) (c_GitHubWebhookSecret (sv_cfg srv)) (rq_body rq)
           (rq_header rq ''X-Hub-Signature-256'') = None"
    and "ParseEvent (sv_push srv) (sv_pull_request srv) (rq_header rq ''X-GitHub-Event'') (rq_body rq) = Inr event"
    and "\<not> insert_conflict (jobs (w_db w)) (webhook_job (rq_uuid rq) event)"
  shows "\<exists>rs w'. handleWebhook srv rq w = (rs, w') \<and> rs_code rs = 500 \<and> w_queue w' = w_queue w
    \<and> map_option j_status (job_at (w_db w') (rq_uuid rq)) = Some JobQueued
    \<and> fst (CreateJob (webhook_job i event) (w_db w')) = Inl ErrDuplicate"
proof -
  let ?j = "webhook_job (rq_uuid rq) event"
  let ?t = "snd (insert_job ?j (w_db w))"
  have j: "j_status ?j = JobQueued" "j_id ?j = rq_uuid rq" by (simp_all add: webhook_job_def)
  have j': "j_status (webhook_job i event) = JobQueued" by (simp add: webhook_job_def)
  have new: "CreateJob ?j (w_db w) = (Inr (), ?t)"
    using assms(2,7) by (simp add: CreateJob_def insert_job_def)
  have si: "store_inv ?t" by (rule insert_job_inv [OF assms(3) j(1)])
  have sc: "db_script ?t = []" using assms(2,7) by (simp add: insert_job_def)
  obtain r where app: "jobs ?t = jobs (w_db w) @ [r]" and r: "j_id r = rq_uuid rq" "j_status r = JobQueued"
    "same_build r (webhook_job i event)"
    using assms(7) by (auto simp: insert_job_def webhook_job_def same_build_def)
  have "row_at j_id (rq_uuid rq) (jobs (w_db w)) = None"
    using assms(7) j(2) by (auto simp: insert_conflict_def row_at_None list_ex_iff image_iff)
  then have at: "job_at ?t (rq_uuid rq) = Some r" using r(1) by (simp add: job_at_def app row_at_append)
  have "\<not> CanTransitionTo (j_status r) JobFailed" using r(2) by simp
  from finish_refused [OF sc _ at [unfolded job_at_def] this] si
  have refused: "snd (CompleteJob (rq_uuid rq) JobFailed (-1) ''could not be queued'' ?t) = ?t"
    by (simp add: CompleteJob_def store_inv_def)
  have "insert_conflict (jobs ?t) (webhook_job i event)"
    unfolding app insert_conflict_def using r(2,3) j' by (simp add: index_covers_def)
  then have dup: "fst (CreateJob (webhook_job i event) ?t) = Inl ErrDuplicate"
    using sc by (simp add: CreateJob_def insert_job_def isUniqueViolation_def)
  show ?thesis
    using assms(1,4-6) new refused dup at r(2) j(2)
    by (simp add: handleWebhook_def ReadAll_limited_def api_defs Let_def)
qed

theorem failed_enqueue_leaves_job_queued_witness:
  "\<exists>rs w'. handleWebhook (sample_server\<lparr>sv_queue := (redis_queue mem_redis)\<lparr>q_Enqueue := \<lambda>_ q. (Some (ErrQueue ''down''), q)\<rparr>\<rparr>)
      (sample_request [] [] ''sha256=6b65797b7d'' ''{}'') (sample_state pool [] []) = (rs, w')
    \<and> rs_code rs = 500 \<and> map_option j_status (job_at (w_db w') ''new'') = Some JobQueued"
proof -
  let ?srv = "sample_server\<lparr>sv_queue := (redis_queue mem_redis)\<lparr>q_Enqueue := \<lambda>_ q. (Some (ErrQueue ''down''), q)\<rparr>\<rparr>"
  let ?ev = "\<lparr>ev_Repository = ''acme/app'', ev_CloneURL = ''https://github.com/acme/app.git'',
      ev_CommitSHA = replicate 40 CHR ''3'', ev_Branch = ''main'', ev_EventType = ''push'', ev_PRNumber = 0\<rparr>"
  have "\<not> insert_conflict (jobs pool) (webhook_job ''new'' ?ev)"
    by (simp add: pool_eq insert_conflict_def same_build_def webhook_job_def numeral_eq_Suc)
  then show ?thesis
    using failed_enqueue_leaves_job_queued [of ?srv "sample_request [] [] ''sha256=6b65797b7d'' ''{}''"
        "sample_state pool [] []" "ErrQueue ''down''" ?ev "''c''"] sample_signature sample_push_event pool_inv
    by auto
qed

section \<open>Leases and mailboxes\<close>

text \<open>The heartbeat renews the lease or ends it. While the database answers, the heartbeat of a
  registered runner refreshes its last heartbeat, brings it back to IDLE if it was OFFLINE, and tells
  it to stop exactly when the job it names is unknown, finished, or not assigned to it any more.\<close>

theorem heartbeat_ends_lost_lease:
  assumes "db_script (w_db w) = []" and "store_inv (w_db w)" and "runner_at (w_db w) (rq_id rq) = Some a"
    and "decode_limited (sv_heartbeat srv) (4 * 2 ^ 10) (rq_body rq) = Inr i" and "i \<noteq> []"
    and "handleHeartbeat srv rq w = (rs, w')"
  shows "rs = writeJSON 200 (HeartbeatResponse ''ok''
      (case job_at (w_db w) i of None \<Rightarrow> True
       | Some r \<Rightarrow> j_status r \<in> {JobSuccess, JobFailed, JobCancelled} \<or> j_runner_id r \<noteq> Some (rq_id rq)))
    \<and> jobs (w_db w') = jobs (w_db w)
    \<and> runner_at (w_db w') (rq_id rq) = Some (a\<lparr>r_last_heartbeat := db_now (w_db w),
        r_status := (if r_status a = RunnerOffline then RunnerIdle else r_status a)\<rparr>)"
proof -
  let ?t = "snd (refresh_heartbeat (rq_id rq) (w_db w))"
  note t = heartbeat_refreshes [OF assms(1-3)]
  have "leaseLost (rq_id rq) i (w\<lparr>w_db := ?t\<rparr>) = ((case job_at (w_db w) i of None \<Rightarrow> True
       | Some r \<Rightarrow> j_status r \<in> {JobSuccess, JobFailed, JobCancelled} \<or> j_runner_id r \<noteq> Some (rq_id rq)), w\<lparr>w_db := ?t\<rparr>)"
    using t by (auto simp: leaseLost_def on_defs job_at_def Terminal_iff fun_eq_iff split: option.splits)
  with assms(4-6) t show ?thesis
    by (auto simp: handleHeartbeat_def on_defs Let_def)
qed

theorem heartbeat_ends_lost_lease_witness:
  "fst (handleHeartbeat sample_server (sample_request ''x'' ''x'' [] ''b'') (sample_state busy_pool [] []))
    = writeJSON 200 (HeartbeatResponse ''ok'' True)"
proof -
  have "j_runner_id (jobs busy_pool ! 1) = None" by (simp add: busy_pool_eq)
  then show ?thesis
    using heartbeat_ends_lost_lease [OF _ _ _ _ _ surjective_pairing, of "sample_state busy_pool [] []"
        "sample_request ''x'' ''x'' [] ''b''" "hd (runners busy_pool)" sample_server "''b''"] busy_pool_inv
    by (simp add: decode_limited_def sample_server_def)
qed

text \<open>Any runner can empty any mailbox. The authenticated id comes from the X-Runner-ID header when
  there is one, but the poll route reads the mailbox of the id in the path, and it hands the job out
  without asking who it is assigned to. So a runner y with its own valid token that polls the path of
  runner x takes x's next job out of x's mailbox, together with the clone token for its repository.\<close>

theorem foreign_poll_takes_job:
  assumes "redis_server R rlists up ttl" and "sv_queue srv = redis_queue R" and "up (w_queue w)"
    and "db_script (w_db w) = []" and "credentials_ok srv rq (w_db w)"
    and "rq_header rq ''X-Runner-ID'' = y" and "y \<noteq> rq_id rq"
    and "box rlists (w_queue w) (rq_id rq) = i # rest" and "job_at (w_db w) i = Some r"
  shows "\<exists>rs w' token. withRunnerAuth handlePollJob srv rq w = (writeJSON 200 (JobDelivery (scanJob r) token), w')
    \<and> token = fst (fst (gh_CloneToken (sv_github srv) (j_repository r) (a_github w)))
    \<and> box rlists (w_queue w') (rq_id rq) = rest"
proof -
  note q = redis_server.is_queue [OF assms(1)]
  obtain j q' where rec: "q_Receive (redis_queue R) (rq_id rq) (25 * second) (w_queue w) = (Inr j, q')"
    using job_queue.up_receive [OF q assms(3), of "rq_id rq" "25 * second"] assms(8) by auto
  with job_queue.receive_ok [OF q rec] assms(8) have j: "j = i" "box rlists q' (rq_id rq) = rest" by auto
  have "withRunnerAuth handlePollJob srv rq w = handlePollJob srv rq w"
    by (rule sample_auth_passes [OF assms(5,4)])
  then show ?thesis
    using assms(2,4,9) rec j
    by (auto simp: handlePollJob_def on_defs on_github_eq job_at_def split: prod.splits)
qed

definition boxed :: "string \<Rightarrow> string list \<Rightarrow> mem" where
  "boxed x js = \<lparr>m_lists = (\<lambda>_. [])(runnerKey x := rev js), m_ttl = (\<lambda>_. None), m_script = []\<rparr>"

lemma boxed_views [simp]: "box m_lists (boxed x js) x = js" "m_script (boxed x js) = []"
  by (simp_all add: boxed_def views)

theorem foreign_poll_takes_job_witness:
  "\<exists>w'. withRunnerAuth handlePollJob sample_server (sample_request ''victim'' ''x'' ''Bearer key'' [])
      ((sample_state pool [] [])\<lparr>w_queue := boxed ''victim'' [''a'']\<rparr>) =
      (writeJSON 200 (JobDelivery (scanJob (hd (jobs pool))) ''secret''), w')
    \<and> box m_lists (w_queue w') ''victim'' = []"
  using foreign_poll_takes_job [OF mem.redis_server_axioms, of sample_server
      "(sample_state pool [] [])\<lparr>w_queue := boxed ''victim'' [''a'']\<rparr>" "sample_request ''victim'' ''x'' ''Bearer key'' []"
      "''x''" "''a''" "[]" "hd (jobs pool)"] sample_credentials(1)
  by (auto simp: sample_server_def sample_github_def)

text \<open>A poll that fails after the mailbox read loses the delivery. The id leaves the mailbox before
  the job is read; when that read fails the runner gets an error, the id is in no mailbox any more,
  and the job stays ASSIGNED to a runner that will never hear of it.\<close>

theorem failed_poll_loses_delivery:
  assumes "redis_server R rlists up ttl" and "sv_queue srv = redis_queue R" and "up (w_queue w)"
    and "db_script (w_db w) = [Fails msg]" and "box rlists (w_queue w) (rq_id rq) = [i]"
    and "job_at (w_db w) i = Some r" and "j_status r = JobAssigned"
  shows "\<exists>rs w'. handlePollJob srv rq w = (rs, w') \<and> rs_code rs = 500
    \<and> box rlists (w_queue w') (rq_id rq) = [] \<and> wait_list rlists (w_queue w') = wait_list rlists (w_queue w)
    \<and> job_at (w_db w') i = Some r"
proof -
  note q = redis_server.is_queue [OF assms(1)]
  obtain j q' where rec: "q_Receive (redis_queue R) (rq_id rq) (25 * second) (w_queue w) = (Inr j, q')"
    using job_queue.up_receive [OF q assms(3), of "rq_id rq" "25 * second"] assms(5) by auto
  with job_queue.receive_ok [OF q rec] assms(5)
  have j: "j = i" "box rlists q' (rq_id rq) = []" "wait_list rlists q' = wait_list rlists (w_queue w)" by auto
  have "GetJob i (w_db w) = (Inl (ErrPg (OtherError msg)), (w_db w)\<lparr>db_script := []\<rparr>)"
    using assms(4) by (simp add: GetJob_def db_exec_def)
  then show ?thesis
    using assms(2,6) rec j by (simp add: handlePollJob_def api_defs job_at_def)
qed

theorem failed_poll_loses_delivery_witness:
  "\<exists>rs w'. handlePollJob sample_server (sample_request ''x'' ''x'' [] [])
      ((sample_state ((snd (AssignJob ''a'' ''x'' pool))\<lparr>db_script := [Fails ''reset'']\<rparr>) [] [])\<lparr>w_queue := boxed ''x'' [''a'']\<rparr>) = (rs, w')
    \<and> rs_code rs = 500 \<and> box m_lists (w_queue w') ''x'' = []"
proof -
  let ?s = "(snd (AssignJob ''a'' ''x'' pool))\<lparr>db_script := [Fails ''reset'']\<rparr>"
  have "job_at ?s ''a'' = Some (hd (jobs pool)\<lparr>j_status := JobAssigned, j_runner_id := Some ''x'', j_attempts := 1\<rparr>)"
    using job_at_assign [OF pool_at(1) pool_a(1), of "''x''"] by (simp add: job_at_def fun_eq_iff)
  then show ?thesis
    using failed_poll_loses_delivery [OF mem.redis_server_axioms, of sample_server
        "(sample_state ?s [] [])\<lparr>w_queue := boxed ''x'' [''a'']\<rparr>" "''reset''" "sample_request ''x'' ''x'' [] []" "''a''"]
    by (auto simp: sample_server_def)
qed

section \<open>Any sequence of requests\<close>

fun serve :: "('q, 'g) server \<Rightarrow> (string \<times> string \<times> request) list \<Rightarrow> ('q, 'g) api_world \<Rightarrow> ('q, 'g) api_world" where
  "serve srv [] w = w"
| "serve srv ((meth, path, rq) # rest) w = serve srv rest (snd (Routes meth path srv rq w))"

lemma serve_steps: "db_steps (w_db w) (w_db (serve srv rqs w))"
proof (induction srv rqs w rule: serve.induct)
  case (2 srv meth path rq rest w)
  then show ?case using rtranclp_trans [OF Routes_steps 2] by simp
qed simp

text \<open>No sequence of HTTP requests, authenticated or not, well formed or not, with whatever failures
  of the database and the queue, takes the database out of its invariant or a job off its state
  machine, and a finished job stays as it finished.\<close>

theorem api_keeps_store_sound:
  assumes "store_inv (w_db w)" and "job_at (w_db w) i = Some a"
  shows "store_inv (w_db (serve srv rqs w)) \<and> (\<exists>b. job_at (w_db (serve srv rqs w)) i = Some b
    \<and> job_path (j_status a) (j_status b) \<and> j_commit_sha b = j_commit_sha a
    \<and> (Terminal (j_status a) \<longrightarrow> j_status b = j_status a \<and> j_exit_code b = j_exit_code a))"
proof -
  have st: "db_steps (w_db w) (w_db (serve srv rqs w))" by (rule serve_steps)
  have "jobs_evolved (w_db w) (w_db (serve srv rqs w))" using job_history.steps [OF st jobs_evolved_self] .
  with store_inv.steps [OF st assms(1)] assms(2) show ?thesis
    by (fastforce simp: jobs_evolved_def job_at_def job_evolves_def dest: job_path_terminal)
qed

theorem api_keeps_store_sound_witness:
  "store_inv (w_db (serve sample_server [(''POST'', ''/api/v1/jobs/a/cancel'', sample_request [] [] [] [])]
     (sample_state busy_pool [] [])))"
  using api_keeps_store_sound [of "sample_state busy_pool [] []" "''a''" "hd (jobs busy_pool)" sample_server
      "[(''POST'', ''/api/v1/jobs/a/cancel'', sample_request [] [] [] [])]"] busy_pool_inv
  by (simp del: serve.simps)

end
