(* ===== verification/Github_Client.thy ===== *)
theory Github_Client
  imports Go_Strings
begin

text \<open>
  \<^verbatim>\<open>internal/github/client.go\<close> and \<^verbatim>\<open>app.go\<close>: the outbound side of the GitHub integration. The HTTP client, the
  clock, the backoff timer with its cancellation, RSA signing, SHA-256 and the decoders of GitHub's
  answers are arguments (\<open>net\<close>, \<open>app_cfg\<close>, \<open>key_codecs\<close>); everything the code itself decides is translated: which requests
  it builds, when it retries, what it makes of an answer, what it caches and for how long. Errors are
  values that keep what the message is built from.
\<close>

section \<open>Requests and answers\<close>

datatype gh_body =
    NoBody
  | StatusBody string string string string  \<comment> \<open>state, description, context, target url\<close>
  | TokenBody "string list" "(string \<times> string) list"  \<comment> \<open>repositories, permissions\<close>

record http_request =
  hr_method :: string
  hr_url :: string
  hr_authorization :: string
  hr_body :: gh_body

record http_response =
  hp_status :: int
  hp_header :: "string \<Rightarrow> string"
  hp_body :: string

record 'n net =
  net_Do :: "http_request \<Rightarrow> 'n \<Rightarrow> (string + http_response) \<times> 'n"
  net_wait :: "duration \<Rightarrow> 'n \<Rightarrow> string option \<times> 'n"  \<comment> \<open>the backoff; \<open>Some\<close> when the context ends first\<close>
  net_now :: "'n \<Rightarrow> time"
  net_url :: "string \<Rightarrow> string option"  \<comment> \<open>the error \<open>http.NewRequest\<close> has for a url\<close>

datatype gh_error =
    NetError string
  | Cancelled string
  | BadRequest string
  | StatusError int string
  | RateLimit string string
  | Exhausted gh_error
  | DecodeError string
  | EmptyToken
  | NotInstalled string
  | SignError string
  | TokenFor string gh_error

section \<open>client.go\<close>

definition truncate_at :: "string \<Rightarrow> nat \<Rightarrow> string" where
  "truncate_at s n = (if length s \<le> n then s else take n s)"

definition newRequest :: "'n net \<Rightarrow> string \<Rightarrow> string \<Rightarrow> gh_body \<Rightarrow> string \<Rightarrow> gh_error + http_request" where
  "newRequest N meth url b token =
     (case net_url N url of
        Some e \<Rightarrow> Inl (BadRequest e)
      | None \<Rightarrow> Inr \<lparr>hr_method = meth, hr_url = url, hr_authorization = ''Bearer '' @ token, hr_body = b\<rparr>)"

definition transient :: "http_response \<Rightarrow> bool" where
  "transient r \<longleftrightarrow> \<not> (hp_status r < 500 \<and> hp_status r \<noteq> 429)"

fun send_loop :: "'n net \<Rightarrow> (gh_error + http_request) \<Rightarrow> nat list \<Rightarrow> gh_error \<Rightarrow> 'n \<Rightarrow>
    (gh_error + http_response) \<times> 'n" where
  "send_loop N newReq [] lastErr n = (Inl (Exhausted lastErr), n)"
| "send_loop N newReq (attempt # rest) lastErr n =
     (case (if attempt > 0 then net_wait N (int attempt * 500000000) n else (None, n)) of
        (Some e, n1) \<Rightarrow> (Inl (Cancelled e), n1)
      | (None, n1) \<Rightarrow>
          (case newReq of
             Inl e \<Rightarrow> (Inl e, n1)
           | Inr req \<Rightarrow>
               (case net_Do N req n1 of
                  (Inl e, n2) \<Rightarrow> send_loop N newReq rest (NetError e) n2
                | (Inr resp, n2) \<Rightarrow>
                    if \<not> transient resp then (Inr resp, n2)
                    else send_loop N newReq rest (StatusError (hp_status resp) (take 512 (hp_body resp))) n2)))"

definition send :: "'n net \<Rightarrow> (gh_error + http_request) \<Rightarrow> 'n \<Rightarrow> (gh_error + http_response) \<times> 'n" where
  "send N newReq n = send_loop N newReq [0, 1, 2] (NetError []) n"

definition checkResponse :: "http_response \<Rightarrow> gh_error option" where
  "checkResponse r =
     (if hp_status r \<ge> 300 then
        (let msg = take 512 (hp_body r) in
         if hp_header r ''X-RateLimit-Remaining'' = ''0''
         then Some (RateLimit (hp_header r ''X-RateLimit-Reset'') msg)
         else Some (StatusError (hp_status r) msg))
      else None)"

definition postStatus ::
  "'n net \<Rightarrow> string \<Rightarrow> string \<Rightarrow> string \<Rightarrow> string \<Rightarrow> string \<Rightarrow> string \<Rightarrow> string \<Rightarrow> 'n \<Rightarrow> gh_error option \<times> 'n" where
  "postStatus N base token repo sha state description targetURL n =
     (let b = StatusBody state (truncate_at description 140) ''forgerun'' targetURL;
          url = base @ ''/repos/'' @ repo @ ''/statuses/'' @ sha
      in case send N (newRequest N ''POST'' url b token) n of
           (Inl e, n1) \<Rightarrow> (Some e, n1)
         | (Inr resp, n1) \<Rightarrow> (checkResponse resp, n1))"

definition HTTP_SetStatus ::
  "'n net \<Rightarrow> string \<Rightarrow> string \<Rightarrow> string \<Rightarrow> string \<Rightarrow> string \<Rightarrow> string \<Rightarrow> 'n \<Rightarrow> gh_error option \<times> 'n" where
  "HTTP_SetStatus N token repo sha state description targetURL n =
     postStatus N ''https://api.github.com'' token repo sha state description targetURL n"

definition HTTP_CloneToken :: "string \<Rightarrow> 'n \<Rightarrow> (gh_error + string) \<times> 'n" where
  "HTTP_CloneToken repo n = (Inr [], n)"

definition Noop_SetStatus :: "string \<Rightarrow> string \<Rightarrow> string \<Rightarrow> string \<Rightarrow> string \<Rightarrow> 'n \<Rightarrow> gh_error option \<times> 'n" where
  "Noop_SetStatus repo sha state description targetURL n = (None, n)"

definition Noop_CloneToken :: "string \<Rightarrow> 'n \<Rightarrow> (gh_error + string) \<times> 'n" where
  "Noop_CloneToken repo n = (Inr [], n)"

section \<open>app.go\<close>

record cachedToken =
  ct_value :: string
  ct_expires :: time

record app_cfg =
  ap_appID :: string
  ap_base :: string
  ap_sha256 :: "string \<Rightarrow> string"
  ap_sign :: "string \<Rightarrow> string + string"  \<comment> \<open>\<open>rsa.SignPKCS1v15\<close> with the key, of a digest\<close>
  ap_quote :: "string \<Rightarrow> string"  \<comment> \<open>fmt's %q\<close>
  ap_installation :: "string \<Rightarrow> string + int"  \<comment> \<open>the decoder of the answer's id\<close>
  ap_access :: "string \<Rightarrow> string + (string \<times> time)"  \<comment> \<open>the decoder of token and expires_at\<close>

record 'n app_state =
  as_installs :: "string \<Rightarrow> int option"
  as_tokens :: "string \<Rightarrow> cachedToken option"
  as_net :: 'n

definition controlPlanePerms :: "(string \<times> string) list" where
  "controlPlanePerms = [(''contents'', ''read''), (''statuses'', ''write'')]"

definition clonePerms :: "(string \<times> string) list" where
  "clonePerms = [(''contents'', ''read'')]"

definition encodeSegment :: "string \<Rightarrow> string" where
  "encodeSegment b = RawURLEncoding b"

definition Unix :: "time \<Rightarrow> int" where
  "Unix t = t div second"

definition appJWT :: "app_cfg \<Rightarrow> time \<Rightarrow> gh_error + string" where
  "appJWT A now =
     (let claims = ''{\"iat\":'' @ Itoa (Unix (now - 60 * second)) @ '',\"exp\":''
            @ Itoa (Unix (now + 540 * second)) @ '',\"iss\":'' @ ap_quote A (ap_appID A) @ ''}'';
          signing = encodeSegment ''{\"alg\":\"RS256\",\"typ\":\"JWT\"}'' @ ''.'' @ encodeSegment claims;
          digest = ap_sha256 A signing
      in case ap_sign A digest of
           Inl e \<Rightarrow> Inl (SignError e)
         | Inr sig \<Rightarrow> Inr (signing @ ''.'' @ encodeSegment sig))"

definition call :: "'n net \<Rightarrow> string \<Rightarrow> string \<Rightarrow> string \<Rightarrow> gh_body \<Rightarrow> (string \<Rightarrow> string + 'a) \<Rightarrow> 'n \<Rightarrow>
    (gh_error + 'a) \<times> 'n" where
  "call N meth url jwt b decode n =
     (case send N (newRequest N meth url b jwt) n of
        (Inl e, n1) \<Rightarrow> (Inl e, n1)
      | (Inr resp, n1) \<Rightarrow>
          (case checkResponse resp of
             Some e \<Rightarrow> (Inl e, n1)
           | None \<Rightarrow> (case decode (hp_body resp) of Inl e \<Rightarrow> (Inl (DecodeError e), n1) | Inr a \<Rightarrow> (Inr a, n1))))"

definition installationID :: "'n net \<Rightarrow> app_cfg \<Rightarrow> string \<Rightarrow> 'n app_state \<Rightarrow> (gh_error + int) \<times> 'n app_state" where
  "installationID N A repo st =
     (case as_installs st repo of
        Some i \<Rightarrow> (Inr i, st)
      | None \<Rightarrow>
          (case appJWT A (net_now N (as_net st)) of
             Inl e \<Rightarrow> (Inl e, st)
           | Inr jwt \<Rightarrow>
               (case call N ''GET'' (ap_base A @ ''/repos/'' @ repo @ ''/installation'') jwt NoBody
                       (ap_installation A) (as_net st) of
                  (Inl e, n1) \<Rightarrow> (Inl e, st\<lparr>as_net := n1\<rparr>)
                | (Inr i, n1) \<Rightarrow>
                    if i = 0 then (Inl (NotInstalled repo), st\<lparr>as_net := n1\<rparr>)
                    else (Inr i, st\<lparr>as_net := n1, as_installs := (as_installs st)(repo \<mapsto> i)\<rparr>))))"

definition repo_name :: "string \<Rightarrow> string" where
  "repo_name repo = (if CHR ''/'' \<in> set repo then tl (dropWhile (\<lambda>c. c \<noteq> CHR ''/'') repo) else repo)"

definition mint :: "'n net \<Rightarrow> app_cfg \<Rightarrow> string \<Rightarrow> string \<Rightarrow> (string \<times> string) list \<Rightarrow> int \<Rightarrow> 'n app_state \<Rightarrow>
    (gh_error + string) \<times> 'n app_state" where
  "mint N A repo cacheKey perms installID st =
     (case appJWT A (net_now N (as_net st)) of
        Inl e \<Rightarrow> (Inl e, st)
      | Inr jwt \<Rightarrow>
          (case call N ''POST'' (ap_base A @ ''/app/installations/'' @ Itoa installID @ ''/access_tokens'') jwt
                  (TokenBody [repo_name repo] perms) (ap_access A) (as_net st) of
             (Inl e, n1) \<Rightarrow> (Inl e, st\<lparr>as_net := n1\<rparr>)
           | (Inr (tok, expiresAt), n1) \<Rightarrow>
               if tok = [] then (Inl EmptyToken, st\<lparr>as_net := n1\<rparr>)
               else (Inr tok, st\<lparr>as_net := n1, as_tokens := (as_tokens st)
                      (cacheKey \<mapsto> \<lparr>ct_value = tok, ct_expires = expiresAt - 120 * second\<rparr>)\<rparr>)))"

definition cached :: "'n net \<Rightarrow> string \<Rightarrow> 'n app_state \<Rightarrow> string option" where
  "cached N cacheKey st =
     (case as_tokens st cacheKey of
        Some t \<Rightarrow> if net_now N (as_net st) < ct_expires t then Some (ct_value t) else None
      | None \<Rightarrow> None)"

definition app_token :: "'n net \<Rightarrow> app_cfg \<Rightarrow> string \<Rightarrow> string \<Rightarrow> (string \<times> string) list \<Rightarrow> 'n app_state \<Rightarrow>
    (gh_error + string) \<times> 'n app_state" where
  "app_token N A repo cacheKey perms st =
     (case cached N cacheKey st of
        Some t \<Rightarrow> (Inr t, st)
      | None \<Rightarrow>
          (case installationID N A repo st of
             (Inl e, st1) \<Rightarrow> (Inl e, st1)
           | (Inr installID, st1) \<Rightarrow> mint N A repo cacheKey perms installID st1))"

definition App_SetStatus ::
  "'n net \<Rightarrow> app_cfg \<Rightarrow> string \<Rightarrow> string \<Rightarrow> string \<Rightarrow> string \<Rightarrow> string \<Rightarrow> 'n app_state \<Rightarrow> gh_error option \<times> 'n app_state" where
  "App_SetStatus N A repo sha state description targetURL st =
     (case app_token N A repo (''status:'' @ repo) controlPlanePerms st of
        (Inl e, st1) \<Rightarrow> (Some (TokenFor repo e), st1)
      | (Inr token, st1) \<Rightarrow>
          (case postStatus N (ap_base A) token repo sha state description targetURL (as_net st1) of
             (res, n1) \<Rightarrow> (res, st1\<lparr>as_net := n1\<rparr>)))"

definition App_CloneToken :: "'n net \<Rightarrow> app_cfg \<Rightarrow> string \<Rightarrow> 'n app_state \<Rightarrow> (gh_error + string) \<times> 'n app_state" where
  "App_CloneToken N A repo st = app_token N A repo (''clone:'' @ repo) clonePerms st"

text \<open>
  Which client a deployment gets. Reading the key file and the decoders of PEM, PKCS#1 and PKCS#8 are
  arguments; a PKCS#8 block can hold a key of another kind, which is returned with the name of its type.
\<close>

datatype 'k private_key = RsaKey 'k | OtherKey string

record 'k key_codecs =
  kc_pem :: "string \<Rightarrow> string option"
  kc_pkcs1 :: "string \<Rightarrow> string + 'k"
  kc_pkcs8 :: "string \<Rightarrow> string + 'k private_key"

datatype key_error =
    NotPEM
  | ParseKeyError string
  | NotRSA string
  | EmptyAppID
  | ReadKeyError string

definition parsePrivateKey :: "'k key_codecs \<Rightarrow> string \<Rightarrow> key_error + 'k" where
  "parsePrivateKey K data =
     (case kc_pem K data of
        None \<Rightarrow> Inl NotPEM
      | Some block \<Rightarrow>
          (case kc_pkcs1 K block of
             Inr key \<Rightarrow> Inr key
           | Inl _ \<Rightarrow>
               (case kc_pkcs8 K block of
                  Inl e \<Rightarrow> Inl (ParseKeyError e)
                | Inr (OtherKey t) \<Rightarrow> Inl (NotRSA t)
                | Inr (RsaKey key) \<Rightarrow> Inr key)))"

record Options =
  op_AppID :: string
  op_PrivateKeyPEM :: string
  op_PrivateKeyPath :: string
  op_Token :: string

datatype 'k client_mode = GithubApp string 'k | PersonalAccessToken string | Disabled

definition NewApp :: "'k key_codecs \<Rightarrow> string \<Rightarrow> string \<Rightarrow> key_error + 'k client_mode" where
  "NewApp K appID pem =
     (case parsePrivateKey K pem of
        Inl e \<Rightarrow> Inl e
      | Inr key \<Rightarrow> if appID = [] then Inl EmptyAppID else Inr (GithubApp appID key))"

definition Configure :: "(string \<Rightarrow> string + string) \<Rightarrow> 'k key_codecs \<Rightarrow> Options \<Rightarrow> key_error + 'k client_mode" where
  "Configure ReadFile K opts =
     (let key = (if op_PrivateKeyPEM opts = [] \<and> op_PrivateKeyPath opts \<noteq> []
                 then ReadFile (op_PrivateKeyPath opts) else Inr (op_PrivateKeyPEM opts))
      in case key of
           Inl e \<Rightarrow> Inl (ReadKeyError e)
         | Inr keyPEM \<Rightarrow>
             if op_AppID opts \<noteq> [] \<and> keyPEM \<noteq> [] then NewApp K (op_AppID opts) keyPEM
             else if op_Token opts \<noteq> [] then Inr (PersonalAccessToken (op_Token opts))
             else Inr Disabled)"

end
