(* ===== verification/Github_Properties.thy ===== *)
theory Github_Properties
  imports Github_Client Github_Webhook
begin

text \<open>
  The properties of \<^verbatim>\<open>internal/github\<close>. The requests a client makes are observed by wrapping its HTTP client:
  \<open>recording N\<close> behaves as \<open>N\<close> and keeps the list of the requests made through it.
\<close>

section \<open>Recorded requests\<close>

definition recording :: "'n net \<Rightarrow> ('n \<times> http_request list) net" where
  "recording N = \<lparr>
     net_Do = (\<lambda>rq (n, log). case net_Do N rq n of (r, n') \<Rightarrow> (r, (n', log @ [rq]))),
     net_wait = (\<lambda>d (n, log). case net_wait N d n of (r, n') \<Rightarrow> (r, (n', log))),
     net_now = (\<lambda>(n, log). net_now N n), net_url = net_url N\<rparr>"

lemma recording_sel [simp]:
  "net_url (recording N) = net_url N" "net_now (recording N) (n, log) = net_now N n"
  by (simp_all add: recording_def)

lemma send_loop_recorded:
  assumes "send_loop (recording N) newReq ks e (n, log) = (res, (n', log'))"
  shows "\<exists>k \<le> length ks. (k = 0 \<or> (\<exists>req. newReq = Inr req)) \<and> log' = log @ replicate k (projr newReq)
    \<and> (case res of
         Inr resp \<Rightarrow> \<not> transient resp \<and> k > 0
       | Inl err \<Rightarrow> (k = length ks \<and> (\<exists>e. err = Exhausted e)) \<or> (\<exists>e. err = Cancelled e) \<or> newReq = Inl err)"
  using assms
proof (induction ks arbitrary: e n log)
  case (Cons a ks)
  obtain w n1 where wait: "(if a > 0 then net_wait (recording N) (int a * 500000000) (n, log) else (None, (n, log)))
      = (w, (n1, log))"
    by (cases "net_wait N (int a * 500000000) n"; cases "0 < a") (auto simp: recording_def)
  show ?case
  proof (cases w)
    case (Some err)
    with wait Cons.prems show ?thesis by (auto intro: exI [of _ 0])
  next
    case None
    show ?thesis
    proof (cases newReq)
      case (Inl err)
      with wait None Cons.prems show ?thesis by (auto intro: exI [of _ 0])
    next
      case (Inr req)
      obtain r n2 where d: "net_Do (recording N) req (n1, log) = (r, (n2, log @ [req]))"
        by (cases "net_Do N req n1") (auto simp: recording_def)
      show ?thesis
      proof (cases "\<exists>resp. r = Inr resp \<and> \<not> transient resp")
        case True
        then obtain resp where resp: "r = Inr resp" "\<not> transient resp" by blast
        with wait None Inr d Cons.prems have "res = Inr resp" "log' = log @ [req]" by auto
        with resp Inr show ?thesis by (auto intro!: exI [of _ 1])
      next
        case False
        then obtain e' where "send_loop (recording N) newReq ks e' (n2, log @ [req]) = (res, (n', log'))"
          using wait None Inr d Cons.prems by (cases r) auto
        from Cons.IH [OF this] obtain k where "k \<le> length ks" "log' = log @ req # replicate k req"
          "case res of Inr resp \<Rightarrow> \<not> transient resp \<and> k > 0
           | Inl err \<Rightarrow> (k = length ks \<and> (\<exists>e. err = Exhausted e)) \<or> (\<exists>e. err = Cancelled e) \<or> newReq = Inl err"
          by (auto simp: Inr)
        with Inr show ?thesis by (intro exI [of _ "Suc k"]) (auto split: sum.splits)
      qed
    qed
  qed
qed auto

section \<open>The outbound client\<close>

text \<open>C38: \<open>send\<close> makes at most three attempts, all with the request it was given. It returns an answer only
  if that answer is final (a status below 500 other than 429); it gives up only after three transient
  failures, when the context ends during a backoff, or when the request cannot be built.\<close>

theorem send_bounded:
  assumes "send (recording N) newReq (n, []) = (res, (n', log))"
  shows "length log \<le> 3 \<and> list_all (\<lambda>rq. newReq = Inr rq) log
    \<and> (case res of
         Inr resp \<Rightarrow> hp_status resp < 500 \<and> hp_status resp \<noteq> 429 \<and> log \<noteq> []
       | Inl err \<Rightarrow> (length log = 3 \<and> (\<exists>e. err = Exhausted e)) \<or> (\<exists>e. err = Cancelled e) \<or> newReq = Inl err)"
  using send_loop_recorded [OF assms [unfolded send_def]]
  by (auto simp: transient_def list_all_iff split: sum.splits)

definition flaky :: "(string + http_response) list net" where
  "flaky = \<lparr>net_Do = (\<lambda>_ rs. case rs of [] \<Rightarrow> (Inl ''refused'', []) | r # rest \<Rightarrow> (r, rest)),
     net_wait = (\<lambda>_ rs. (None, rs)), net_now = (\<lambda>_. 0), net_url = (\<lambda>_. None)\<rparr>"

definition answer :: "int \<Rightarrow> http_response" where
  "answer code = \<lparr>hp_status = code, hp_header = (\<lambda>_. []), hp_body = []\<rparr>"

definition sample_get :: http_request where
  "sample_get = \<lparr>hr_method = ''GET'', hr_url = ''https://api.github.com/'', hr_authorization = [], hr_body = NoBody\<rparr>"

theorem send_bounded_witness:
  "fst (send (recording flaky) (Inr sample_get) ([Inr (answer 502), Inl ''reset'', Inr (answer 201)], [])) = Inr (answer 201)
   \<and> length (snd (snd (send (recording flaky) (Inr sample_get) ([Inr (answer 502), Inl ''reset'', Inr (answer 201)], [])))) \<le> 3"
proof -
  let ?s = "send (recording flaky) (Inr sample_get) ([Inr (answer 502), Inl ''reset'', Inr (answer 201)], [])"
  have "?s = (fst ?s, (fst (snd ?s), snd (snd ?s)))" by simp
  from send_bounded [OF this] show ?thesis
    by (simp add: send_def recording_def flaky_def answer_def transient_def)
qed

section \<open>Installation tokens\<close>







definition sample_app :: app_cfg where
  "sample_app = \<lparr>ap_appID = ''7'', ap_base = ''https://api.github.com'', ap_sha256 = (\<lambda>s. s),
     ap_sign = (\<lambda>d. Inr d), ap_quote = (\<lambda>s. s), ap_installation = (\<lambda>_. Inr 9),
     ap_access = (\<lambda>_. Inr (''ghs'', 3600 * second))\<rparr>"



text \<open>Tokens are cached until two minutes before they expire. After a token has been minted, asking
  again with the same key while the clock is more than two minutes before the expiry GitHub gave
  returns the same token and makes no request; a cached token is never returned later than that.\<close>

theorem token_cached_until_expiry:
  assumes "mint N A repo key perms i st = (Inr tok, st')"
  shows "\<exists>expiresAt. as_tokens st' key = Some \<lparr>ct_value = tok, ct_expires = expiresAt - 120 * second\<rparr>
    \<and> (\<forall>n. if net_now N n < expiresAt - 120 * second
           then app_token N A repo key perms (st'\<lparr>as_net := n\<rparr>) = (Inr tok, st'\<lparr>as_net := n\<rparr>)
           else cached N key (st'\<lparr>as_net := n\<rparr>) = None)"
proof -
  obtain expiresAt n1 where st': "st' = st\<lparr>as_net := n1, as_tokens := (as_tokens st)
      (key \<mapsto> \<lparr>ct_value = tok, ct_expires = expiresAt - 120 * second\<rparr>)\<rparr>"
    using assms by (auto simp: mint_def split: sum.splits prod.splits if_splits)
  show ?thesis unfolding st' by (intro exI [of _ expiresAt]) (auto simp: app_token_def cached_def)
qed

theorem token_cached_until_expiry_witness:
  "\<exists>st'. mint flaky sample_app ''acme/app'' ''clone:acme/app'' clonePerms 9
      \<lparr>as_installs = (\<lambda>_. None), as_tokens = (\<lambda>_. None), as_net = [Inr (answer 201)]\<rparr> = (Inr ''ghs'', st')
    \<and> (\<exists>e. as_tokens st' ''clone:acme/app'' = Some \<lparr>ct_value = ''ghs'', ct_expires = e - 120 * second\<rparr>)"
proof -
  let ?st = "\<lparr>as_installs = (\<lambda>_. None), as_tokens = (\<lambda>_. None), as_net = [Inr (answer 201)]\<rparr>"
  let ?m = "mint flaky sample_app ''acme/app'' ''clone:acme/app'' clonePerms 9 ?st"
  have m: "?m = (Inr ''ghs'', snd ?m)"
    by (simp add: mint_def call_def send_def newRequest_def flaky_def answer_def transient_def
        checkResponse_def sample_app_def appJWT_def Let_def)
  from token_cached_until_expiry [OF m] m show ?thesis by blast
qed

section \<open>Inbound events\<close>

lemma checked_accepts: "(\<exists>e. checked x = Inr e) \<longleftrightarrow> buildable x"
  by (auto simp: checked_Inr)

lemma branch_of_ref:
  "(HasPrefix r ''refs/heads/'' \<and> TrimPrefix r ''refs/heads/'' \<noteq> []) \<longleftrightarrow> (\<exists>b. r = ''refs/heads/'' @ b \<and> b \<noteq> [])"
proof (cases "HasPrefix r ''refs/heads/''")
  case True
  then obtain b where b: "r = ''refs/heads/'' @ b" by (auto simp only: HasPrefix_iff)
  then have "TrimPrefix r ''refs/heads/'' = b" by (simp only: TrimPrefix_append)
  with True b show ?thesis by (metis append_same_eq same_append_eq)
next
  case False
  then show ?thesis by (metis HasPrefix_iff)
qed

lemma push_accepted:
  assumes "eventType = ''push''" "push_of body = Inr p"
  shows "(\<exists>e. ParseEvent push_of pr_of eventType body = Inr e) \<longleftrightarrow> \<not> pu_Deleted p
    \<and> (HasPrefix (pu_Ref p) ''refs/heads/'' \<and> TrimPrefix (pu_Ref p) ''refs/heads/'' \<noteq> [])
    \<and> CHR ''/'' \<in> set (pu_FullName p) \<and> length (pu_After p) = 40
    \<and> set (pu_After p) \<subseteq> set ''0123456789abcdef'' \<and> (\<exists>u. pu_CloneURL p = ''https://'' @ u)"
proof (cases "pu_Deleted p \<or> \<not> HasPrefix (pu_Ref p) ''refs/heads/''")
  case True
  then have "ParseEvent push_of pr_of eventType body = Inl ErrIgnored"
    using assms by (simp only: ParseEvent_def sum.case if_True simp_thms)
  with True show ?thesis by auto
next
  case False
  then have "ParseEvent push_of pr_of eventType body = checked \<lparr>ev_Repository = pu_FullName p, ev_CloneURL = pu_CloneURL p,
      ev_CommitSHA = pu_After p, ev_Branch = TrimPrefix (pu_Ref p) ''refs/heads/'',
      ev_EventType = ''push'', ev_PRNumber = 0\<rparr>"
    using assms by (simp only: ParseEvent_def sum.case if_True if_False simp_thms)
  then show ?thesis
    using False by (simp only: checked_accepts buildable_def Event.simps simp_thms) blast
qed

text \<open>Only well-formed events become jobs. An event the parser accepts is a push to a branch that was
  not deleted or a pull request that was opened, reopened or synchronized; its repository contains a
  slash, its commit is forty lower-case hexadecimal digits, its clone url is https and its branch is
  not empty. Conversely every such payload is accepted.\<close>

theorem ParseEvent_exact:
  "(\<exists>e. ParseEvent push_of pr_of eventType body = Inr e) \<longleftrightarrow>
   (eventType = ''push'' \<and> (\<exists>p b. push_of body = Inr p \<and> \<not> pu_Deleted p \<and> pu_Ref p = ''refs/heads/'' @ b \<and> b \<noteq> []
      \<and> CHR ''/'' \<in> set (pu_FullName p) \<and> length (pu_After p) = 40
      \<and> set (pu_After p) \<subseteq> set ''0123456789abcdef'' \<and> (\<exists>u. pu_CloneURL p = ''https://'' @ u)))
 \<or> (eventType = ''pull_request'' \<and> (\<exists>p. pr_of body = Inr p \<and> pr_Action p \<in> {''opened'', ''synchronize'', ''reopened''}
      \<and> CHR ''/'' \<in> set (pr_FullName p) \<and> length (pr_SHA p) = 40
      \<and> set (pr_SHA p) \<subseteq> set ''0123456789abcdef'' \<and> (\<exists>u. pr_CloneURL p = ''https://'' @ u) \<and> pr_Ref p \<noteq> []))"
proof (cases "eventType = ''push''")
  case True
  show ?thesis
  proof (cases "push_of body")
    case (Inl e)
    with True show ?thesis by (simp add: ParseEvent_def)
  next
    case (Inr p)
    have other: "eventType \<noteq> ''pull_request''" using True by simp
    show ?thesis
      unfolding push_accepted [where push_of = push_of and body = body, OF True Inr] branch_of_ref
      using True other Inr by (simp only: sum.inject simp_thms) blast
  qed
next
  case False
  show ?thesis
  proof (cases "eventType = ''pull_request''")
    case True
    then show ?thesis
      by (cases "pr_of body") (simp_all add: ParseEvent_def checked_Inr buildable_def)
  next
    case neither: False
    with False show ?thesis by (simp add: ParseEvent_def)
  qed
qed

end
