(* ===== verification/Jobspec.thy ===== *)
theory Jobspec
  imports Go_Strings
begin

text \<open>
  \<^verbatim>\<open>internal/jobspec/jobspec.go\<close>: the build file of a repository. The YAML decoder is a parameter that
  returns the entries of the map under \<^verbatim>\<open>jobs:\<close>; their keys are distinct, as the keys of a Go map are. Go
  visits a map in an order of its own: \<open>ord\<close> is that order in each loop, any rearrangement of the entries.
\<close>

record SpecJob =
  sj_Name :: string
  sj_Image :: string
  sj_Commands :: "string list"
  sj_Env :: "(string \<times> string) list"
  sj_Labels :: "string list"

type_synonym Spec = "(string \<times> SpecJob) list"

datatype spec_error = SpecRead string | SpecYaml string | SpecNoJobs | SpecNoCommands string

fun parse_loop :: "(string \<times> SpecJob) list \<Rightarrow> Spec \<Rightarrow> spec_error + Spec" where
  "parse_loop [] jobs = Inr jobs"
| "parse_loop ((name, j) # es) jobs =
     (if sj_Commands j = [] then Inl (SpecNoCommands name)
      else parse_loop es (map (\<lambda>(k, v). if k = name then (k, j\<lparr>sj_Name := name\<rparr>) else (k, v)) jobs))"

definition Parse ::
  "(string \<Rightarrow> string + Spec) \<Rightarrow> (Spec \<Rightarrow> Spec) \<Rightarrow> string \<Rightarrow> spec_error + Spec" where
  "Parse yaml ord data =
     (case yaml data of
        Inl e \<Rightarrow> Inl (SpecYaml e)
      | Inr jobs \<Rightarrow> if jobs = [] then Inl SpecNoJobs else parse_loop (ord jobs) jobs)"

definition ParseFile ::
  "(string \<Rightarrow> string + string) \<Rightarrow> (string \<Rightarrow> string + Spec) \<Rightarrow> (Spec \<Rightarrow> Spec) \<Rightarrow> string \<Rightarrow> spec_error + Spec" where
  "ParseFile ReadFile yaml ord path =
     (case ReadFile path of
        Inl e \<Rightarrow> Inl (SpecRead e)
      | Inr data \<Rightarrow> Parse yaml ord data)"

text \<open>\<open>Primary\<close> indexes the sorted names at 0, which panics on an empty map: \<open>None\<close>.\<close>

definition Primary :: "(string list \<Rightarrow> string list) \<Rightarrow> Spec \<Rightarrow> SpecJob option" where
  "Primary ord jobs =
     (case map_of jobs ''test'' of
        Some j \<Rightarrow> Some j
      | None \<Rightarrow>
          (case sort (ord (map fst jobs)) of
             [] \<Rightarrow> None
           | n # _ \<Rightarrow> map_of jobs n))"

section \<open>Facts\<close>

lemma parse_loop_keys: "parse_loop es jobs = Inr out \<Longrightarrow> map fst out = map fst jobs"
proof (induction es jobs rule: parse_loop.induct)
  case (2 name j es jobs)
  then have "map fst out = map fst (map (\<lambda>(k, v). if k = name then (k, j\<lparr>sj_Name := name\<rparr>) else (k, v)) jobs)"
    by (auto split: if_splits)
  then show ?case by (auto simp: comp_def split_beta)
qed simp

lemma parse_loop_other:
  "parse_loop es jobs = Inr out \<Longrightarrow> n \<notin> fst ` set es \<Longrightarrow> map_of out n = map_of jobs n"
proof (induction es jobs rule: parse_loop.induct)
  case (2 name j es jobs)
  have "map_of (map (\<lambda>(k, v). if k = name then (k, j\<lparr>sj_Name := name\<rparr>) else (k, v)) jobs) n = map_of jobs n"
    using 2(3) by (induction jobs) auto
  with 2 show ?case by (auto split: if_splits)
qed simp

lemma map_of_rename:
  "n \<in> fst ` set jobs \<Longrightarrow>
   map_of (map (\<lambda>(k, v). if k = n then (k, j) else (k, v)) jobs) n = Some j"
  by (induction jobs) auto

lemma parse_loop_entry:
  "parse_loop es jobs = Inr out \<Longrightarrow> distinct (map fst es) \<Longrightarrow> fst ` set es \<subseteq> fst ` set jobs \<Longrightarrow>
   (n, j) \<in> set es \<Longrightarrow> sj_Commands j \<noteq> [] \<and> map_of out n = Some (j\<lparr>sj_Name := n\<rparr>)"
proof (induction es jobs rule: parse_loop.induct)
  case (2 name i es jobs)
  let ?jobs = "map (\<lambda>(k, v). if k = name then (k, i\<lparr>sj_Name := name\<rparr>) else (k, v)) jobs"
  have c: "sj_Commands i \<noteq> []" and rest: "parse_loop es ?jobs = Inr out"
    using 2(2) by (auto split: if_splits)
  have keys: "fst ` set ?jobs = fst ` set jobs" by force
  show ?case
  proof (cases "(n, j) = (name, i)")
    case True
    have "map_of out n = map_of ?jobs n"
      using parse_loop_other [OF rest] 2(3) True by force
    with True c 2(4) map_of_rename [of n jobs] show ?thesis by simp
  next
    case False
    with 2 c rest keys show ?thesis by auto
  qed
qed simp

lemma parse_loop_refuses:
  "parse_loop es jobs = Inl e \<Longrightarrow> \<exists>n j. e = SpecNoCommands n \<and> (n, j) \<in> set es \<and> sj_Commands j = []"
  by (induction es jobs rule: parse_loop.induct) (auto split: if_splits)

end
