(* ===== verification/Jobspec_Properties.thy ===== *)
theory Jobspec_Properties
  imports Jobspec
begin

text \<open>
  The build file: which job runs does not depend on the order in which Go visits the map of jobs.
\<close>

text \<open>A loop over a map visits each entry once.\<close>

definition visits :: "('a list \<Rightarrow> 'a list) \<Rightarrow> bool" where
  "visits ord \<longleftrightarrow> (\<forall>xs. set (ord xs) = set xs \<and> length (ord xs) = length xs)"

lemma visits_distinct:
  assumes "visits ord" "distinct (map fst jobs)"
  shows "distinct (map fst (ord jobs))"
proof -
  have "card (fst ` set (ord jobs)) = length (map fst (ord jobs))"
    using assms distinct_card [of "map fst jobs"] by (simp add: visits_def)
  then show ?thesis by (metis card_distinct list.set_map)
qed

text \<open>The job that runs, named after its key: the reference that speaks of no order.\<close>

definition first_name :: "Spec \<Rightarrow> string" where
  "first_name jobs = (if ''test'' \<in> fst ` set jobs then ''test'' else Min (fst ` set jobs))"

lemma Primary_reference:
  assumes "visits nord" "jobs \<noteq> []"
  shows "Primary nord jobs = map_of jobs (first_name jobs)"
proof (cases "''test'' \<in> fst ` set jobs")
  case True
  then show ?thesis by (auto simp: Primary_def first_name_def map_of_eq_None_iff split: option.splits)
next
  case False
  have names: "set (sort (nord (map fst jobs))) = fst ` set jobs" using assms(1) by (simp add: visits_def)
  then obtain k ks where k: "sort (nord (map fst jobs)) = k # ks"
    using assms(2) by (cases "sort (nord (map fst jobs))") auto
  have "sorted (k # ks)" unfolding k [symmetric] by (rule sorted_sort)
  then have "Min (set (k # ks)) = k" by (intro Min_eqI) auto
  with names k have "Min (fst ` set jobs) = k" by simp
  moreover have "map_of jobs ''test'' = None" using False by (simp add: map_of_eq_None_iff)
  ultimately show ?thesis using False k by (simp add: Primary_def first_name_def)
qed

text \<open>C36: The build file. Whatever orders Go chooses for its maps, a decoded file is accepted exactly when it
  defines a job and every job has commands; a refusal names a real fault of the file. Of an accepted
  file, the job that runs is "test" if there is one and the alphabetically first otherwise, with
  its name filled in and everything else as written. So the choice is the same on every run.\<close>

theorem build_file_deterministic:
  assumes "yaml data = Inr jobs" and "distinct (map fst jobs)" and "visits ord" and "visits nord"
  shows "case Parse yaml ord data of
      Inr parsed \<Rightarrow> jobs \<noteq> [] \<and> list_all (\<lambda>(n, j). sj_Commands j \<noteq> []) jobs
        \<and> (\<exists>j. map_of jobs (first_name jobs) = Some j \<and> Primary nord parsed = Some (j\<lparr>sj_Name := first_name jobs\<rparr>))
    | Inl e \<Rightarrow> jobs = [] \<and> e = SpecNoJobs
        \<or> (\<exists>n j. e = SpecNoCommands n \<and> map_of jobs n = Some j \<and> sj_Commands j = [])"
proof (cases "jobs = []")
  case True
  with assms(1) show ?thesis by (simp add: Parse_def)
next
  case False
  have same: "set (ord jobs) = set jobs" "distinct (map fst (ord jobs))"
    using assms(2,3) visits_distinct [OF assms(3,2)] by (simp_all add: visits_def)
  have parse: "Parse yaml ord data = parse_loop (ord jobs) jobs" using assms(1) False by (simp add: Parse_def)
  show ?thesis
  proof (cases "parse_loop (ord jobs) jobs")
    case (Inr parsed)
    have keys: "fst ` set parsed = fst ` set jobs" using parse_loop_keys [OF Inr] by (metis list.set_map)
    have entry: "sj_Commands j \<noteq> [] \<and> map_of parsed n = Some (j\<lparr>sj_Name := n\<rparr>)" if "(n, j) \<in> set jobs" for n j
      using parse_loop_entry [OF Inr same(2)] same(1) that by auto
    have "first_name jobs \<in> fst ` set jobs" using False by (auto simp: first_name_def intro!: Min_in)
    then obtain j where j: "map_of jobs (first_name jobs) = Some j" "(first_name jobs, j) \<in> set jobs"
      by (metis map_of_SomeD map_of_eq_None_iff not_None_eq)
    have "parsed \<noteq> []" using keys False by auto
    moreover have "first_name parsed = first_name jobs" using keys by (simp add: first_name_def)
    ultimately have "Primary nord parsed = Some (j\<lparr>sj_Name := first_name jobs\<rparr>)"
      using Primary_reference [OF assms(4)] entry [OF j(2)] by simp
    with j(1) False entry show ?thesis unfolding parse Inr by (auto simp: list_all_iff)
  next
    case (Inl e)
    then obtain n j where e: "e = SpecNoCommands n" "(n, j) \<in> set (ord jobs)" "sj_Commands j = []"
      using parse_loop_refuses by blast
    with assms(2) same(1) have "map_of jobs n = Some j" by simp
    with e show ?thesis unfolding parse Inl by auto
  qed
qed

definition sample_spec :: Spec where
  "sample_spec = [(''zeta'', \<lparr>sj_Name = [], sj_Image = [], sj_Commands = [''echo z''], sj_Env = [], sj_Labels = []\<rparr>),
     (''alpha'', \<lparr>sj_Name = [], sj_Image = [], sj_Commands = [''echo a''], sj_Env = [], sj_Labels = []\<rparr>)]"

theorem build_file_deterministic_witness:
  "\<exists>parsed job. Parse (\<lambda>_. Inr sample_spec) rev [] = Inr parsed \<and> Primary rev parsed = Some job \<and> sj_Name job = ''alpha''"
proof -
  have v: "visits rev" by (simp add: visits_def)
  have f: "first_name sample_spec = ''alpha''" by code_simp
  have d: "distinct (map fst sample_spec)" by (simp add: sample_spec_def)
  obtain parsed where p: "Parse (\<lambda>_. Inr sample_spec) rev [] = Inr parsed"
    by (simp add: Parse_def sample_spec_def)
  from build_file_deterministic [of "\<lambda>_. Inr sample_spec" "[]" sample_spec rev rev, OF refl d v v] p f show ?thesis by auto
qed

end
