(* ===== verification/Executor.thy ===== *)
theory Executor
  imports Models Jobspec Complex_Main
begin

text \<open>
  \<^verbatim>\<open>internal/executor\<close>: one job in one container. The Docker client is the record \<open>docker\<close>, over a state of
  its own; \<^verbatim>\<open>Execute\<close> returns what it wrote to the log, the result and the error. The goroutine that copies
  the container's output has ended before \<^verbatim>\<open>Execute\<close> writes its last line (\<^verbatim>\<open><-streamDone\<close>), so the writes
  have one order; which event ends the wait is the answer of \<open>dk_Wait\<close>. Go visits the environment map
  in an order of its own: \<open>ord\<close>. Floating-point numbers are rationals; the limits on CPU and memory are
  64-bit integers.
\<close>

section \<open>Go's integers and durations\<close>

definition wrap64 :: "int \<Rightarrow> int" where
  "wrap64 x = (x + 2 ^ 63) mod 2 ^ 64 - 2 ^ 63"

definition trunc_rat :: "rat \<Rightarrow> int" where
  "trunc_rat q = (if q \<ge> 0 then \<lfloor>q\<rfloor> else \<lceil>q\<rceil>)"

text \<open>\<^verbatim>\<open>time.Duration.String\<close>: a fraction is printed without its trailing zeros.\<close>

fun pad_digits :: "nat \<Rightarrow> int \<Rightarrow> string" where
  "pad_digits 0 v = []"
| "pad_digits (Suc k) v = pad_digits k (v div 10) @ Itoa (v mod 10)"

definition frac_digits :: "nat \<Rightarrow> int \<Rightarrow> string" where
  "frac_digits prec v =
     (let ds = rev (dropWhile (\<lambda>c. c = CHR ''0'') (rev (pad_digits prec v)))
      in if ds = [] then [] else ''.'' @ ds)"

definition abs_duration_string :: "duration \<Rightarrow> string" where
  "abs_duration_string u =
     (if u < 1000 then Itoa u @ ''ns''
      else if u < 1000000 then Itoa (u div 1000) @ frac_digits 3 (u mod 1000) @ [char_of (194 :: nat), char_of (181 :: nat)] @ ''s''
      else if u < second then Itoa (u div 1000000) @ frac_digits 6 (u mod 1000000) @ ''ms''
      else
        (let secs = Itoa (u div second mod 60) @ frac_digits 9 (u mod second) @ ''s'';
             mins = u div (60 * second)
         in if mins = 0 then secs
            else if mins < 60 then Itoa mins @ ''m'' @ secs
            else Itoa (mins div 60) @ ''h'' @ Itoa (mins mod 60) @ ''m'' @ secs))"

definition duration_string :: "duration \<Rightarrow> string" where
  "duration_string d =
     (if d = 0 then ''0s'' else if d < 0 then ''-'' @ abs_duration_string (- d) else abs_duration_string d)"

section \<open>executor.go\<close>

record Request =
  x_Job :: Job
  x_Spec :: SpecJob
  x_Workspace :: string
  x_Timeout :: duration
  x_CPUs :: rat
  x_MemoryMB :: int
  x_Network :: string

record Result =
  x_ExitCode :: int
  x_TimedOut :: bool

text \<open>The zero value.\<close>

definition no_result :: Result where
  "no_result = \<lparr>x_ExitCode = 0, x_TimedOut = False\<rparr>"

section \<open>docker.go\<close>

record container =
  cc_Name :: string
  cc_Image :: string
  cc_Cmd :: "string list"
  cc_WorkingDir :: string
  cc_Env :: "string list"
  cc_Tty :: bool
  cc_BindMounts :: "(string \<times> string) list"  \<comment> \<open>source and target\<close>
  cc_NetworkMode :: string
  cc_NanoCPUs :: int
  cc_Memory :: int
  cc_PidsLimit :: int
  cc_SecurityOpt :: "string list"
  cc_CapDrop :: "string list"
  cc_AutoRemove :: bool

datatype wait_event =
    WaitFailed string
  | Exited int
  | DeadlineExceeded
  | ContextCancelled string

record 'n docker =
  dk_ImageList :: "string \<Rightarrow> 'n \<Rightarrow> (string + nat) \<times> 'n"  \<comment> \<open>how many images match\<close>
  dk_ImagePull :: "string \<Rightarrow> 'n \<Rightarrow> (string + string option) \<times> 'n"
    \<comment> \<open>the pull is refused, or its progress stream ends, with an error or not\<close>
  dk_ContainerCreate :: "container \<Rightarrow> 'n \<Rightarrow> (string + string) \<times> 'n"
  dk_ContainerStart :: "string \<Rightarrow> 'n \<Rightarrow> string option \<times> 'n"
  dk_ContainerLogs :: "string \<Rightarrow> 'n \<Rightarrow> (string + string list \<times> string option) \<times> 'n"
    \<comment> \<open>what \<open>StdCopy\<close> writes before the stream ends, and its error\<close>
  dk_Wait :: "string \<Rightarrow> 'n \<Rightarrow> wait_event \<times> 'n"
  dk_Ended :: "'n \<Rightarrow> bool"  \<comment> \<open>\<open>ctx.Err() != nil\<close>\<close>
  dk_ContainerRemove :: "string \<Rightarrow> 'n \<Rightarrow> string option \<times> 'n"

definition newline :: string where
  "newline = [char_of (10 :: nat)]"

definition script :: "string list \<Rightarrow> string" where
  "script commands = ''set -e'' @ newline @ join_with newline commands"

definition container_env :: "((string \<times> string) list \<Rightarrow> (string \<times> string) list) \<Rightarrow> Request \<Rightarrow> string list" where
  "container_env ord req =
     map (\<lambda>(k, v). k @ ''='' @ v) (ord (sj_Env (x_Spec req))) @
     [''CI=true'', ''FORGERUN_JOB_ID='' @ j_id (x_Job req), ''FORGERUN_COMMIT='' @ j_commit_sha (x_Job req),
      ''FORGERUN_BRANCH='' @ j_branch (x_Job req)]"

definition container_for :: "((string \<times> string) list \<Rightarrow> (string \<times> string) list) \<Rightarrow> Request \<Rightarrow> container" where
  "container_for ord req = \<lparr>
     cc_Name = ''forgerun-'' @ j_id (x_Job req),
     cc_Image = sj_Image (x_Spec req),
     cc_Cmd = [''/bin/sh'', ''-c'', script (sj_Commands (x_Spec req))],
     cc_WorkingDir = ''/workspace'',
     cc_Env = container_env ord req,
     cc_Tty = False,
     cc_BindMounts = [(x_Workspace req, ''/workspace'')],
     cc_NetworkMode = x_Network req,
     cc_NanoCPUs = trunc_rat (x_CPUs req * 1000000000),
     cc_Memory = wrap64 (x_MemoryMB req * 1024 * 1024),
     cc_PidsLimit = 512,
     cc_SecurityOpt = [''no-new-privileges''],
     cc_CapDrop = [''ALL''],
     cc_AutoRemove = False\<rparr>"

definition ensureImage :: "'n docker \<Rightarrow> string \<Rightarrow> 'n \<Rightarrow> (string list \<times> string option) \<times> 'n" where
  "ensureImage D ref n =
     (case dk_ImageList D ref n of
        (Inl e, n1) \<Rightarrow> (([], Some (''list images: '' @ e)), n1)
      | (Inr found, n1) \<Rightarrow>
          if found > 0 then (([], None), n1)
          else
            (let out = [''forgerun: pulling image '' @ ref @ newline] in
             case dk_ImagePull D ref n1 of
               (Inl e, n2) \<Rightarrow> ((out, Some (''pull image '' @ ref @ '': '' @ e)), n2)
             | (Inr err, n2) \<Rightarrow> ((out, err), n2)))"

definition stream_logs :: "'n docker \<Rightarrow> string \<Rightarrow> 'n \<Rightarrow> string list \<times> 'n" where
  "stream_logs D i n =
     (case dk_ContainerLogs D i n of
        (Inl e, n1) \<Rightarrow> ([''forgerun: cannot stream logs: '' @ e @ newline], n1)
      | (Inr (out, Some e), n1) \<Rightarrow>
          (if dk_Ended D n1 then out else out @ [''forgerun: log stream ended: '' @ e @ newline], n1)
      | (Inr (out, None), n1) \<Rightarrow> (out, n1))"

definition ending :: "Request \<Rightarrow> wait_event \<Rightarrow> string list \<times> Result \<times> string option" where
  "ending req ev =
     (case ev of
        WaitFailed e \<Rightarrow> ([], no_result, Some (''wait for container: '' @ e))
      | Exited code \<Rightarrow> ([], \<lparr>x_ExitCode = code, x_TimedOut = False\<rparr>, None)
      | DeadlineExceeded \<Rightarrow>
          ([newline @ ''forgerun: job exceeded its '' @ duration_string (x_Timeout req) @ '' timeout, killing container'' @ newline],
           \<lparr>x_ExitCode = -1, x_TimedOut = True\<rparr>, None)
      | ContextCancelled e \<Rightarrow>
          ([newline @ ''forgerun: job stopped, killing container'' @ newline],
           \<lparr>x_ExitCode = -1, x_TimedOut = False\<rparr>, Some e))"

definition run_container :: "'n docker \<Rightarrow> Request \<Rightarrow> string \<Rightarrow> 'n \<Rightarrow> (string list \<times> Result \<times> string option) \<times> 'n" where
  "run_container D req i n =
     (case dk_ContainerStart D i n of
        (Some e, n1) \<Rightarrow> (([], no_result, Some (''start container: '' @ e)), n1)
      | (None, n1) \<Rightarrow>
          (case stream_logs D i n1 of (out, n2) \<Rightarrow>
          (case dk_Wait D i n2 of (ev, n3) \<Rightarrow>
          (case ending req ev of (fin, res, err) \<Rightarrow> ((out @ fin, res, err), n3)))))"

definition Execute :: "'n docker \<Rightarrow> ((string \<times> string) list \<Rightarrow> (string \<times> string) list) \<Rightarrow> Request \<Rightarrow> 'n \<Rightarrow>
    (string list \<times> Result \<times> string option) \<times> 'n" where
  "Execute D ord req n =
     (case ensureImage D (sj_Image (x_Spec req)) n of
        ((out, Some e), n1) \<Rightarrow> ((out, no_result, Some e), n1)
      | ((out, None), n1) \<Rightarrow>
          (case dk_ContainerCreate D (container_for ord req) n1 of
             (Inl e, n2) \<Rightarrow> ((out, no_result, Some (''create container: '' @ e)), n2)
           | (Inr i, n2) \<Rightarrow>
               (case run_container D req i n2 of
                  ((out', res, err), n3) \<Rightarrow>
                    ((out @ out', res, err), snd (dk_ContainerRemove D i n3)))))"
  \<comment> \<open>the deferred \<open>ContainerRemove\<close> runs on every path after the creation\<close>

section \<open>Facts\<close>

lemma wrap64_id: "- (2 ^ 63) \<le> x \<Longrightarrow> x < 2 ^ 63 \<Longrightarrow> wrap64 x = x"
  by (simp add: wrap64_def)

text \<open>The calls made through a client, oldest first.\<close>

datatype docker_call =
    Looked string
  | Pulled string
  | Created container "string + string"
  | Started string
  | Streamed string
  | Waited string wait_event
  | Removed string

definition watched :: "'n docker \<Rightarrow> ('n \<times> docker_call list) docker" where
  "watched D = \<lparr>
     dk_ImageList = (\<lambda>r (n, log). case dk_ImageList D r n of (a, n') \<Rightarrow> (a, (n', log @ [Looked r]))),
     dk_ImagePull = (\<lambda>r (n, log). case dk_ImagePull D r n of (a, n') \<Rightarrow> (a, (n', log @ [Pulled r]))),
     dk_ContainerCreate = (\<lambda>c (n, log). case dk_ContainerCreate D c n of (a, n') \<Rightarrow> (a, (n', log @ [Created c a]))),
     dk_ContainerStart = (\<lambda>i (n, log). case dk_ContainerStart D i n of (a, n') \<Rightarrow> (a, (n', log @ [Started i]))),
     dk_ContainerLogs = (\<lambda>i (n, log). case dk_ContainerLogs D i n of (a, n') \<Rightarrow> (a, (n', log @ [Streamed i]))),
     dk_Wait = (\<lambda>i (n, log). case dk_Wait D i n of (a, n') \<Rightarrow> (a, (n', log @ [Waited i a]))),
     dk_Ended = (\<lambda>(n, log). dk_Ended D n),
     dk_ContainerRemove = (\<lambda>i (n, log). case dk_ContainerRemove D i n of (a, n') \<Rightarrow> (a, (n', log @ [Removed i])))\<rparr>"

lemma ensureImage_watched:
  "ensureImage (watched D) ref (n, tr) = (r, (n', tr')) \<Longrightarrow> tr' = tr @ [Looked ref] \<or> tr' = tr @ [Looked ref, Pulled ref]"
  by (auto simp: ensureImage_def watched_def Let_def split: prod.splits sum.splits if_splits)

lemma run_container_watched:
  "run_container (watched D) req i (n, tr) = ((out, res, err), (n', tr')) \<Longrightarrow>
   (\<exists>e. tr' = tr @ [Started i] \<and> res = no_result \<and> err = Some e)
   \<or> (\<exists>ev. tr' = tr @ [Started i, Streamed i, Waited i ev] \<and> (res, err) = snd (ending req ev))"
  by (auto simp: run_container_def stream_logs_def watched_def split: prod.splits sum.splits if_splits option.splits)

text \<open>The calls of a whole execution.\<close>

lemma Execute_watched:
  assumes "Execute (watched D) ord req (n, []) = ((out, res, err), (n', calls))"
  shows "\<exists>pre. pre \<in> {[Looked (sj_Image (x_Spec req))], [Looked (sj_Image (x_Spec req)), Pulled (sj_Image (x_Spec req))]} \<and>
    (calls = pre \<and> err \<noteq> None
   \<or> (\<exists>e. calls = pre @ [Created (container_for ord req) (Inl e)] \<and> err \<noteq> None)
   \<or> (\<exists>i. calls = pre @ [Created (container_for ord req) (Inr i), Started i, Removed i] \<and> err \<noteq> None)
   \<or> (\<exists>i ev. calls = pre @ [Created (container_for ord req) (Inr i), Started i, Streamed i, Waited i ev, Removed i]
        \<and> (res, err) = snd (ending req ev)))"
proof -
  let ?img = "sj_Image (x_Spec req)"
  obtain o1 e1 n1 tr1 where im: "ensureImage (watched D) ?img (n, []) = ((o1, e1), (n1, tr1))" by (metis prod.exhaust)
  from ensureImage_watched [OF this] have pre: "tr1 \<in> {[Looked ?img], [Looked ?img, Pulled ?img]}" by simp
  show ?thesis
  proof (cases e1)
    case (Some e)
    with assms im pre show ?thesis by (auto simp: Execute_def)
  next
    case None
    obtain r2 n2 where cr: "dk_ContainerCreate D (container_for ord req) n1 = (r2, n2)" by force
    then have cw: "dk_ContainerCreate (watched D) (container_for ord req) (n1, tr1) =
        (r2, (n2, tr1 @ [Created (container_for ord req) r2]))" by (simp add: watched_def)
    show ?thesis
    proof (cases r2)
      case (Inl e)
      with assms im None cw have "calls = tr1 @ [Created (container_for ord req) (Inl e)]" "err \<noteq> None"
        by (auto simp: Execute_def)
      with pre show ?thesis by blast
    next
      case (Inr i)
      let ?tr2 = "tr1 @ [Created (container_for ord req) (Inr i)]"
      obtain o3 res3 err3 n3 tr3 where rc: "run_container (watched D) req i (n2, ?tr2) = ((o3, res3, err3), (n3, tr3))"
        by (metis prod.exhaust)
      have "calls = tr3 @ [Removed i]" "res = res3" "err = err3"
        using assms im None cw Inr rc by (auto simp: Execute_def watched_def split: prod.splits)
      with run_container_watched [OF rc] pre show ?thesis by fastforce
    qed
  qed
qed

section \<open>The interface\<close>

text \<open>
  \<^verbatim>\<open>executor.Executor\<close> as the agent uses it: an executor and the exit code with which the commands of a
  request ended, if they ended. An answer without an error is that exit code, or says that time ran out.
\<close>

locale job_executor =
  fixes exec :: "Request \<Rightarrow> 'n \<Rightarrow> (string list \<times> Result \<times> string option) \<times> 'n"
    and exit_code :: "Request \<Rightarrow> 'n \<Rightarrow> int option"
  assumes answers: "fst (exec rq n) = (out, res, None) \<Longrightarrow> \<not> x_TimedOut res \<Longrightarrow> exit_code rq n = Some (x_ExitCode res)"
    and late: "fst (exec rq n) = (out, res, None) \<Longrightarrow> x_TimedOut res \<Longrightarrow> exit_code rq n = None"
begin

lemma zero_iff:
  "fst (exec rq n) = (out, res, None) \<Longrightarrow> x_ExitCode res = 0 \<and> \<not> x_TimedOut res \<longleftrightarrow> exit_code rq n = Some 0"
  using answers [of rq n out res] late [of rq n out res] by (cases "x_TimedOut res") auto

end

fun exit_of :: "docker_call list \<Rightarrow> int option" where
  "exit_of [] = None"
| "exit_of (c # cs) = (case c of Waited _ (Exited code) \<Rightarrow> Some code | _ \<Rightarrow> exit_of cs)"

definition container_exit :: "'n docker \<Rightarrow> ((string \<times> string) list \<Rightarrow> (string \<times> string) list) \<Rightarrow> Request \<Rightarrow> 'n \<Rightarrow> int option" where
  "container_exit D ord rq n = exit_of (snd (snd (Execute (watched D) ord rq (n, []))))"

text \<open>Watching changes nothing.\<close>

lemma watched_transparent:
  "fst (ensureImage (watched D) ref (n, tr)) = fst (ensureImage D ref n)"
  "fst (snd (ensureImage (watched D) ref (n, tr))) = snd (ensureImage D ref n)"
  "fst (run_container (watched D) req i (n, tr)) = fst (run_container D req i n)"
  "fst (snd (run_container (watched D) req i (n, tr))) = snd (run_container D req i n)"
  by (auto simp: ensureImage_def run_container_def stream_logs_def watched_def Let_def
      split: prod.splits sum.splits option.splits)

lemma Execute_transparent: "fst (Execute (watched D) ord req (n, tr)) = fst (Execute D ord req n)"
proof -
  let ?img = "sj_Image (x_Spec req)"
  obtain o1 e1 n1 tr1 where im: "ensureImage (watched D) ?img (n, tr) = ((o1, e1), (n1, tr1))" by (metis prod.exhaust)
  then have im': "ensureImage D ?img n = ((o1, e1), n1)"
    using watched_transparent(1,2) [of D ?img n tr] by (simp add: prod_eq_iff)
  have cr: "dk_ContainerCreate (watched D) c (n1, tr1) =
      (fst (dk_ContainerCreate D c n1), (snd (dk_ContainerCreate D c n1), tr1 @ [Created c (fst (dk_ContainerCreate D c n1))]))" for c
    by (simp add: watched_def split: prod.splits)
  show ?thesis
  proof (cases e1)
    case (Some e)
    then show ?thesis by (simp add: Execute_def im im')
  next
    case None
    obtain r n2 where c: "dk_ContainerCreate D (container_for ord req) n1 = (r, n2)" by force
    show ?thesis
    proof (cases r)
      case (Inl e)
      then show ?thesis using None by (simp add: Execute_def im im' cr c)
    next
      case (Inr i)
      let ?tr = "tr1 @ [Created (container_for ord req) (Inr i)]"
      obtain o2 res err m where "run_container (watched D) req i (n2, ?tr) = ((o2, res, err), m)" by (metis prod.exhaust)
      moreover from this obtain m' where "run_container D req i n2 = ((o2, res, err), m')"
        using watched_transparent(3) [of D req i n2 ?tr] by (metis fst_conv prod.exhaust)
      ultimately show ?thesis using None Inr by (simp add: Execute_def im im' cr c)
    qed
  qed
qed

lemma docker_answers:
  assumes "fst (Execute D ord rq n) = (out, res, None)"
  shows "container_exit D ord rq n = (if x_TimedOut res then None else Some (x_ExitCode res))"
proof -
  obtain n' calls where x: "Execute (watched D) ord rq (n, []) = ((out, res, None), (n', calls))"
    using assms Execute_transparent [of D ord rq n "[]"] by (metis prod.exhaust fst_conv)
  from Execute_watched [OF x] obtain pre i ev where
    "pre \<in> {[Looked (sj_Image (x_Spec rq))], [Looked (sj_Image (x_Spec rq)), Pulled (sj_Image (x_Spec rq))]}"
    "calls = pre @ [Created (container_for ord rq) (Inr i), Started i, Streamed i, Waited i ev, Removed i]"
    "(res, None) = snd (ending rq ev)" by blast
  with x show ?thesis by (cases ev) (auto simp: container_exit_def ending_def)
qed

interpretation docker: job_executor "Execute D ord" "container_exit D ord" for D ord
  by unfold_locales (simp_all add: docker_answers)

end
