(* ===== verification/Logstream.thy ===== *)
theory Logstream
  imports Prelude
begin

text \<open>
  \<^verbatim>\<open>internal/runner/logstream.go\<close>: the buffer between a build and the control plane. The callback \<^verbatim>\<open>send\<close> is a
  function on the state \<open>n\<close> of the world it acts on. \<open>Write\<close> and the two halves of \<open>flush\<close> are the atomic
  sections of the code: \<open>flush_take\<close> empties the buffer under \<^verbatim>\<open>mu\<close>, \<open>flush_send\<close> numbers the chunk and
  calls \<^verbatim>\<open>send\<close>; \<^verbatim>\<open>sendMu\<close> is held over both, which the chunk in hand stands for. \<open>stream_step\<close> is any
  interleaving of the build, the ticker and \<open>Close\<close>. The sequence number is a Go int; it stays far
  below its bound and is an integer here.
\<close>

record logStreamer =
  ls_buf :: string
  ls_hand :: "string option"  \<comment> \<open>the chunk of the flush that holds \<open>sendMu\<close>\<close>
  ls_seq :: int
  ls_done :: bool
  ls_sent :: "(int \<times> string) list"  \<comment> \<open>the calls of \<open>send\<close> so far, oldest first\<close>

type_synonym 'n sender = "int \<Rightarrow> string \<Rightarrow> 'n \<Rightarrow> 'n"

definition newLogStreamer :: logStreamer where
  "newLogStreamer = \<lparr>ls_buf = [], ls_hand = None, ls_seq = 0, ls_done = False, ls_sent = []\<rparr>"

definition Write :: "string \<Rightarrow> logStreamer \<Rightarrow> logStreamer" where
  "Write p s = s\<lparr>ls_buf := ls_buf s @ p\<rparr>"

definition flush_take :: "logStreamer \<Rightarrow> logStreamer" where
  "flush_take s = (if ls_buf s = [] then s else s\<lparr>ls_buf := [], ls_hand := Some (ls_buf s)\<rparr>)"

definition flush_send :: "'n sender \<Rightarrow> logStreamer \<Rightarrow> 'n \<Rightarrow> logStreamer \<times> 'n" where
  "flush_send send s n =
     (case ls_hand s of
        None \<Rightarrow> (s, n)
      | Some chunk \<Rightarrow>
          (s\<lparr>ls_hand := None, ls_seq := ls_seq s + 1, ls_sent := ls_sent s @ [(ls_seq s + 1, chunk)]\<rparr>,
           send (ls_seq s + 1) chunk n))"

definition flush :: "'n sender \<Rightarrow> logStreamer \<Rightarrow> 'n \<Rightarrow> logStreamer \<times> 'n" where
  "flush send s n = flush_send send (flush_take s) n"

definition Close :: "'n sender \<Rightarrow> logStreamer \<Rightarrow> 'n \<Rightarrow> logStreamer \<times> 'n" where
  "Close send s n = (if ls_done s then (s, n) else flush send (s\<lparr>ls_done := True\<rparr>) n)"

section \<open>Interleavings\<close>

text \<open>A step with the bytes the build wrote in it; a flush can start only while no other holds \<^verbatim>\<open>sendMu\<close>.\<close>

inductive stream_step :: "'n sender \<Rightarrow> logStreamer \<times> 'n \<Rightarrow> string \<Rightarrow> logStreamer \<times> 'n \<Rightarrow> bool"
  for send :: "'n sender" where
  written: "stream_step send (s, n) p (Write p s, n)"
| taken: "ls_hand s = None \<Longrightarrow> stream_step send (s, n) [] (flush_take s, n)"
| sent: "stream_step send (s, n) [] (flush_send send s n)"
| closed: "\<not> ls_done s \<Longrightarrow> stream_step send (s, n) [] (s\<lparr>ls_done := True\<rparr>, n)"

inductive_cases stream_stepE: "stream_step send c p d"

inductive stream_run :: "'n sender \<Rightarrow> logStreamer \<times> 'n \<Rightarrow> string \<Rightarrow> logStreamer \<times> 'n \<Rightarrow> bool"
  for send :: "'n sender" and c :: "logStreamer \<times> 'n" where
  start: "stream_run send c [] c"
| further: "stream_run send c out d \<Longrightarrow> stream_step send d p e \<Longrightarrow> stream_run send c (out @ p) e"

definition in_transit :: "logStreamer \<Rightarrow> string" where
  "in_transit s = (case ls_hand s of None \<Rightarrow> [] | Some c \<Rightarrow> c) @ ls_buf s"

text \<open>
  The invariant: what was sent, what is in hand and what is buffered make up what was written; the
  numbers are 1, 2, 3 and so on; no chunk is empty; the world has seen exactly these calls in this order.
\<close>

definition stream_inv :: "'n sender \<Rightarrow> 'n \<Rightarrow> string \<Rightarrow> logStreamer \<times> 'n \<Rightarrow> bool" where
  "stream_inv send n0 out c \<longleftrightarrow> (case c of (s, n) \<Rightarrow>
     concat (map snd (ls_sent s)) @ in_transit s = out
     \<and> map fst (ls_sent s) = map int [1..<Suc (length (ls_sent s))] \<and> ls_seq s = int (length (ls_sent s))
     \<and> [] \<notin> set (map snd (ls_sent s)) \<and> ls_hand s \<noteq> Some []
     \<and> n = fold (\<lambda>(q, chunk). send q chunk) (ls_sent s) n0)"

lemma stream_inv_new: "stream_inv send n [] (newLogStreamer, n)"
  by (simp add: stream_inv_def newLogStreamer_def in_transit_def)

lemma Write_inv: "stream_inv send n0 out (s, n) \<Longrightarrow> stream_inv send n0 (out @ p) (Write p s, n)"
  by (auto simp: stream_inv_def Write_def in_transit_def)

lemma flush_take_inv:
  "stream_inv send n0 out (s, n) \<Longrightarrow> ls_hand s = None \<Longrightarrow> stream_inv send n0 out (flush_take s, n)"
  by (auto simp: stream_inv_def flush_take_def in_transit_def)

lemma flush_send_inv: "stream_inv send n0 out (s, n) \<Longrightarrow> stream_inv send n0 out (flush_send send s n)"
  by (auto simp: stream_inv_def flush_send_def in_transit_def split: option.splits)

lemma done_inv: "stream_inv send n0 out (s, n) \<Longrightarrow> stream_inv send n0 out (s\<lparr>ls_done := b\<rparr>, n)"
  by (auto simp: stream_inv_def in_transit_def)

lemma stream_step_inv: "stream_step send c p d \<Longrightarrow> stream_inv send n0 out c \<Longrightarrow> stream_inv send n0 (out @ p) d"
  by (erule stream_stepE) (simp_all add: Write_inv flush_take_inv flush_send_inv done_inv)

lemma stream_run_inv: "stream_run send (newLogStreamer, n0) out d \<Longrightarrow> stream_inv send n0 out d"
  by (induction rule: stream_run.induct) (auto simp: stream_inv_new intro: stream_step_inv)

lemma flush_inv:
  "stream_inv send n0 out (s, n) \<Longrightarrow> ls_hand s = None \<Longrightarrow> stream_inv send n0 out (flush send s n)"
  by (simp add: flush_def flush_send_inv flush_take_inv)

lemma flush_empties: "ls_hand s = None \<Longrightarrow> in_transit (fst (flush send s n)) = []"
  by (auto simp: flush_def flush_take_def flush_send_def in_transit_def)

lemma flush_hand [simp]: "ls_hand s = None \<Longrightarrow> ls_hand (fst (flush send s n)) = None"
  by (auto simp: flush_def flush_take_def flush_send_def split: option.splits)

lemma Write_hand [simp]: "ls_hand (Write p s) = ls_hand s"
  by (simp add: Write_def)

lemma Close_inv:
  "stream_inv send n0 out (s, n) \<Longrightarrow> ls_hand s = None \<Longrightarrow> stream_inv send n0 out (Close send s n)"
  by (simp add: Close_def flush_inv done_inv)

lemma Close_delivers:
  assumes "stream_inv send n0 out (s, n)" "ls_hand s = None" "\<not> ls_done s" "Close send s n = (t, m)"
  shows "concat (map snd (ls_sent t)) = out \<and> m = fold (\<lambda>(q, chunk). send q chunk) (ls_sent t) n0"
proof -
  have "stream_inv send n0 out (t, m)" using Close_inv [OF assms(1,2)] assms(4) by simp
  moreover have "in_transit t = []"
    using flush_empties [of "s\<lparr>ls_done := True\<rparr>" send n] assms(2-4) by (simp add: Close_def)
  ultimately show ?thesis by (simp add: stream_inv_def)
qed

end
