(* ===== verification/Workspace.thy ===== *)
theory Workspace
  imports Go_Strings
begin

text \<open>
  \<^verbatim>\<open>internal/runner/workspace.go\<close>: the checkout of one commit into a directory of the runner. The host
  (\<^verbatim>\<open>os.MkdirAll\<close>, \<^verbatim>\<open>os.RemoveAll\<close>, and a command run in a directory, which returns its output and its
  error) is the record \<open>machine\<close>, over a state of its own. \<^verbatim>\<open>filepath.Join\<close> is translated with the lexical
  cleaning that Go does on Unix.
\<close>

section \<open>Package filepath\<close>

text \<open>The elements of a path, innermost first.\<close>

fun clean_step :: "bool \<Rightarrow> string list \<Rightarrow> string \<Rightarrow> string list" where
  "clean_step rooted stack seg =
     (if seg = [] \<or> seg = ''.'' then stack
      else if seg = ''..'' then
        (case stack of
           [] \<Rightarrow> if rooted then [] else [''..'']
         | inner # rest \<Rightarrow> if inner = ''..'' then ''..'' # stack else rest)
      else seg # stack)"

definition Clean :: "string \<Rightarrow> string" where
  "Clean path =
     (let rooted = HasPrefix path ''/'';
          out = join_with ''/'' (rev (foldl (clean_step rooted) [] (split_on CHR ''/'' path)))
      in if rooted then ''/'' @ out else if out = [] then ''.'' else out)"

fun Join :: "string list \<Rightarrow> string" where
  "Join [] = []"
| "Join (e # es) = (if e = [] then Join es else Clean (join_with ''/'' (e # es)))"

section \<open>The checkout\<close>

record checkout =
  co_Root :: string
  co_JobID :: string
  co_CloneURL :: string
  co_CommitSHA :: string
  co_Branch :: string
  co_Token :: string

record 'n machine =
  mc_MkdirAll :: "string \<Rightarrow> 'n \<Rightarrow> string option \<times> 'n"
  mc_RemoveAll :: "string \<Rightarrow> 'n \<Rightarrow> string option \<times> 'n"
  mc_Command :: "string \<Rightarrow> string list \<Rightarrow> string list \<Rightarrow> 'n \<Rightarrow> (string \<times> string option) \<times> 'n"
    \<comment> \<open>directory, variables added to the environment, arguments; the combined output and the error\<close>

definition run_command :: "('n, 'z) machine_scheme \<Rightarrow> string \<Rightarrow> string list \<Rightarrow> 'n \<Rightarrow> (string \<times> string option) \<times> 'n" where
  "run_command M dir args n = mc_Command M dir [''GIT_TERMINAL_PROMPT=0''] args n"

definition authArgs :: "string \<Rightarrow> string list" where
  "authArgs token =
     (if token = [] then []
      else let basic = StdEncoding (''x-access-token:'' @ token)
           in [''-c'', ''http.extraheader=AUTHORIZATION: basic '' @ basic])"

definition git :: "string list \<Rightarrow> string list \<Rightarrow> string list" where
  "git auth args = [''git''] @ auth @ args"

definition redact :: "string \<Rightarrow> string \<Rightarrow> string" where
  "redact s token = (if token = [] then s else ReplaceAll s token ''***'')"

definition workspace_dir :: "checkout \<Rightarrow> string" where
  "workspace_dir c = Join [co_Root c, ''forgerun-'' @ co_JobID c]"

definition give_up :: "('n, 'z) machine_scheme \<Rightarrow> string \<Rightarrow> string \<Rightarrow> 'n \<Rightarrow> (string + string) \<times> 'n" where
  "give_up M dir msg n = (Inl msg, snd (mc_RemoveAll M dir n))"
  \<comment> \<open>\<open>os.RemoveAll(dir); return "", err\<close>\<close>

fun setup_steps :: "('n, 'z) machine_scheme \<Rightarrow> string \<Rightarrow> string list list \<Rightarrow> 'n \<Rightarrow> string option \<times> 'n" where
  "setup_steps M dir [] n = (None, n)"
| "setup_steps M dir (s # ss) n =
     (case run_command M dir s n of
        ((out, Some e), n1) \<Rightarrow> (Some (join_with '' '' s @ '': '' @ e @ '': '' @ out), n1)
      | ((_, None), n1) \<Rightarrow> setup_steps M dir ss n1)"

definition check_out :: "('n, 'z) machine_scheme \<Rightarrow> checkout \<Rightarrow> string \<Rightarrow> 'n \<Rightarrow> (string + string) \<times> 'n" where
  "check_out M c dir n =
     (case run_command M dir (git (authArgs (co_Token c)) [''checkout'', ''-q'', co_CommitSHA c]) n of
        ((out, Some e), n1) \<Rightarrow>
          give_up M dir (''checkout '' @ co_CommitSHA c @ '': '' @ e @ '': '' @ redact out (co_Token c)) n1
      | ((_, None), n1) \<Rightarrow> (Inr dir, n1))"

definition fetch :: "('n, 'z) machine_scheme \<Rightarrow> checkout \<Rightarrow> string \<Rightarrow> 'n \<Rightarrow> string option \<times> 'n" where
  "fetch M c dir n =
     (case run_command M dir (git (authArgs (co_Token c)) [''fetch'', ''-q'', ''--depth'', ''1'', ''origin'', co_CommitSHA c]) n of
        ((_, None), n1) \<Rightarrow> (None, n1)
      | ((_, Some _), n1) \<Rightarrow>
          (case run_command M dir (git (authArgs (co_Token c)) [''fetch'', ''-q'', ''--depth'', ''50'', ''origin'', co_Branch c]) n1 of
             ((out, Some e), n2) \<Rightarrow>
               (Some (''fetch '' @ co_Branch c @ '': '' @ e @ '': '' @ redact out (co_Token c)), n2)
           | ((_, None), n2) \<Rightarrow> (None, n2)))"

definition prepareWorkspace :: "('n, 'z) machine_scheme \<Rightarrow> checkout \<Rightarrow> 'n \<Rightarrow> (string + string) \<times> 'n" where
  "prepareWorkspace M c n =
     (let dir = workspace_dir c in
      case mc_MkdirAll M dir n of
        (Some e, n1) \<Rightarrow> (Inl (''create workspace: '' @ e), n1)
      | (None, n1) \<Rightarrow>
          (case setup_steps M dir [[''git'', ''init'', ''-q''], [''git'', ''remote'', ''add'', ''origin'', co_CloneURL c]] n1 of
             (Some msg, n2) \<Rightarrow> give_up M dir msg n2
           | (None, n2) \<Rightarrow>
               (case fetch M c dir n2 of
                  (Some msg, n3) \<Rightarrow> give_up M dir msg n3
                | (None, n3) \<Rightarrow> check_out M c dir n3)))"

section \<open>Redaction\<close>

text \<open>
  A token that shares no character with the mask never survives in a redacted text: a match would
  have to lie inside a stretch that the leftmost search has already passed over.
\<close>

lemma HasPrefix_redacted:
  "HasPrefix (ReplaceAll s old ''***'') p \<Longrightarrow> CHR ''*'' \<notin> set p \<Longrightarrow> HasPrefix s p"
proof (induction s old "''***''" arbitrary: p rule: ReplaceAll.induct)
  case (1 s old)
  show ?case
  proof (cases p)
    case (Cons c cs)
    with 1 show ?thesis
      by (cases s) (auto simp: ReplaceAll.simps [of "_ # _"] ReplaceAll.simps [of "[]"] split: if_splits)
  qed simp
qed

lemma Contains_drop_char: "Contains (c # s) p \<Longrightarrow> p \<noteq> [] \<Longrightarrow> c \<notin> set p \<Longrightarrow> Contains s p"
  by (cases p) auto

lemma redacted_free:
  "old \<noteq> [] \<Longrightarrow> CHR ''*'' \<notin> set old \<Longrightarrow> \<not> Contains (ReplaceAll s old ''***'') old"
proof (induction s old "''***''" rule: ReplaceAll.induct)
  case (1 s old)
  consider (empty) "s = []" | (match) "s \<noteq> []" "HasPrefix s old"
    | (skip) c cs where "s = c # cs" "\<not> HasPrefix s old" by (cases s) auto
  then show ?case
  proof cases
    case empty
    with 1 show ?thesis by (simp add: ReplaceAll.simps [of s])
  next
    case match
    with 1 have "\<not> Contains (ReplaceAll (drop (length old) s) old ''***'') old" by simp
    then have "\<not> Contains (''***'' @ ReplaceAll (drop (length old) s) old ''***'') old"
      using Contains_drop_char [of "CHR ''*''"] 1(3,4) by (metis append_Cons append_Nil)
    with match 1(3) show ?thesis by (simp add: ReplaceAll.simps [of s])
  next
    case skip
    with 1 have "\<not> Contains (ReplaceAll cs old ''***'') old" by simp
    moreover have eq: "ReplaceAll s old ''***'' = c # ReplaceAll cs old ''***''"
      using skip 1(3) by (simp add: ReplaceAll.simps [of "c # cs"])
    moreover have "\<not> HasPrefix (c # ReplaceAll cs old ''***'') old"
      using HasPrefix_redacted [of s old old] skip(2) 1(4) eq by auto
    ultimately show ?thesis by simp
  qed
qed

section \<open>Recorded commands\<close>

definition fetch_sha :: "checkout \<Rightarrow> string list" where
  "fetch_sha c = git (authArgs (co_Token c)) [''fetch'', ''-q'', ''--depth'', ''1'', ''origin'', co_CommitSHA c]"

definition fetch_branch :: "checkout \<Rightarrow> string list" where
  "fetch_branch c = git (authArgs (co_Token c)) [''fetch'', ''-q'', ''--depth'', ''50'', ''origin'', co_Branch c]"

definition checkout_sha :: "checkout \<Rightarrow> string list" where
  "checkout_sha c = git (authArgs (co_Token c)) [''checkout'', ''-q'', co_CommitSHA c]"

definition public_commands :: "checkout \<Rightarrow> string list list" where
  "public_commands c = [[''git'', ''init'', ''-q''], [''git'', ''remote'', ''add'', ''origin'', co_CloneURL c]]"

text \<open>
  A machine that records what is done through it. The shape of the record of a checkout is proved once, for
  every such machine: the directory is made, the commands follow in their order, and a failure after the
  first call ends with the removal of the directory.
\<close>

locale recorded_host =
  fixes M :: "('s, 'z) machine_scheme"
    and acts :: "'s \<Rightarrow> 'a list"
    and made :: "string \<Rightarrow> string option \<Rightarrow> 'a"
    and gone :: "string \<Rightarrow> 'a"
    and ran :: "string \<Rightarrow> string list \<Rightarrow> 'a"
  assumes made_acts: "acts (snd (mc_MkdirAll M d s)) = acts s @ [made d (fst (mc_MkdirAll M d s))]"
    and gone_acts: "acts (snd (mc_RemoveAll M d s)) = acts s @ [gone d]"
    and ran_acts: "acts (snd (mc_Command M d env a s)) = acts s @ [ran d a]"
begin

lemma run_acts: "run_command M d a s = (r, s') \<Longrightarrow> acts s' = acts s @ [ran d a]"
  using ran_acts [of d "[''GIT_TERMINAL_PROMPT=0'']" a s] by (simp add: run_command_def)

lemma give_up_acts: "give_up M d msg s = (r, s') \<Longrightarrow> r = Inl msg \<and> acts s' = acts s @ [gone d]"
  using gone_acts [of d s] by (auto simp: give_up_def)

lemma setup_acts:
  "setup_steps M d cmds s = (r, s') \<Longrightarrow>
   \<exists>k \<le> length cmds. acts s' = acts s @ map (ran d) (take k cmds) \<and> (r = None \<longrightarrow> k = length cmds)"
proof (induction cmds arbitrary: s)
  case (Cons c cs)
  obtain out e s1 where r: "run_command M d c s = ((out, e), s1)" by (metis prod.exhaust)
  note a = run_acts [OF r]
  show ?case
  proof (cases e)
    case None
    with Cons.prems r have "setup_steps M d cs s1 = (r, s')" by simp
    from Cons.IH [OF this] a obtain k where "k \<le> length cs"
      "acts s' = acts s @ map (ran d) (take (Suc k) (c # cs))" "r = None \<longrightarrow> k = length cs" by auto
    then show ?thesis by (intro exI [of _ "Suc k"]) auto
  next
    case (Some x)
    with Cons.prems r a show ?thesis by (intro exI [of _ 1]) auto
  qed
qed simp

lemma fetch_acts:
  assumes "fetch M c d s = (r, s')"
  shows "\<exists>f \<in> {[fetch_sha c], [fetch_sha c, fetch_branch c]}. acts s' = acts s @ map (ran d) f"
proof -
  obtain o1 e1 s1 where r1: "run_command M d (fetch_sha c) s = ((o1, e1), s1)" by (metis prod.exhaust)
  obtain o2 e2 s2 where r2: "run_command M d (fetch_branch c) s1 = ((o2, e2), s2)" by (metis prod.exhaust)
  have "s' = (if e1 = None then s1 else s2)"
    using assms r1 r2 by (cases e1; cases e2) (auto simp: fetch_def simp flip: fetch_sha_def fetch_branch_def)
  then show ?thesis using run_acts [OF r1] run_acts [OF r2] by (cases e1) auto
qed

lemma check_out_acts:
  assumes "check_out M c d s = (r, s')"
  shows "(r = Inr d \<and> acts s' = acts s @ [ran d (checkout_sha c)])
   \<or> ((\<exists>e. r = Inl e) \<and> acts s' = acts s @ [ran d (checkout_sha c), gone d])"
proof -
  obtain out e s1 where r1: "run_command M d (checkout_sha c) s = ((out, e), s1)" by (metis prod.exhaust)
  show ?thesis
    using assms r1 run_acts [OF r1]
    by (cases e) (auto simp: check_out_def simp flip: checkout_sha_def dest!: give_up_acts)
qed

lemma commit_acts:
  assumes "(case fetch M c d s of (Some msg, s1) \<Rightarrow> give_up M d msg s1 | (None, s1) \<Rightarrow> check_out M c d s1) = (r, s')"
  shows "\<exists>f \<in> {[fetch_sha c], [fetch_sha c, fetch_branch c]}.
    (r = Inr d \<and> acts s' = acts s @ map (ran d) (f @ [checkout_sha c]))
   \<or> (\<exists>e k. r = Inl e \<and> acts s' = acts s @ map (ran d) (take k (f @ [checkout_sha c])) @ [gone d])"
proof -
  obtain e s1 where x: "fetch M c d s = (e, s1)" by force
  from fetch_acts [OF this] obtain f where f: "f \<in> {[fetch_sha c], [fetch_sha c, fetch_branch c]}"
    "acts s1 = acts s @ map (ran d) f" by blast
  show ?thesis
  proof (cases e)
    case (Some msg)
    with assms x have "give_up M d msg s1 = (r, s')" by simp
    from give_up_acts [OF this] f have "r = Inl msg" "acts s' = acts s @ map (ran d) (take (length f) (f @ [checkout_sha c])) @ [gone d]"
      by auto
    with f(1) show ?thesis by blast
  next
    case None
    with assms x have "check_out M c d s1 = (r, s')" by simp
    from check_out_acts [OF this] f(2) have
      "(r = Inr d \<and> acts s' = acts s @ map (ran d) (f @ [checkout_sha c]))
       \<or> ((\<exists>e. r = Inl e) \<and> acts s' = acts s @ map (ran d) (take (Suc (length f)) (f @ [checkout_sha c])) @ [gone d])" by auto
    with f(1) show ?thesis by blast
  qed
qed

lemma prepared:
  assumes "prepareWorkspace M c s = (r, s')"
  defines "d \<equiv> workspace_dir c"
  shows "(\<exists>e x. r = Inl e \<and> acts s' = acts s @ [made d (Some x)])
   \<or> (\<exists>f \<in> {[fetch_sha c], [fetch_sha c, fetch_branch c]}.
       (r = Inr d \<and> acts s' = acts s @ made d None # map (ran d) (public_commands c @ f @ [checkout_sha c]))
     \<or> (\<exists>e k. r = Inl e \<and> acts s' = acts s @ made d None # map (ran d) (take k (public_commands c @ f @ [checkout_sha c])) @ [gone d]))"
proof -
  let ?p = "public_commands c"
  obtain r0 s0 where mk: "mc_MkdirAll M d s = (r0, s0)" by force
  have a0: "acts s0 = acts s @ [made d r0]" using made_acts [of d s] mk by simp
  obtain r1 s1 where st: "setup_steps M d ?p s0 = (r1, s1)" by force
  from setup_acts [OF this] a0 obtain k where k: "acts s1 = acts s @ made d r0 # map (ran d) (take k ?p)"
    "r1 = None \<longrightarrow> k = length ?p" "k \<le> length ?p" by auto
  have go: "(r, s') = (case r0 of Some e \<Rightarrow> (Inl (''create workspace: '' @ e), s0)
    | None \<Rightarrow> (case r1 of Some msg \<Rightarrow> give_up M d msg s1
        | None \<Rightarrow> (case fetch M c d s1 of (Some msg, s1) \<Rightarrow> give_up M d msg s1 | (None, s1) \<Rightarrow> check_out M c d s1)))"
    unfolding assms(1) [symmetric] prepareWorkspace_def Let_def d_def [symmetric] public_commands_def [symmetric] mk st
    by (simp add: mk st split: option.splits)
  consider (unmade) x where "r0 = Some x" | (unset) msg where "r0 = None" "r1 = Some msg" | (set) "r0 = None" "r1 = None"
    by (cases r0; cases r1) auto
  then show ?thesis
  proof cases
    case unmade
    with go a0 show ?thesis by auto
  next
    case (unset msg)
    with go have "give_up M d msg s1 = (r, s')" by simp
    from give_up_acts [OF this] k unset
    have "r = Inl msg" "acts s' = acts s @ made d None # map (ran d) (take k (?p @ [fetch_sha c] @ [checkout_sha c])) @ [gone d]"
      by auto
    then show ?thesis by blast
  next
    case set
    with go have "(case fetch M c d s1 of (Some msg, s1) \<Rightarrow> give_up M d msg s1 | (None, s1) \<Rightarrow> check_out M c d s1) = (r, s')"
      by simp
    from commit_acts [OF this] obtain f where f: "f \<in> {[fetch_sha c], [fetch_sha c, fetch_branch c]}"
      "(r = Inr d \<and> acts s' = acts s1 @ map (ran d) (f @ [checkout_sha c]))
       \<or> (\<exists>e k. r = Inl e \<and> acts s' = acts s1 @ map (ran d) (take k (f @ [checkout_sha c])) @ [gone d])" by blast
    have a1: "acts s1 = acts s @ made d None # map (ran d) ?p" using k set by simp
    have t: "map (ran d) ?p @ map (ran d) (take j xs) = map (ran d) (take (length ?p + j) (?p @ xs))" for j xs by simp
    from f(2) show ?thesis
    proof (elim disjE exE conjE)
      assume "r = Inr d" "acts s' = acts s1 @ map (ran d) (f @ [checkout_sha c])"
      with a1 f(1) show ?thesis by (intro disjI2 bexI [OF _ f(1)] disjI1) simp
    next
      fix e j
      assume "r = Inl e" "acts s' = acts s1 @ map (ran d) (take j (f @ [checkout_sha c])) @ [gone d]"
      with a1 t have "r = Inl e" "acts s' = acts s @ made d None # map (ran d) (take (length ?p + j) (?p @ f @ [checkout_sha c])) @ [gone d]"
        by simp_all
      with f(1) show ?thesis by blast
    qed
  qed
qed

end

text \<open>\<open>traced M\<close> behaves as \<open>M\<close> and keeps the calls made through it, oldest first.\<close>

datatype host_call = Mkdir string | Remove string | Command string "string list"

definition traced :: "'n machine \<Rightarrow> ('n \<times> host_call list) machine" where
  "traced M = \<lparr>
     mc_MkdirAll = (\<lambda>d (n, log). case mc_MkdirAll M d n of (r, n') \<Rightarrow> (r, (n', log @ [Mkdir d]))),
     mc_RemoveAll = (\<lambda>d (n, log). case mc_RemoveAll M d n of (r, n') \<Rightarrow> (r, (n', log @ [Remove d]))),
     mc_Command = (\<lambda>d env a (n, log). case mc_Command M d env a n of (r, n') \<Rightarrow> (r, (n', log @ [Command d a])))\<rparr>"

lemma traced_calls:
  "mc_MkdirAll (traced M) d (n, log) = (fst (mc_MkdirAll M d n), (snd (mc_MkdirAll M d n), log @ [Mkdir d]))"
  "mc_RemoveAll (traced M) d (n, log) = (fst (mc_RemoveAll M d n), (snd (mc_RemoveAll M d n), log @ [Remove d]))"
  "mc_Command (traced M) d env a (n, log) = (fst (mc_Command M d env a n), (snd (mc_Command M d env a n), log @ [Command d a]))"
  "run_command (traced M) d a (n, log) = (fst (run_command M d a n), (snd (run_command M d a n), log @ [Command d a]))"
  by (simp_all add: run_command_def traced_def split: prod.splits)

interpretation traced: recorded_host "traced M" snd "\<lambda>d _. Mkdir d" Remove Command for M
  by unfold_locales (auto simp: traced_def split: prod.splits)

end
