(* ===== verification/Agent.thy ===== *)
theory Agent
  imports Config Executor Logstream Workspace
begin

text \<open>
  \<^verbatim>\<open>internal/runner/agent.go\<close>: the runner process. Everything outside it (the HTTP client, the host, the
  executor, the YAML decoder) is the record \<open>agent_env\<close>, over a state of its own. The goroutines of the
  code meet the agent at two places: the ticker of the log stream may flush after any write
  (\<open>ae_tick\<close> says whether it does), and the heartbeat loop may have set the flag of the current job by
  the time the agent reads it (\<open>ae_abandoned\<close>). Contexts appear as the errors of the calls they end.
  A slice out of range and an empty map of jobs panic: the first component of the result of \<open>execute\<close>;
  deferred calls still run. Log lines of the process are left out.
\<close>

section \<open>Requests and the world\<close>

datatype agent_body =
    AgNone
  | AgRegister string "string list" string string  \<comment> \<open>name, labels, architecture, operating system\<close>
  | AgHeartbeat string  \<comment> \<open>job id\<close>
  | AgChunk string
  | AgResult JobStatus int string

record agent_request =
  aq_method :: string
  aq_url :: string
  aq_headers :: "(string \<times> string) list"
  aq_body :: agent_body

record agent_response =
  ar_status :: int
  ar_body :: string

record 'n agent_env = "'n machine" +
  ae_url :: "string \<Rightarrow> string option"  \<comment> \<open>the error \<open>http.NewRequest\<close> has for a url\<close>
  ae_Do :: "agent_request \<Rightarrow> 'n \<Rightarrow> (string + agent_response) \<times> 'n"
  ae_ReadFile :: "string \<Rightarrow> 'n \<Rightarrow> (string + string) \<times> 'n"
  ae_Execute :: "Request \<Rightarrow> 'n \<Rightarrow> (string list \<times> Result \<times> string option) \<times> 'n"
  ae_tick :: "'n \<Rightarrow> bool \<times> 'n"
  ae_abandoned :: "'n \<Rightarrow> bool"
  ae_yaml :: "string \<Rightarrow> string + Spec"
  ae_spec_order :: "Spec \<Rightarrow> Spec"
  ae_name_order :: "string list \<Rightarrow> string list"
  ae_quote :: "string \<Rightarrow> string"  \<comment> \<open>fmt's %q\<close>
  ae_registered :: "string \<Rightarrow> string + string \<times> string"  \<comment> \<open>the decoder of runner_id and token\<close>
  ae_cancel :: "string \<Rightarrow> string + bool"  \<comment> \<open>the decoder of cancel\<close>
  ae_delivery :: "string \<Rightarrow> string + Job \<times> string"  \<comment> \<open>the decoder of the job and clone_token\<close>
  ae_GOARCH :: string
  ae_GOOS :: string

text \<open>The active job is known by its address: \<open>ag_jobs\<close> counts the jobs allocated so far.\<close>

record agent =
  ag_cfg :: Config
  ag_id :: string
  ag_token :: string
  ag_active :: "(nat \<times> string) option"
  ag_jobs :: nat

section \<open>Requests\<close>

definition agent_request_for :: "'n agent_env \<Rightarrow> agent \<Rightarrow> string \<Rightarrow> string \<Rightarrow> agent_body \<Rightarrow> string + agent_request" where
  "agent_request_for E a meth path b =
     (let url = c_ServerURL (ag_cfg a) @ path in
      case ae_url E url of
        Some e \<Rightarrow> Inl e
      | None \<Rightarrow> Inr \<lparr>aq_method = meth, aq_url = url,
          aq_headers = [(''Authorization'', ''Bearer '' @ ag_token a), (''X-Runner-ID'', ag_id a),
            (''Content-Type'', ''application/json'')], aq_body = b\<rparr>)"

text \<open>\<open>do\<close> returns the body of a good answer, for the caller to decode.\<close>

definition agent_do :: "'n agent_env \<Rightarrow> agent \<Rightarrow> string \<Rightarrow> string \<Rightarrow> agent_body \<Rightarrow> 'n \<Rightarrow> (string + string) \<times> 'n" where
  "agent_do E a meth path b n =
     (case agent_request_for E a meth path b of
        Inl e \<Rightarrow> (Inl e, n)
      | Inr req \<Rightarrow>
          (case ae_Do E req n of
             (Inl e, n1) \<Rightarrow> (Inl e, n1)
           | (Inr resp, n1) \<Rightarrow>
               if ar_status resp \<ge> 300
               then (Inl (meth @ '' '' @ path @ '' returned '' @ Itoa (ar_status resp) @ '': '' @ take 512 (ar_body resp)), n1)
               else (Inr (ar_body resp), n1)))"

definition register :: "'n agent_env \<Rightarrow> agent \<Rightarrow> 'n \<Rightarrow> (string + agent) \<times> 'n" where
  "register E a n =
     (let cfg = ag_cfg a; url = c_ServerURL cfg @ ''/api/v1/runners/register'' in
      case ae_url E url of
        Some e \<Rightarrow> (Inl e, n)
      | None \<Rightarrow>
          (case ae_Do E \<lparr>aq_method = ''POST'', aq_url = url,
                  aq_headers = [(''Content-Type'', ''application/json''),
                    (''X-Registration-Token'', c_RunnerRegistrationToken cfg)],
                  aq_body = AgRegister (c_RunnerName cfg) (split_on CHR '','' (c_RunnerLabels cfg))
                    (ae_GOARCH E) (ae_GOOS E)\<rparr> n of
             (Inl e, n1) \<Rightarrow> (Inl e, n1)
           | (Inr resp, n1) \<Rightarrow>
               if ar_status resp \<noteq> 201
               then (Inl (''server said '' @ Itoa (ar_status resp) @ '': '' @ take 512 (ar_body resp)), n1)
               else (case ae_registered E (ar_body resp) of
                       Inl e \<Rightarrow> (Inl e, n1)
                     | Inr (i, token) \<Rightarrow> (Inr (a\<lparr>ag_id := i, ag_token := token\<rparr>), n1))))"

definition poll :: "'n agent_env \<Rightarrow> agent \<Rightarrow> 'n \<Rightarrow> (string + (Job \<times> string) option) \<times> 'n" where
  "poll E a n =
     (case agent_request_for E a ''GET'' (''/api/v1/runners/'' @ ag_id a @ ''/job'') AgNone of
        Inl e \<Rightarrow> (Inl e, n)
      | Inr req \<Rightarrow>
          (case ae_Do E req n of
             (Inl e, n1) \<Rightarrow> (Inl e, n1)
           | (Inr resp, n1) \<Rightarrow>
               if ar_status resp = 204 then (Inr None, n1)
               else if ar_status resp = 200 then
                 (case ae_delivery E (ar_body resp) of
                    Inl e \<Rightarrow> (Inl e, n1)
                  | Inr d \<Rightarrow> (Inr (Some d), n1))
               else (Inl (''poll returned '' @ Itoa (ar_status resp) @ '': '' @ take 512 (ar_body resp)), n1)))"

definition shipLogs :: "'n agent_env \<Rightarrow> agent \<Rightarrow> string \<Rightarrow> int \<Rightarrow> string \<Rightarrow> 'n \<Rightarrow> string option \<times> 'n" where
  "shipLogs E a jobID seq chunk n =
     (case agent_request_for E a ''POST'' (''/api/v1/jobs/'' @ jobID @ ''/logs'') (AgChunk chunk) of
        Inl e \<Rightarrow> (Some e, n)
      | Inr req \<Rightarrow>
          (case ae_Do E (req\<lparr>aq_headers := [(''Authorization'', ''Bearer '' @ ag_token a), (''X-Runner-ID'', ag_id a),
                  (''Content-Type'', ''text/plain''), (''X-Log-Seq'', Itoa seq)]\<rparr>) n of
             (Inl e, n1) \<Rightarrow> (Some e, n1)
           | (Inr resp, n1) \<Rightarrow>
               if ar_status resp \<ge> 300
               then (Some (''log chunk '' @ Itoa seq @ '' returned '' @ Itoa (ar_status resp) @ '': '' @ take 512 (ar_body resp)), n1)
               else (None, n1)))"

definition reportResult :: "'n agent_env \<Rightarrow> agent \<Rightarrow> string \<Rightarrow> JobStatus \<Rightarrow> int \<Rightarrow> string \<Rightarrow> 'n \<Rightarrow> 'n" where
  "reportResult E a jobID status exitCode errMsg n =
     snd (agent_do E a ''POST'' (''/api/v1/jobs/'' @ jobID @ ''/result'') (AgResult status exitCode errMsg) n)"

section \<open>The active job and the heartbeat\<close>

definition setActive :: "string \<Rightarrow> agent \<Rightarrow> nat \<times> agent" where
  "setActive jobID a = (ag_jobs a, a\<lparr>ag_active := Some (ag_jobs a, jobID), ag_jobs := Suc (ag_jobs a)\<rparr>)"

definition clearActive :: "nat \<Rightarrow> agent \<Rightarrow> agent" where
  "clearActive current a = (if map_option fst (ag_active a) = Some current then a\<lparr>ag_active := None\<rparr> else a)"

definition third :: "duration \<Rightarrow> duration" where
  "third d = (if d \<ge> 0 then d div 3 else - ((- d) div 3))"
  \<comment> \<open>Go's integer division\<close>

definition beat_interval :: "agent \<Rightarrow> duration" where
  "beat_interval a =
     (let idle = third (c_HeartbeatTimeout (ag_cfg a)) in
      if ag_active a \<noteq> None then min idle (5 * second) else idle)"

text \<open>One round of \<open>heartbeatLoop\<close>: the address of the job to mark as abandoned and to cancel, if any.\<close>

definition heartbeat_round :: "'n agent_env \<Rightarrow> agent \<Rightarrow> 'n \<Rightarrow> nat option \<times> 'n" where
  "heartbeat_round E a n =
     (let job = ag_active a; jobID = (case job of None \<Rightarrow> [] | Some (_, i) \<Rightarrow> i) in
      case agent_do E a ''POST'' (''/api/v1/runners/'' @ ag_id a @ ''/heartbeat'') (AgHeartbeat jobID) n of
        (Inl _, n1) \<Rightarrow> (None, n1)
      | (Inr b, n1) \<Rightarrow>
          (case ae_cancel E b of
             Inl _ \<Rightarrow> (None, n1)
           | Inr cancel \<Rightarrow> if cancel then (map_option fst job, n1) else (None, n1)))"

section \<open>Executing a job\<close>

text \<open>\<^verbatim>\<open>fmt.Fprintf(stream, ...)\<close>: a write, after which the ticker may flush.\<close>

definition emit :: "'n agent_env \<Rightarrow> 'n sender \<Rightarrow> string \<Rightarrow> logStreamer \<times> 'n \<Rightarrow> logStreamer \<times> 'n" where
  "emit E send text sn =
     (case sn of (s, n) \<Rightarrow>
      case ae_tick E n of (fires, n1) \<Rightarrow>
        if fires then flush send (Write text s) n1 else (Write text s, n1))"

definition ship :: "'n agent_env \<Rightarrow> agent \<Rightarrow> Job \<Rightarrow> 'n sender" where
  "ship E a job seq chunk n = snd (shipLogs E a (j_id job) seq chunk n)"

definition close_stream :: "'n agent_env \<Rightarrow> agent \<Rightarrow> Job \<Rightarrow> logStreamer \<times> 'n \<Rightarrow> 'n" where
  "close_stream E a job sn = snd (Close (ship E a job) (fst sn) (snd sn))"

definition fail_job :: "'n agent_env \<Rightarrow> agent \<Rightarrow> Job \<Rightarrow> string \<Rightarrow> string \<Rightarrow> logStreamer \<times> 'n \<Rightarrow> 'n" where
  "fail_job E a job reason err sn =
     reportResult E a (j_id job) JobFailed (-1) (reason @ '': '' @ err)
       (close_stream E a job (emit E (ship E a job) (''forgerun: '' @ reason @ '': '' @ err @ newline) sn))"

definition abandon :: "'n agent_env \<Rightarrow> agent \<Rightarrow> Job \<Rightarrow> logStreamer \<times> 'n \<Rightarrow> 'n" where
  "abandon E a job sn =
     close_stream E a job (emit E (ship E a job) (newline @ ''forgerun: job cancelled by the control plane'' @ newline) sn)"

fun spec_text :: "(string \<Rightarrow> string) \<Rightarrow> spec_error \<Rightarrow> string" where
  "spec_text quote (SpecRead e) = e"
| "spec_text quote (SpecYaml e) = ''parse forgerun.yml: '' @ e"
| "spec_text quote SpecNoJobs = ''forgerun.yml defines no jobs''"
| "spec_text quote (SpecNoCommands name) = ''job '' @ quote name @ '' has no commands''"

definition job_request :: "Config \<Rightarrow> Job \<Rightarrow> SpecJob \<Rightarrow> string \<Rightarrow> Request" where
  "job_request cfg job step dir = \<lparr>x_Job = job, x_Spec = step, x_Workspace = dir,
     x_Timeout = c_JobTimeout cfg, x_CPUs = c_JobCPUs cfg, x_MemoryMB = c_JobMemoryMB cfg,
     x_Network = c_DockerNetwork cfg\<rparr>"

definition verdict :: "Result \<times> string option \<Rightarrow> JobStatus \<times> int \<times> string" where
  "verdict r =
     (case r of
        (_, Some err) \<Rightarrow> (JobFailed, -1, err)
      | (result, None) \<Rightarrow>
          if x_TimedOut result then (JobFailed, x_ExitCode result, ''job exceeded timeout'')
          else if x_ExitCode result \<noteq> 0 then (JobFailed, x_ExitCode result, [])
          else (JobSuccess, x_ExitCode result, []))"

text \<open>The third step: the container, then the result unless the job was taken away.\<close>

definition run_step :: "'n agent_env \<Rightarrow> agent \<Rightarrow> Job \<Rightarrow> SpecJob \<Rightarrow> string \<Rightarrow> logStreamer \<times> 'n \<Rightarrow> 'n" where
  "run_step E a job step dir sn =
     (case emit E (ship E a job)
             (''forgerun: running job '' @ ae_quote E (sj_Name step) @ '' in '' @ sj_Image step @ newline @ newline) sn of
        (s, n) \<Rightarrow>
     (case ae_Execute E (job_request (ag_cfg a) job step dir) n of
        ((out, res), n1) \<Rightarrow>
     (case fold (emit E (ship E a job)) out (s, n1) of
        (s2, n2) \<Rightarrow>
          if ae_abandoned E n2 then abandon E a job (s2, n2)
          else (case verdict res of
                  (status, code, msg) \<Rightarrow>
                    reportResult E a (j_id job) status code msg (close_stream E a job (s2, n2))))))"

definition build :: "'n agent_env \<Rightarrow> agent \<Rightarrow> Job \<Rightarrow> string \<Rightarrow> logStreamer \<times> 'n \<Rightarrow> bool \<times> 'n" where
  "build E a job dir sn =
     (if length (j_commit_sha job) < 8 then (True, snd sn)
      else
     (case emit E (ship E a job)
             (''forgerun: checked out '' @ j_branch job @ '' at '' @ take 8 (j_commit_sha job) @ newline) sn of
        (s, n) \<Rightarrow>
     (let path = Join [dir, j_config_ref job] in
      case ae_ReadFile E path n of
        (file, n1) \<Rightarrow>
     (case ParseFile (\<lambda>_. file) (ae_yaml E) (ae_spec_order E) path of
        Inl e \<Rightarrow> (False, fail_job E a job (''cannot read '' @ j_config_ref job) (spec_text (ae_quote E) e) (s, n1))
      | Inr jobs \<Rightarrow>
          (case Primary (ae_name_order E) jobs of
             None \<Rightarrow> (True, n1)
           | Some step \<Rightarrow>
               (False, run_step E a job
                  (if sj_Image step = [] then step\<lparr>sj_Image := c_DefaultImage (ag_cfg a)\<rparr> else step)
                  dir (s, n1)))))))"

definition checkout_of :: "Config \<Rightarrow> Job \<Rightarrow> string \<Rightarrow> checkout" where
  "checkout_of cfg job token = \<lparr>co_Root = c_WorkspaceRoot cfg, co_JobID = j_id job, co_CloneURL = j_clone_url job,
     co_CommitSHA = j_commit_sha job, co_Branch = j_branch job, co_Token = token\<rparr>"

definition run_job :: "'n agent_env \<Rightarrow> agent \<Rightarrow> Job \<Rightarrow> string \<Rightarrow> 'n \<Rightarrow> bool \<times> 'n" where
  "run_job E a job token n =
     (case prepareWorkspace E (checkout_of (ag_cfg a) job token) n of
        (Inl e, n1) \<Rightarrow>
          (False, if ae_abandoned E n1 then abandon E a job (newLogStreamer, n1)
                  else fail_job E a job ''checkout failed'' e (newLogStreamer, n1))
      | (Inr dir, n1) \<Rightarrow>
          (case build E a job dir (newLogStreamer, n1) of
             (panicked, n2) \<Rightarrow> (panicked, snd (mc_RemoveAll E dir n2))))"
  \<comment> \<open>the deferred \<open>RemoveAll\<close>\<close>

definition execute :: "'n agent_env \<Rightarrow> agent \<Rightarrow> Job \<Rightarrow> string \<Rightarrow> 'n \<Rightarrow> bool \<times> agent \<times> 'n" where
  "execute E a job token n =
     (case setActive (j_id job) a of (current, a1) \<Rightarrow>
     (case agent_do E a1 ''POST'' (''/api/v1/jobs/'' @ j_id job @ ''/start'') AgNone n of
        (Inl _, n1) \<Rightarrow> (False, clearActive current a1, n1)
      | (Inr _, n1) \<Rightarrow>
          (case run_job E a1 job token n1 of
             (panicked, n2) \<Rightarrow> (panicked, clearActive current a1, n2))))"
  \<comment> \<open>the code clears the active job once more, with no effect of its own, as soon as the executor returns\<close>

text \<open>\<open>Run\<close>: registration, then rounds of polling; \<open>rounds\<close> is how many the process gets to before it stops.\<close>

fun agent_rounds :: "nat \<Rightarrow> 'n agent_env \<Rightarrow> agent \<Rightarrow> 'n \<Rightarrow> bool \<times> agent \<times> 'n" where
  "agent_rounds 0 E a n = (False, a, n)"
| "agent_rounds (Suc k) E a n =
     (case poll E a n of
        (Inl _, n1) \<Rightarrow> agent_rounds k E a n1
      | (Inr None, n1) \<Rightarrow> agent_rounds k E a n1
      | (Inr (Some (job, token)), n1) \<Rightarrow>
          (case execute E a job token n1 of
             (True, a1, n2) \<Rightarrow> (True, a1, n2)
           | (False, a1, n2) \<Rightarrow> agent_rounds k E a1 n2))"

definition Agent_Run :: "nat \<Rightarrow> 'n agent_env \<Rightarrow> agent \<Rightarrow> 'n \<Rightarrow> (string + bool \<times> agent) \<times> 'n" where
  "Agent_Run rounds E a n =
     (case register E a n of
        (Inl e, n1) \<Rightarrow> (Inl (''register: '' @ e), n1)
      | (Inr a1, n1) \<Rightarrow> (case agent_rounds rounds E a1 n1 of (panicked, a2, n2) \<Rightarrow> (Inr (panicked, a2), n2)))"

end
