(* ===== verification/Agent_Behaviour.thy ===== *)
theory Agent_Behaviour
  imports Agent
begin

text \<open>
  What a job makes the runner do, as the list of the calls it makes to the world: \<open>observed E\<close> behaves as
  \<open>E\<close> and keeps that list. The lemmas give the shape of the list for each part of \<open>execute\<close>; the log
  chunks of a stretch are \<open>chunks_only\<close>.
\<close>

section \<open>Observed calls\<close>

datatype act =
    Http agent_request
  | Made string "string option"
  | Gone string
  | Ran string "string list"
  | ReadIt string
  | Executed Request "string list \<times> Result \<times> string option"

definition observed :: "'n agent_env \<Rightarrow> ('n \<times> act list) agent_env" where
  "observed E = \<lparr>
     mc_MkdirAll = (\<lambda>d (n, tr). case mc_MkdirAll E d n of (r, n') \<Rightarrow> (r, (n', tr @ [Made d r]))),
     mc_RemoveAll = (\<lambda>d (n, tr). case mc_RemoveAll E d n of (r, n') \<Rightarrow> (r, (n', tr @ [Gone d]))),
     mc_Command = (\<lambda>d env cmd (n, tr). case mc_Command E d env cmd n of (r, n') \<Rightarrow> (r, (n', tr @ [Ran d cmd]))),
     ae_url = ae_url E,
     ae_Do = (\<lambda>rq (n, tr). case ae_Do E rq n of (r, n') \<Rightarrow> (r, (n', tr @ [Http rq]))),
     ae_ReadFile = (\<lambda>p (n, tr). case ae_ReadFile E p n of (r, n') \<Rightarrow> (r, (n', tr @ [ReadIt p]))),
     ae_Execute = (\<lambda>rq (n, tr). case ae_Execute E rq n of (r, n') \<Rightarrow> (r, (n', tr @ [Executed rq r]))),
     ae_tick = (\<lambda>(n, tr). case ae_tick E n of (b, n') \<Rightarrow> (b, (n', tr))),
     ae_abandoned = (\<lambda>(n, tr). ae_abandoned E n),
     ae_yaml = ae_yaml E, ae_spec_order = ae_spec_order E, ae_name_order = ae_name_order E,
     ae_quote = ae_quote E, ae_registered = ae_registered E, ae_cancel = ae_cancel E,
     ae_delivery = ae_delivery E, ae_GOARCH = ae_GOARCH E, ae_GOOS = ae_GOOS E\<rparr>"

lemma observed_sel [simp]:
  "ae_url (observed E) = ae_url E" "ae_yaml (observed E) = ae_yaml E"
  "ae_spec_order (observed E) = ae_spec_order E" "ae_name_order (observed E) = ae_name_order E"
  "ae_quote (observed E) = ae_quote E" "ae_abandoned (observed E) (n, tr) = ae_abandoned E n"
  by (simp_all add: observed_def)

lemma observed_calls:
  "mc_MkdirAll (observed E) d (n, tr) =
     (fst (mc_MkdirAll E d n), (snd (mc_MkdirAll E d n), tr @ [Made d (fst (mc_MkdirAll E d n))]))"
  "mc_RemoveAll (observed E) d (n, tr) = (fst (mc_RemoveAll E d n), (snd (mc_RemoveAll E d n), tr @ [Gone d]))"
  "run_command (observed E) d cmd (n, tr) = (fst (run_command E d cmd n), (snd (run_command E d cmd n), tr @ [Ran d cmd]))"
  "ae_Do (observed E) rq (n, tr) = (fst (ae_Do E rq n), (snd (ae_Do E rq n), tr @ [Http rq]))"
  "ae_ReadFile (observed E) p (n, tr) = (fst (ae_ReadFile E p n), (snd (ae_ReadFile E p n), tr @ [ReadIt p]))"
  "ae_Execute (observed E) r (n, tr) =
     (fst (ae_Execute E r n), (snd (ae_Execute E r n), tr @ [Executed r (fst (ae_Execute E r n))]))"
  "ae_tick (observed E) (n, tr) = (fst (ae_tick E n), (snd (ae_tick E n), tr))"
  by (simp_all add: run_command_def observed_def split: prod.splits)

interpretation observed: recorded_host "observed E" snd Made Gone Ran for E
  by unfold_locales (auto simp: observed_def split: prod.splits)

definition api_request :: "agent \<Rightarrow> string \<Rightarrow> agent_body \<Rightarrow> agent_request" where
  "api_request a path b = \<lparr>aq_method = ''POST'', aq_url = c_ServerURL (ag_cfg a) @ path,
     aq_headers = [(''Authorization'', ''Bearer '' @ ag_token a), (''X-Runner-ID'', ag_id a),
       (''Content-Type'', ''application/json'')], aq_body = b\<rparr>"

definition chunk_request :: "agent \<Rightarrow> Job \<Rightarrow> int \<Rightarrow> string \<Rightarrow> agent_request" where
  "chunk_request a job seq chunk = \<lparr>aq_method = ''POST'',
     aq_url = c_ServerURL (ag_cfg a) @ ''/api/v1/jobs/'' @ j_id job @ ''/logs'',
     aq_headers = [(''Authorization'', ''Bearer '' @ ag_token a), (''X-Runner-ID'', ag_id a),
       (''Content-Type'', ''text/plain''), (''X-Log-Seq'', Itoa seq)], aq_body = AgChunk chunk\<rparr>"

definition start_request :: "agent \<Rightarrow> Job \<Rightarrow> agent_request" where
  "start_request a job = api_request a (''/api/v1/jobs/'' @ j_id job @ ''/start'') AgNone"

definition result_request :: "agent \<Rightarrow> Job \<Rightarrow> JobStatus \<times> int \<times> string \<Rightarrow> agent_request" where
  "result_request a job v = (case v of (st, code, msg) \<Rightarrow>
     api_request a (''/api/v1/jobs/'' @ j_id job @ ''/result'') (AgResult st code msg))"

definition reachable_urls :: "'n agent_env \<Rightarrow> bool" where
  "reachable_urls E \<longleftrightarrow> ae_url E = (\<lambda>_. None)"

section \<open>Log chunks\<close>

text \<open>
  A stretch of the trace that only ships chunks, with the stream before and after it: the chunks are
  the ones the stream sent in it.
\<close>

definition chunk_acts :: "agent \<Rightarrow> Job \<Rightarrow> (int \<times> string) list \<Rightarrow> act list" where
  "chunk_acts a job cs = map (\<lambda>(q, c). Http (chunk_request a job q c)) cs"

lemma chunk_acts_append [simp]: "chunk_acts a job (cs @ ds) = chunk_acts a job cs @ chunk_acts a job ds"
  by (simp add: chunk_acts_def)

definition ships :: "agent \<Rightarrow> Job \<Rightarrow> logStreamer \<Rightarrow> logStreamer \<Rightarrow> act list \<Rightarrow> bool" where
  "ships a job s t acts \<longleftrightarrow> (\<exists>new. ls_sent t = ls_sent s @ new
     \<and> acts = chunk_acts a job new)"

lemma ships_refl: "ships a job s s []"
  by (simp add: ships_def chunk_acts_def)

lemma ships_trans: "ships a job s t as \<Longrightarrow> ships a job t u bs \<Longrightarrow> ships a job s u (as @ bs)"
  by (auto simp: ships_def)

lemma ship_observed:
  assumes "reachable_urls E"
  shows "\<exists>n'. ship (observed E) a job q c (n, tr) = (n', tr @ [Http (chunk_request a job q c)])"
  using assms
  by (auto simp: ship_def shipLogs_def agent_request_for_def reachable_urls_def observed_calls
      chunk_request_def Let_def split: sum.splits prod.splits)

text \<open>The stream holds exactly \<open>line\<close>: sent in numbered chunks or still in the buffer.\<close>

definition stream_ok :: "string \<Rightarrow> logStreamer \<Rightarrow> bool" where
  "stream_ok line s \<longleftrightarrow> stream_inv (\<lambda>_ _ u. u) () line (s, ()) \<and> ls_hand s = None \<and> \<not> ls_done s"

definition numbered :: "(int \<times> string) list \<Rightarrow> bool" where
  "numbered cs \<longleftrightarrow> map fst cs = map int [1..<Suc (length cs)]"

lemma stream_ok_new [simp]: "stream_ok [] newLogStreamer"
  using stream_inv_new [of "\<lambda>_ _ u. u" "()"] by (simp add: stream_ok_def newLogStreamer_def)

lemma flush_stream: "fst (flush send s n) = fst (flush send' s n')"
  by (simp add: flush_def flush_send_def split: option.splits)

lemma flush_done [simp]: "ls_done (fst (flush send s n)) = ls_done s"
  by (simp add: flush_def flush_send_def flush_take_def split: option.splits)

lemma Write_ok: "stream_ok w s \<Longrightarrow> stream_ok (w @ p) (Write p s)"
  using Write_inv [of "\<lambda>_ _ u. u" "()" w s "()" p] by (simp add: stream_ok_def Write_def)

lemma flush_ok: "stream_ok w s \<Longrightarrow> stream_ok w (fst (flush send s n))"
  using flush_inv [of "\<lambda>_ _ u. u" "()" w s "()"] flush_stream [of send s n "\<lambda>_ _ u. u" "()"]
  by (simp add: stream_ok_def) (metis flush_done flush_hand surjective_pairing unit.exhaust)

lemma flush_ships:
  assumes "reachable_urls E" "flush (ship (observed E) a job) s (n, tr) = (t, (n', tr'))" "ls_hand s = None"
  shows "\<exists>acts. tr' = tr @ acts \<and> ships a job s t acts"
proof (cases "ls_buf s = []")
  case True
  with assms show ?thesis by (auto simp: flush_def flush_take_def flush_send_def ships_refl)
next
  case False
  obtain m where "ship (observed E) a job (ls_seq s + 1) (ls_buf s) (n, tr) =
      (m, tr @ [Http (chunk_request a job (ls_seq s + 1) (ls_buf s))])"
    using ship_observed [OF assms(1)] by blast
  with False assms(2) show ?thesis by (auto simp: flush_def flush_take_def flush_send_def ships_def chunk_acts_def)
qed

lemma emit_ships:
  assumes "reachable_urls E" "emit (observed E) (ship (observed E) a job) line (s, (n, tr)) = (t, (n', tr'))"
    "stream_ok w s"
  shows "\<exists>acts. tr' = tr @ acts \<and> ships a job s t acts \<and> stream_ok (w @ line) t"
proof (cases "fst (ae_tick E n)")
  case True
  with assms(2) have f: "flush (ship (observed E) a job) (Write line s) (snd (ae_tick E n), tr) = (t, (n', tr'))"
    by (simp add: emit_def observed_calls)
  from flush_ships [OF assms(1) this] assms(3) obtain acts where "tr' = tr @ acts" "ships a job (Write line s) t acts"
    by (auto simp: stream_ok_def)
  moreover have "stream_ok (w @ line) t" using flush_ok [OF Write_ok [OF assms(3)]] f by (metis fst_conv)
  ultimately show ?thesis by (auto simp: ships_def Write_def)
next
  case False
  with assms(2) have "t = Write line s" "tr' = tr" by (auto simp: emit_def observed_calls)
  with Write_ok [OF assms(3)] show ?thesis by (auto simp: ships_def Write_def chunk_acts_def)
qed

lemma emits_ship:
  "reachable_urls E \<Longrightarrow> fold (emit (observed E) (ship (observed E) a job)) out (s, (n, tr)) = (t, (n', tr')) \<Longrightarrow>
   stream_ok w s \<Longrightarrow> \<exists>acts. tr' = tr @ acts \<and> ships a job s t acts \<and> stream_ok (w @ concat out) t"
proof (induction out arbitrary: s n tr w)
  case Nil
  then show ?case by (auto simp: ships_refl)
next
  case (Cons x out)
  obtain s1 n1 tr1 where e: "emit (observed E) (ship (observed E) a job) x (s, (n, tr)) = (s1, (n1, tr1))"
    by (metis prod.exhaust)
  from emit_ships [OF Cons.prems(1) e Cons.prems(3)] obtain as where as: "tr1 = tr @ as" "ships a job s s1 as"
    "stream_ok (w @ x) s1" by blast
  from Cons.IH [of s1 n1 tr1 "w @ x"] Cons.prems e as(3) obtain bs where "tr' = tr1 @ bs" "ships a job s1 t bs"
    "stream_ok ((w @ x) @ concat out) t" by auto
  with as show ?case by (intro exI [of _ "as @ bs"]) (auto intro: ships_trans)
qed

text \<open>Closing the stream ships what is left.\<close>

lemma close_ships:
  assumes "reachable_urls E" "close_stream (observed E) a job (s, (n, tr)) = (n', tr')" "stream_ok w s"
  shows "\<exists>cs. tr' = tr @ chunk_acts a job cs
    \<and> numbered (ls_sent s @ cs) \<and> concat (map snd (ls_sent s @ cs)) = w"
proof -
  let ?s = "s\<lparr>ls_done := True\<rparr>"
  obtain t m where f: "flush (ship (observed E) a job) ?s (n, tr) = (t, m)" by (metis prod.exhaust)
  then have m: "m = (n', tr')" using assms(2,3) by (simp add: close_stream_def Close_def stream_ok_def)
  have h: "ls_hand ?s = None" using assms(3) by (simp add: stream_ok_def)
  obtain acts where acts: "tr' = tr @ acts" "ships a job ?s t acts"
    using flush_ships [OF assms(1) f [unfolded m] h] by blast
  have "stream_inv (\<lambda>_ _ u. u) () w (flush (\<lambda>_ _ u. u) ?s ())"
    using assms(3) by (intro flush_inv done_inv) (simp_all add: stream_ok_def)
  moreover have "fst (flush (\<lambda>_ _ u. u) ?s ()) = t" using flush_stream f by (metis fst_conv)
  ultimately have "stream_inv (\<lambda>_ _ u. u) () w (t, ())"
    by (metis surjective_pairing unit.exhaust)
  moreover have "in_transit t = []" using flush_empties [OF h, of "ship (observed E) a job" "(n, tr)"] f by simp
  ultimately show ?thesis using acts by (auto simp: stream_inv_def ships_def numbered_def)
qed

lemma report_observed:
  assumes "reachable_urls E"
  shows "\<exists>n'. reportResult (observed E) a (j_id job) st code msg (n, tr) =
    (n', tr @ [Http (result_request a job (st, code, msg))])"
  using assms
  by (auto simp: reportResult_def agent_do_def agent_request_for_def reachable_urls_def observed_calls
      result_request_def api_request_def Let_def split: sum.splits prod.splits)

section \<open>The shape of a job\<close>

definition shipped :: "(int \<times> string) list \<Rightarrow> string \<Rightarrow> bool" where
  "shipped cs line \<longleftrightarrow> numbered cs \<and> concat (map snd cs) = line"

lemma farewell:
  assumes "reachable_urls E" "stream_ok w s"
    "close_stream (observed E) a job (emit (observed E) (ship (observed E) a job) line (s, (n, tr))) = (n', tr')"
  shows "\<exists>cs. tr' = tr @ chunk_acts a job cs \<and> shipped (ls_sent s @ cs) (w @ line)"
proof -
  obtain t n1 tr1 where e: "emit (observed E) (ship (observed E) a job) line (s, (n, tr)) = (t, (n1, tr1))"
    by (metis prod.exhaust)
  from emit_ships [OF assms(1) this assms(2)] obtain as where as: "tr1 = tr @ chunk_acts a job as"
    "ls_sent t = ls_sent s @ as" "stream_ok (w @ line) t" by (auto simp: ships_def)
  from close_ships [OF assms(1) assms(3) [unfolded e] as(3)] obtain cs where "tr' = tr1 @ chunk_acts a job cs"
    "numbered (ls_sent t @ cs)" "concat (map snd (ls_sent t @ cs)) = w @ line" by blast
  with as show ?thesis by (intro exI [of _ "as @ cs"]) (simp add: shipped_def)
qed

lemma abandon_shape:
  assumes "reachable_urls E" "stream_ok w s" "abandon (observed E) a job (s, (n, tr)) = (n', tr')"
  shows "\<exists>cs line. tr' = tr @ chunk_acts a job cs \<and> shipped (ls_sent s @ cs) (w @ line)"
  using farewell [OF assms(1,2) assms(3) [unfolded abandon_def]] by blast

lemma fail_shape:
  assumes "reachable_urls E" "stream_ok w s" "fail_job (observed E) a job reason err (s, (n, tr)) = (n', tr')"
  shows "\<exists>cs line. tr' = tr @ chunk_acts a job cs @ [Http (result_request a job (JobFailed, -1, reason @ '': '' @ err))]
    \<and> shipped (ls_sent s @ cs) (w @ line)"
proof -
  obtain line where line: "fail_job (observed E) a job reason err (s, (n, tr)) =
      reportResult (observed E) a (j_id job) JobFailed (-1) (reason @ '': '' @ err)
        (close_stream (observed E) a job (emit (observed E) (ship (observed E) a job) line (s, (n, tr))))"
    unfolding fail_job_def by blast
  obtain n2 tr2 where c: "close_stream (observed E) a job (emit (observed E) (ship (observed E) a job) line (s, (n, tr)))
      = (n2, tr2)" by force
  from farewell [OF assms(1,2) c] obtain cs where cs: "tr2 = tr @ chunk_acts a job cs"
    "shipped (ls_sent s @ cs) (w @ line)" by blast
  obtain n3 where "reportResult (observed E) a (j_id job) JobFailed (-1) (reason @ '': '' @ err) (n2, tr2) =
      (n3, tr2 @ [Http (result_request a job (JobFailed, -1, reason @ '': '' @ err))])"
    using report_observed [OF assms(1)] by blast
  with line c assms(3) have "tr' = tr2 @ [Http (result_request a job (JobFailed, -1, reason @ '': '' @ err))]"
    by (simp only: prod.inject)
  with cs show ?thesis by auto
qed

lemma run_step_shape:
  assumes "reachable_urls E" "stream_ok w s" "run_step (observed E) a job step dir (s, (n, tr)) = (n', tr')"
  shows "\<exists>cs ds ans tail before after.
    tr' = tr @ chunk_acts a job cs @ [Executed (job_request (ag_cfg a) job step dir) ans] @ chunk_acts a job ds @ tail
    \<and> shipped (ls_sent s @ cs @ ds) (w @ before @ concat (fst ans) @ after)
    \<and> (tail = [Http (result_request a job (verdict (snd ans)))] \<or> (\<exists>m. ae_abandoned E m) \<and> tail = [])
    \<and> (\<exists>m. ans = fst (ae_Execute E (job_request (ag_cfg a) job step dir) m))"
proof -
  let ?req = "job_request (ag_cfg a) job step dir" and ?send = "ship (observed E) a job"
  define line where
    "line = ''forgerun: running job '' @ ae_quote E (sj_Name step) @ '' in '' @ sj_Image step @ newline @ newline"
  obtain s1 n1 tr1 where e: "emit (observed E) ?send line (s, (n, tr)) = (s1, (n1, tr1))" by (metis prod.exhaust)
  from emit_ships [OF assms(1) this assms(2)] obtain cs where cs: "tr1 = tr @ chunk_acts a job cs"
    "ls_sent s1 = ls_sent s @ cs" "stream_ok (w @ line) s1" by (auto simp: ships_def)
  obtain out res n2 where x: "ae_Execute E ?req n1 = ((out, res), n2)" by (metis prod.exhaust)
  have answered: "\<exists>m. (out, res) = fst (ae_Execute E ?req m)" using x by (metis fst_conv)
  obtain s2 n3 tr3 where f: "fold (emit (observed E) ?send) out (s1, (n2, tr1 @ [Executed ?req (out, res)])) = (s2, (n3, tr3))"
    by (metis prod.exhaust)
  from emits_ship [OF assms(1) this cs(3)] obtain ds where ds: "tr3 = tr1 @ [Executed ?req (out, res)] @ chunk_acts a job ds"
    "ls_sent s2 = ls_sent s1 @ ds" "stream_ok (w @ line @ concat out) s2" by (auto simp: ships_def)
  have go: "run_step (observed E) a job step dir (s, (n, tr)) =
      (if ae_abandoned E n3 then abandon (observed E) a job (s2, (n3, tr3))
       else case verdict res of (status, code, msg) \<Rightarrow>
         reportResult (observed E) a (j_id job) status code msg (close_stream (observed E) a job (s2, (n3, tr3))))"
    using e x f unfolding run_step_def observed_sel line_def by (simp add: observed_calls)
  show ?thesis
  proof (cases "ae_abandoned E n3")
    case True
    with go assms(3) have "abandon (observed E) a job (s2, (n3, tr3)) = (n', tr')" by simp
    from abandon_shape [OF assms(1) ds(3) this] obtain es bye where es: "tr' = tr3 @ chunk_acts a job es"
      "shipped (ls_sent s2 @ es) ((w @ line @ concat out) @ bye)" by blast
    have "tr' = tr @ chunk_acts a job cs @ [Executed ?req (out, res)] @ chunk_acts a job (ds @ es) @ []"
      using es ds cs by simp
    moreover have "shipped (ls_sent s @ cs @ ds @ es) (w @ line @ concat (fst (out, res)) @ bye)"
      using es(2) ds(2) cs(2) by simp
    ultimately show ?thesis using True answered by blast
  next
    case False
    obtain n4 tr4 where c: "close_stream (observed E) a job (s2, (n3, tr3)) = (n4, tr4)" by force
    from close_ships [OF assms(1) c ds(3)] obtain es where es: "tr4 = tr3 @ chunk_acts a job es"
      "shipped (ls_sent s2 @ es) (w @ line @ concat out)" by (auto simp: shipped_def)
    obtain st code msg where v: "verdict res = (st, code, msg)" by (metis prod.exhaust)
    have "tr' = tr4 @ [Http (result_request a job (verdict res))]"
      using report_observed [OF assms(1), of a job st code msg n4 tr4] go False c v assms(3) by auto
    then have "tr' = tr @ chunk_acts a job cs @ [Executed ?req (out, res)] @ chunk_acts a job (ds @ es)
        @ [Http (result_request a job (verdict (snd (out, res))))]"
      using es ds cs by simp
    moreover have "shipped (ls_sent s @ cs @ ds @ es) (w @ line @ concat (fst (out, res)) @ [])"
      using es(2) ds(2) cs(2) by simp
    ultimately show ?thesis using answered by blast
  qed
qed

section \<open>The workspace\<close>

definition prep_ok :: "string \<Rightarrow> act list \<Rightarrow> bool" where
  "prep_ok d acts \<longleftrightarrow> (\<exists>cmds. acts = Made d None # map (Ran d) cmds)"

definition prep_failed :: "string \<Rightarrow> act list \<Rightarrow> bool" where
  "prep_failed d acts \<longleftrightarrow> (\<exists>e. acts = [Made d (Some e)]) \<or> (\<exists>cmds. acts = Made d None # map (Ran d) cmds @ [Gone d])"

lemma prep_okI: "prep_ok d (Made d None # map (Ran d) cmds)"
  by (auto simp: prep_ok_def)

lemma prep_failedI: "prep_failed d (Made d None # map (Ran d) cmds @ [Gone d])"
  by (auto simp: prep_failed_def)

lemma prepareWorkspace_observed:
  assumes "prepareWorkspace (observed E) c (n, tr) = (r, (n', tr'))"
  shows "\<exists>acts. tr' = tr @ acts \<and> (case r of Inr d \<Rightarrow> d = workspace_dir c \<and> prep_ok d acts
    | Inl _ \<Rightarrow> prep_failed (workspace_dir c) acts)"
  using observed.prepared [OF assms]
proof (elim disjE bexE exE conjE)
  fix f
  assume "r = Inr (workspace_dir c)" "snd (n', tr') = snd (n, tr) @ Made (workspace_dir c) None
    # map (Ran (workspace_dir c)) (public_commands c @ f @ [checkout_sha c])"
  then show ?thesis by (simp del: map_append add: prep_okI)
next
  fix f e k
  assume "r = Inl e" "snd (n', tr') = snd (n, tr) @ Made (workspace_dir c) None
    # map (Ran (workspace_dir c)) (take k (public_commands c @ f @ [checkout_sha c])) @ [Gone (workspace_dir c)]"
  then show ?thesis by (simp del: map_append take_append add: prep_failedI)
qed (auto simp: prep_failed_def)

section \<open>The whole job\<close>

text \<open>
  The acts of a job after its start: the checkout fails; the build file cannot be used; or the
  container runs. Only a job taken away by the control plane ends without a result.
\<close>

inductive job_acts :: "'n agent_env \<Rightarrow> agent \<Rightarrow> Job \<Rightarrow> string \<Rightarrow> act list \<Rightarrow> bool"
  for E :: "'n agent_env" and a :: agent and job :: Job and d :: string where
  no_checkout: "prep_failed d P \<Longrightarrow> numbered cs \<Longrightarrow>
    R = [Http (result_request a job (JobFailed, -1, m))] \<or> (\<exists>n. ae_abandoned E n) \<and> R = [] \<Longrightarrow>
    job_acts E a job d (P @ chunk_acts a job cs @ R)"
| no_spec: "prep_ok d P \<Longrightarrow> numbered (cs @ ds) \<Longrightarrow>
    job_acts E a job d (P @ chunk_acts a job cs @ [ReadIt p] @ chunk_acts a job ds
      @ [Http (result_request a job (JobFailed, -1, m)), Gone d])"
| ran: "prep_ok d P \<Longrightarrow> shipped (cs @ ds @ es) (before @ concat (fst ans) @ after) \<Longrightarrow>
    R = [Http (result_request a job (verdict (snd ans)))] \<or> (\<exists>n. ae_abandoned E n) \<and> R = [] \<Longrightarrow>
    (\<exists>n. ans = fst (ae_Execute E (job_request (ag_cfg a) job step d) n)) \<Longrightarrow>
    job_acts E a job d (P @ chunk_acts a job cs @ [ReadIt p] @ chunk_acts a job ds
      @ [Executed (job_request (ag_cfg a) job step d) ans] @ chunk_acts a job es @ R @ [Gone d])"

definition names_kept :: "'n agent_env \<Rightarrow> bool" where
  "names_kept E \<longleftrightarrow> (\<forall>xs. set (ae_name_order E xs) = set xs)"
  \<comment> \<open>Go visits every key of a map\<close>

lemma Primary_total:
  assumes "names_kept E" "ParseFile ReadFile yaml ord path = Inr jobs"
  shows "\<exists>step. Primary (ae_name_order E) jobs = Some step"
proof -
  obtain data js where "yaml data = Inr js" "js \<noteq> []" "parse_loop (ord js) js = Inr jobs"
    using assms(2) by (auto simp: ParseFile_def Parse_def split: sum.splits if_splits)
  then have "map fst jobs \<noteq> []" using parse_loop_keys by fastforce
  then have "set (ae_name_order E (map fst jobs)) \<noteq> {}" using assms(1) by (simp add: names_kept_def)
  then have "sort (ae_name_order E (map fst jobs)) \<noteq> []" by (metis set_empty set_sort)
  then obtain k ks where s: "sort (ae_name_order E (map fst jobs)) = k # ks" by (cases "sort (ae_name_order E (map fst jobs))") auto
  then have "k \<in> set (map fst jobs)" using assms(1) by (metis list.set_intros(1) names_kept_def set_sort)
  then have "map_of jobs k \<noteq> None" by (auto simp: map_of_eq_None_iff)
  with s show ?thesis by (auto simp: Primary_def split: option.splits)
qed

lemma build_shape:
  assumes "reachable_urls E" "names_kept E" "\<not> length (j_commit_sha job) < 8" "prep_ok d P"
    "build (observed E) a job d (newLogStreamer, (n, tr)) = (p, (n', tr'))"
  shows "\<not> p \<and> (\<exists>acts. tr' = tr @ acts \<and> job_acts E a job d (P @ acts @ [Gone d]))"
proof -
  define path where "path = Join [d, j_config_ref job]"
  define line where "line = ''forgerun: checked out '' @ j_branch job @ '' at '' @ take 8 (j_commit_sha job) @ newline"
  obtain s1 n1 tr1 where e: "emit (observed E) (ship (observed E) a job) line (newLogStreamer, (n, tr)) = (s1, (n1, tr1))"
    by (metis prod.exhaust)
  from emit_ships [OF assms(1) this stream_ok_new] obtain cs where cs: "tr1 = tr @ chunk_acts a job cs"
    "ls_sent s1 = cs" "stream_ok line s1" by (auto simp: ships_def newLogStreamer_def)
  obtain got n2 where r: "ae_ReadFile E path n1 = (got, n2)" by force
  let ?tr2 = "tr1 @ [ReadIt path]"
  let ?parsed = "ParseFile (\<lambda>_. got) (ae_yaml E) (ae_spec_order E) path"
  have go: "build (observed E) a job d (newLogStreamer, (n, tr)) =
      (case ?parsed of
         Inl err \<Rightarrow> (False, fail_job (observed E) a job (''cannot read '' @ j_config_ref job)
                     (spec_text (ae_quote E) err) (s1, (n2, ?tr2)))
       | Inr jobs \<Rightarrow> (case Primary (ae_name_order E) jobs of
            None \<Rightarrow> (True, (n2, ?tr2))
          | Some step \<Rightarrow> (False, run_step (observed E) a job
              (if sj_Image step = [] then step\<lparr>sj_Image := c_DefaultImage (ag_cfg a)\<rparr> else step) d (s1, (n2, ?tr2)))))"
    using assms(3) e r unfolding build_def observed_sel line_def path_def [symmetric] by (simp add: observed_calls Let_def)
  show ?thesis
  proof (cases ?parsed)
    case (Inl err)
    let ?why = "''cannot read '' @ j_config_ref job" and ?msg = "spec_text (ae_quote E) err"
    have f: "fail_job (observed E) a job ?why ?msg (s1, (n2, ?tr2)) = (n', tr')" and p: "\<not> p"
      using go Inl assms(5) by auto
    from fail_shape [OF assms(1) cs(3) f] obtain ds bye where
      ds: "tr' = ?tr2 @ chunk_acts a job ds @ [Http (result_request a job (JobFailed, -1, ?why @ '': '' @ ?msg))]"
        "shipped (ls_sent s1 @ ds) (line @ bye)" by blast
    have "numbered (cs @ ds)" using ds(2) cs(2) by (simp add: shipped_def)
    from job_acts.no_spec [OF assms(4) this, of E a job path "?why @ '': '' @ ?msg"] p ds(1) cs(1)
    show ?thesis by (intro conjI exI [of _ "chunk_acts a job cs @ [ReadIt path] @ chunk_acts a job ds
        @ [Http (result_request a job (JobFailed, -1, ?why @ '': '' @ ?msg))]"]) simp_all
  next
    case (Inr jobs)
    obtain step where step: "Primary (ae_name_order E) jobs = Some step" using Primary_total [OF assms(2) Inr] by blast
    define step' where "step' = (if sj_Image step = [] then step\<lparr>sj_Image := c_DefaultImage (ag_cfg a)\<rparr> else step)"
    have f: "run_step (observed E) a job step' d (s1, (n2, ?tr2)) = (n', tr')" and p: "\<not> p"
      using go Inr step assms(5) by (auto simp: step'_def)
    from run_step_shape [OF assms(1) cs(3) f] obtain ds es ans R before after where
      ds: "tr' = ?tr2 @ chunk_acts a job ds @ [Executed (job_request (ag_cfg a) job step' d) ans] @ chunk_acts a job es @ R"
        "shipped (ls_sent s1 @ ds @ es) (line @ before @ concat (fst ans) @ after)"
        "R = [Http (result_request a job (verdict (snd ans)))] \<or> (\<exists>m. ae_abandoned E m) \<and> R = []"
        "\<exists>m. ans = fst (ae_Execute E (job_request (ag_cfg a) job step' d) m)" by blast
    have "shipped (cs @ ds @ es) ((line @ before) @ concat (fst ans) @ after)" using ds(2) cs(2) by simp
    from job_acts.ran [OF assms(4) this ds(3,4), of path] p ds(1) cs(1)
    show ?thesis by (intro conjI exI [of _ "chunk_acts a job cs @ [ReadIt path] @ chunk_acts a job ds
        @ [Executed (job_request (ag_cfg a) job step' d) ans] @ chunk_acts a job es @ R"]) simp_all
  qed
qed

lemma run_job_shape:
  assumes "reachable_urls E" "names_kept E" "\<not> length (j_commit_sha job) < 8"
    "run_job (observed E) a job token (n, tr) = (p, (n', tr'))"
  shows "\<not> p \<and> (\<exists>acts. tr' = tr @ acts \<and> job_acts E a job (workspace_dir (checkout_of (ag_cfg a) job token)) acts)"
proof -
  let ?c = "checkout_of (ag_cfg a) job token"
  obtain r n1 tr1 where w: "prepareWorkspace (observed E) ?c (n, tr) = (r, (n1, tr1))" by (metis prod.exhaust)
  from prepareWorkspace_observed [OF this] obtain P where P: "tr1 = tr @ P"
    "case r of Inr d \<Rightarrow> d = workspace_dir ?c \<and> prep_ok d P | Inl _ \<Rightarrow> prep_failed (workspace_dir ?c) P" by blast
  show ?thesis
  proof (cases r)
    case (Inr d)
    then have d: "d = workspace_dir ?c" "prep_ok d P" using P(2) by auto
    obtain q n2 tr2 where b: "build (observed E) a job d (newLogStreamer, (n1, tr1)) = (q, (n2, tr2))" by (metis prod.exhaust)
    from build_shape [OF assms(1-3) d(2) this] obtain acts where "\<not> q" "tr2 = tr1 @ acts"
      "job_acts E a job d (P @ acts @ [Gone d])" by blast
    moreover have "p = q" "tr' = tr2 @ [Gone d]"
      using assms(4) w Inr b by (auto simp: run_job_def observed_calls)
    ultimately show ?thesis using P(1) d(1) by auto
  next
    case (Inl e)
    have F: "prep_failed (workspace_dir ?c) P" using P(2) Inl by simp
    have p: "\<not> p" using assms(4) w Inl by (auto simp: run_job_def)
    show ?thesis
    proof (cases "ae_abandoned E n1")
      case True
      with assms(4) w Inl have "abandon (observed E) a job (newLogStreamer, (n1, tr1)) = (n', tr')"
        by (simp add: run_job_def)
      from abandon_shape [OF assms(1) stream_ok_new this] obtain cs bye where "tr' = tr1 @ chunk_acts a job cs"
        "shipped cs bye" by (auto simp: newLogStreamer_def)
      with job_acts.no_checkout [OF F, of cs "[]" a job "[]" E] True P(1) p show ?thesis by (auto simp: shipped_def)
    next
      case False
      with assms(4) w Inl have "fail_job (observed E) a job ''checkout failed'' e (newLogStreamer, (n1, tr1)) = (n', tr')"
        by (simp add: run_job_def)
      from fail_shape [OF assms(1) stream_ok_new this] obtain cs bye where
        "tr' = tr1 @ chunk_acts a job cs @ [Http (result_request a job (JobFailed, -1, ''checkout failed'' @ '': '' @ e))]"
        "shipped cs bye" by (auto simp: newLogStreamer_def)
      with job_acts.no_checkout [OF F, of cs _ a job "''checkout failed'' @ '': '' @ e" E] P(1) p
      show ?thesis by (auto simp: shipped_def)
    qed
  qed
qed

lemma agent_do_observed:
  assumes "reachable_urls E"
  shows "\<exists>r n'. agent_do (observed E) a ''POST'' path b (n, tr) = (r, (n', tr @ [Http (api_request a path b)]))"
  using assms
  by (auto simp: agent_do_def agent_request_for_def reachable_urls_def observed_calls api_request_def Let_def
      split: sum.splits prod.splits)

text \<open>The requests carry the identity of the runner, whatever job is active.\<close>

lemma active_frame [simp]:
  "result_request (snd (setActive i a)) = result_request a" "chunk_request (snd (setActive i a)) = chunk_request a"
  "start_request (snd (setActive i a)) = start_request a" "api_request (snd (setActive i a)) = api_request a"
  "ag_cfg (snd (setActive i a)) = ag_cfg a" "chunk_acts (snd (setActive i a)) = chunk_acts a"
  by (auto simp: fun_eq_iff setActive_def result_request_def chunk_request_def start_request_def api_request_def
      chunk_acts_def)

lemma job_acts_active: "job_acts E (snd (setActive i a)) job d acts \<longleftrightarrow> job_acts E a job d acts"
  by (auto simp: job_acts.simps)

lemma execute_eq:
  "execute E a job token n =
     (case agent_do E (snd (setActive (j_id job) a)) ''POST'' (''/api/v1/jobs/'' @ j_id job @ ''/start'') AgNone n of
        (Inl _, n1) \<Rightarrow> (False, clearActive (fst (setActive (j_id job) a)) (snd (setActive (j_id job) a)), n1)
      | (Inr _, n1) \<Rightarrow>
          (case run_job E (snd (setActive (j_id job) a)) job token n1 of (panicked, n2) \<Rightarrow>
             (panicked, clearActive (fst (setActive (j_id job) a)) (snd (setActive (j_id job) a)), n2)))"
  by (simp add: execute_def split_beta)

lemma execute_from:
  assumes "reachable_urls E" "names_kept E" "8 \<le> length (j_commit_sha job)"
    "execute (observed E) a job token (n, tr0) = (p, a', (n', tr))"
  shows "\<not> p \<and> a' = a\<lparr>ag_active := None, ag_jobs := Suc (ag_jobs a)\<rparr>
    \<and> (\<exists>acts. tr = tr0 @ Http (start_request a job) # acts
        \<and> (acts = [] \<or> job_acts E a job (workspace_dir (checkout_of (ag_cfg a) job token)) acts))"
proof -
  let ?a = "snd (setActive (j_id job) a)" and ?tr = "tr0 @ [Http (start_request a job)]"
  obtain r n1 where s: "agent_do (observed E) ?a ''POST'' (''/api/v1/jobs/'' @ j_id job @ ''/start'') AgNone (n, tr0) =
      (r, (n1, ?tr))"
    using agent_do_observed [OF assms(1), of ?a "''/api/v1/jobs/'' @ j_id job @ ''/start''" AgNone n tr0]
    by (auto simp: start_request_def)
  obtain q n2 tr2 where j: "run_job (observed E) ?a job token (n1, ?tr) = (q, (n2, tr2))"
    by (metis prod.exhaust)
  from run_job_shape [OF assms(1,2) _ this] assms(3) obtain acts where acts: "\<not> q"
    "tr2 = tr0 @ Http (start_request a job) # acts"
    "job_acts E a job (workspace_dir (checkout_of (ag_cfg a) job token)) acts" by (auto simp: job_acts_active)
  have act: "clearActive (fst (setActive (j_id job) a)) ?a = a\<lparr>ag_active := None, ag_jobs := Suc (ag_jobs a)\<rparr>"
    by (simp add: setActive_def clearActive_def)
  show ?thesis
  proof (cases r)
    case (Inl e)
    have "(p, a', (n', tr)) = (False, clearActive (fst (setActive (j_id job) a)) ?a, (n1, ?tr))"
      unfolding assms(4) [symmetric] execute_eq s Inl by (simp only: prod.case sum.case)
    with act show ?thesis by simp
  next
    case (Inr b)
    have "(p, a', (n', tr)) = (q, clearActive (fst (setActive (j_id job) a)) ?a, (n2, tr2))"
      unfolding assms(4) [symmetric] execute_eq s Inr by (simp only: prod.case sum.case j)
    with act acts show ?thesis by simp
  qed
qed

lemma execute_shape:
  assumes "reachable_urls E" "names_kept E" "8 \<le> length (j_commit_sha job)"
    "execute (observed E) a job token (n, []) = (p, a', (n', tr))"
  shows "\<not> p \<and> ag_active a' = None \<and> (tr = [Http (start_request a job)]
    \<or> (\<exists>acts. tr = Http (start_request a job) # acts
        \<and> job_acts E a job (workspace_dir (checkout_of (ag_cfg a) job token)) acts))"
  using execute_from [OF assms] by auto

section \<open>The process\<close>

definition poll_request :: "agent \<Rightarrow> agent_request" where
  "poll_request a = (api_request a (''/api/v1/runners/'' @ ag_id a @ ''/job'') AgNone)\<lparr>aq_method := ''GET''\<rparr>"

lemma poll_observed:
  assumes "reachable_urls E"
  shows "\<exists>r n'. poll (observed E) a (n, tr) = (r, (n', tr @ [Http (poll_request a)]))
    \<and> (\<forall>job token. r = Inr (Some (job, token)) \<longrightarrow> (\<exists>b. ae_delivery E b = Inr (job, token)))"
proof -
  have d: "ae_delivery (observed E) = ae_delivery E" by (simp add: observed_def)
  show ?thesis
    using assms
    by (cases "ae_Do E (poll_request a) n")
      (auto simp: poll_def agent_request_for_def reachable_urls_def observed_calls poll_request_def api_request_def
        Let_def d split: sum.splits)
qed

text \<open>The trace of the rounds of an agent: polls, each followed by at most one whole job.\<close>

inductive sessions :: "'n agent_env \<Rightarrow> agent \<Rightarrow> act list \<Rightarrow> bool"
  for E :: "'n agent_env" and a :: agent where
  none: "sessions E a []"
| idle: "sessions E a tr \<Longrightarrow> sessions E a (Http (poll_request a) # tr)"
| job: "acts = [] \<or> job_acts E a j (workspace_dir (checkout_of (ag_cfg a) j token)) acts \<Longrightarrow> sessions E a tr \<Longrightarrow>
    sessions E a (Http (poll_request a) # Http (start_request a j) # acts @ tr)"

lemma idle_frame [simp]:
  "result_request (a\<lparr>ag_active := x, ag_jobs := k\<rparr>) = result_request a"
  "chunk_request (a\<lparr>ag_active := x, ag_jobs := k\<rparr>) = chunk_request a"
  "start_request (a\<lparr>ag_active := x, ag_jobs := k\<rparr>) = start_request a"
  "poll_request (a\<lparr>ag_active := x, ag_jobs := k\<rparr>) = poll_request a"
  "chunk_acts (a\<lparr>ag_active := x, ag_jobs := k\<rparr>) = chunk_acts a"
  by (auto simp: fun_eq_iff result_request_def chunk_request_def start_request_def api_request_def
      chunk_acts_def poll_request_def)

lemma job_acts_idle: "job_acts E (a\<lparr>ag_active := x, ag_jobs := k\<rparr>) job d acts \<longleftrightarrow> job_acts E a job d acts"
  by (auto simp: job_acts.simps)

lemma sessions_idle: "sessions E (a\<lparr>ag_active := x, ag_jobs := k\<rparr>) tr \<Longrightarrow> sessions E a tr"
  by (induction rule: sessions.induct) (auto simp: job_acts_idle intro: sessions.intros)

definition full_commits :: "'n agent_env \<Rightarrow> bool" where
  "full_commits E \<longleftrightarrow> (\<forall>b job token. ae_delivery E b = Inr (job, token) \<longrightarrow> 8 \<le> length (j_commit_sha job))"

lemma rounds_shape:
  "reachable_urls E \<Longrightarrow> names_kept E \<Longrightarrow> full_commits E \<Longrightarrow>
   agent_rounds k (observed E) a (n, tr0) = (p, a', (n', tr)) \<Longrightarrow>
   \<not> p \<and> a' = a\<lparr>ag_active := ag_active a', ag_jobs := ag_jobs a'\<rparr> \<and> (ag_active a = None \<longrightarrow> ag_active a' = None)
     \<and> (\<exists>more. tr = tr0 @ more \<and> sessions E a more)"
proof (induction k arbitrary: a n tr0)
  case 0
  then show ?case by (auto intro: sessions.none)
next
  case (Suc k)
  obtain r n1 where poll: "poll (observed E) a (n, tr0) = (r, (n1, tr0 @ [Http (poll_request a)]))"
    "\<And>job token. r = Inr (Some (job, token)) \<Longrightarrow> \<exists>b. ae_delivery E b = Inr (job, token)"
    using poll_observed [OF Suc.prems(1), of a n tr0] by blast
  show ?case
  proof (cases "\<exists>job token. r = Inr (Some (job, token))")
    case False
    then have "agent_rounds k (observed E) a (n1, tr0 @ [Http (poll_request a)]) = (p, a', (n', tr))"
      using Suc.prems(4) poll(1) by (auto split: sum.splits option.splits)
    from Suc.IH [OF Suc.prems(1-3) this] show ?thesis by (auto intro: sessions.idle)
  next
    case True
    then obtain job token where r: "r = Inr (Some (job, token))" by blast
    have sha: "8 \<le> length (j_commit_sha job)" using poll(2) [OF r] Suc.prems(3) by (auto simp: full_commits_def)
    obtain q a1 n2 tr1 where x: "execute (observed E) a job token (n1, tr0 @ [Http (poll_request a)]) = (q, a1, (n2, tr1))"
      by (metis prod.exhaust)
    from execute_from [OF Suc.prems(1,2) sha x] obtain acts where e: "\<not> q"
      "a1 = a\<lparr>ag_active := None, ag_jobs := Suc (ag_jobs a)\<rparr>"
      "tr1 = tr0 @ Http (poll_request a) # Http (start_request a job) # acts"
      "acts = [] \<or> job_acts E a job (workspace_dir (checkout_of (ag_cfg a) job token)) acts" by auto
    have "agent_rounds k (observed E) a1 (n2, tr1) = (p, a', (n', tr))"
      using Suc.prems(4) poll(1) r x e(1) by auto
    from Suc.IH [OF Suc.prems(1-3) this] obtain more where h: "\<not> p"
      "a' = a1\<lparr>ag_active := ag_active a', ag_jobs := ag_jobs a'\<rparr>" "ag_active a' = None"
      "tr = tr1 @ more" "sessions E a1 more" by (auto simp: e(2))
    have "a' = a\<lparr>ag_active := ag_active a', ag_jobs := ag_jobs a'\<rparr>" using h(2) unfolding e(2) by simp
    with sessions.job [OF e(4) sessions_idle [OF h(5) [unfolded e(2)]]] h(1,3,4) e(3) show ?thesis by auto
  qed
qed

end
