(* ===== verification/Runner_Properties.thy ===== *)
theory Runner_Properties
  imports Agent_Behaviour
begin

text \<open>
  The properties of the runner: the log stream, the checkout, the container and the protocol of a job.
  They hold for every world the agent can meet; the witnesses run in \<open>demo\<close>, where every call succeeds.
\<close>

section \<open>The log stream\<close>

text \<open>C25: The log stream loses, repeats and reorders nothing. In every interleaving of the build's writes, the
  ticker's flushes and \<open>Close\<close>, what has been sent, what a flush has in hand and what is still
  buffered, in this order, is exactly what the build has written; the chunks sent are numbered 1, 2, 3
  and so on without gaps, none is empty, and the callback has been called with them in this order.\<close>

theorem log_stream_exact:
  assumes "stream_run send (newLogStreamer, n0) out (s, n)"
  shows "concat (map snd (ls_sent s)) @ (case ls_hand s of None \<Rightarrow> [] | Some c \<Rightarrow> c) @ ls_buf s = out
    \<and> map fst (ls_sent s) = map int [1..<Suc (length (ls_sent s))]
    \<and> list_all (\<lambda>(q, c). c \<noteq> []) (ls_sent s)
    \<and> n = fold (\<lambda>(q, c). send q c) (ls_sent s) n0"
  using stream_run_inv [OF assms] by (force simp: stream_inv_def in_transit_def list_all_iff simp del: upt_Suc)

theorem log_stream_exact_witness:
  "\<exists>s n. stream_run (\<lambda>q c log. log @ [(q, c)]) (newLogStreamer, []) ''abc'' (s, n)
    \<and> ls_sent s = [(1, ''ab'')] \<and> ls_buf s = ''c'' \<and> n = [(1, ''ab'')]"
proof -
  let ?send = "\<lambda>q c log. log @ [(q :: int, c :: string)]"
  have r1: "stream_run ?send (newLogStreamer, []) ([] @ ''ab'') (Write ''ab'' newLogStreamer, [])"
    by (rule stream_run.further [OF stream_run.start stream_step.written])
  have r2: "stream_run ?send (newLogStreamer, []) (([] @ ''ab'') @ []) (flush_take (Write ''ab'' newLogStreamer), [])"
    by (rule stream_run.further [OF r1 stream_step.taken]) (simp add: newLogStreamer_def Write_def)
  note r3 = stream_run.further [OF r2 stream_step.written, of "''c''"]
  note run = stream_run.further [OF r3 stream_step.sent]
  let ?c = "flush_send ?send (Write ''c'' (flush_take (Write ''ab'' newLogStreamer))) []"
  obtain s n where c: "?c = (s, n)" by force
  then have sent: "ls_sent s = [(1, ''ab'')]" "ls_buf s = ''c''"
    by (auto simp: flush_send_def Write_def flush_take_def newLogStreamer_def)
  have "stream_run ?send (newLogStreamer, []) ''abc'' (s, n)" using run c by simp
  from log_stream_exact [OF this] this sent show ?thesis by auto
qed

section \<open>The protocol of a job\<close>

fun results_of :: "act list \<Rightarrow> (JobStatus \<times> int \<times> string) list" where
  "results_of [] = []"
| "results_of (x # xs) =
     (case x of
        Http rq \<Rightarrow> (case aq_body rq of AgResult st code m \<Rightarrow> (st, code, m) # results_of xs | _ \<Rightarrow> results_of xs)
      | _ \<Rightarrow> results_of xs)"

definition is_chunk :: "act \<Rightarrow> bool" where
  "is_chunk x = (case x of Http rq \<Rightarrow> (case aq_body rq of AgChunk _ \<Rightarrow> True | _ \<Rightarrow> False) | _ \<Rightarrow> False)"

lemma results_of_append [simp]: "results_of (xs @ ys) = results_of xs @ results_of ys"
  by (induction xs) (auto split: act.splits agent_body.splits)

lemma results_of_chunks [simp]: "results_of (chunk_acts a job cs) = []"
  by (induction cs) (auto simp: chunk_acts_def chunk_request_def)

lemma results_of_Ran [simp]: "results_of (map (Ran d) cmds) = []"
  by (induction cmds) auto

lemma result_body [simp]:
  "aq_body (result_request a job v) = (case v of (st, code, m) \<Rightarrow> AgResult st code m)"
  "aq_body (start_request a job) = AgNone"
  by (simp_all add: result_request_def start_request_def api_request_def split: prod.splits)

lemma results_of_prep [simp]: "prep_ok d P \<Longrightarrow> results_of P = []" "prep_failed d P \<Longrightarrow> results_of P = []"
  by (auto simp: prep_ok_def prep_failed_def)

lemma Executed_prep [simp]: "prep_ok d P \<Longrightarrow> Executed rq ans \<notin> set P" "prep_failed d P \<Longrightarrow> Executed rq ans \<notin> set P"
  by (auto simp: prep_ok_def prep_failed_def)

lemma Executed_chunks [simp]: "Executed rq ans \<notin> set (chunk_acts a job cs)"
  by (auto simp: chunk_acts_def)

lemma verdict_success:
  "fst (verdict r) = JobSuccess \<longleftrightarrow> snd r = None \<and> x_ExitCode (fst r) = 0 \<and> \<not> x_TimedOut (fst r)"
  by (auto simp: verdict_def split: prod.splits option.splits)

text \<open>What is true of the result of a job, of the acts after its start.\<close>

definition reported :: "'n agent_env \<Rightarrow> agent \<Rightarrow> Job \<Rightarrow> string \<Rightarrow> act list \<Rightarrow> bool" where
  "reported E a job d acts \<longleftrightarrow>
     (results_of acts = [] \<and> (\<exists>m. ae_abandoned E m))
   \<or> (\<exists>v before after. results_of acts = [v] \<and> acts = before @ Http (result_request a job v) # after
        \<and> set after \<subseteq> {Gone d}
        \<and> (fst v = JobSuccess \<longleftrightarrow>
             (\<exists>rq out res. Executed rq (out, res, None) \<in> set acts \<and> x_ExitCode res = 0 \<and> \<not> x_TimedOut res)))"

lemma reportedI:
  assumes "acts = before @ Http (result_request a job v) # after" "results_of before = []" "set after \<subseteq> {Gone d}"
    "fst v = JobSuccess \<longleftrightarrow>
       (\<exists>rq out res. Executed rq (out, res, None) \<in> set before \<and> x_ExitCode res = 0 \<and> \<not> x_TimedOut res)"
  shows "reported E a job d acts"
proof -
  have "results_of after = []" using assms(3) by (induction after) auto
  then have "results_of acts = [v]" using assms(1,2) by (auto split: prod.splits)
  moreover have "Executed rq (out, res, None) \<in> set acts \<longleftrightarrow> Executed rq (out, res, None) \<in> set before" for rq out res
    using assms(1,3) by auto
  ultimately show ?thesis using assms unfolding reported_def by blast
qed

lemma job_acts_reported: "job_acts E a job d acts \<Longrightarrow> reported E a job d acts"
proof (induction rule: job_acts.induct)
  case (no_checkout P cs R m)
  then show ?case
  proof (cases "R = []")
    case True
    with no_checkout show ?thesis by (auto simp: reported_def)
  next
    case False
    with no_checkout show ?thesis
      by (intro reportedI [of _ "P @ chunk_acts a job cs" a job "(JobFailed, -1, m)" "[]"]) auto
  qed
next
  case (no_spec P cs ds p m)
  then show ?case
    by (intro reportedI [of _ "P @ chunk_acts a job cs @ [ReadIt p] @ chunk_acts a job ds" a job "(JobFailed, -1, m)" "[Gone d]"])
      auto
next
  case (ran P cs ds es before ans after R step p)
  let ?acts = "P @ chunk_acts a job cs @ [ReadIt p] @ chunk_acts a job ds
      @ [Executed (job_request (ag_cfg a) job step d) ans] @ chunk_acts a job es"
  show ?case
  proof (cases "R = []")
    case True
    with ran show ?thesis by (auto simp: reported_def)
  next
    case False
    obtain out res err where ans: "ans = (out, res, err)" by (metis prod.exhaust)
    have "fst (verdict (snd ans)) = JobSuccess \<longleftrightarrow>
       (\<exists>rq out res. Executed rq (out, res, None) \<in> set ?acts \<and> x_ExitCode res = 0 \<and> \<not> x_TimedOut res)"
      using ran(1) by (auto simp: verdict_success ans)
    with False ran show ?thesis
      by (intro reportedI [of _ ?acts a job "verdict (snd ans)" "[Gone d]"]) auto
  qed
qed


text \<open>A world in which every call succeeds, and one job.\<close>

definition demo :: "unit agent_env" where
  "demo = \<lparr>mc_MkdirAll = (\<lambda>_ n. (None, n)), mc_RemoveAll = (\<lambda>_ n. (None, n)), mc_Command = (\<lambda>_ _ _ n. (([], None), n)),
     ae_url = (\<lambda>_. None), ae_Do = (\<lambda>_ n. (Inr \<lparr>ar_status = 200, ar_body = []\<rparr>, n)),
     ae_ReadFile = (\<lambda>_ n. (Inr ''spec'', n)),
     ae_Execute = (\<lambda>_ n. (([''hello''], \<lparr>x_ExitCode = 0, x_TimedOut = False\<rparr>, None), n)),
     ae_tick = (\<lambda>n. (True, n)), ae_abandoned = (\<lambda>_. False),
     ae_yaml = (\<lambda>_. Inr [(''test'', \<lparr>sj_Name = [], sj_Image = [], sj_Commands = [''make''], sj_Env = [], sj_Labels = []\<rparr>)]),
     ae_spec_order = (\<lambda>s. s), ae_name_order = (\<lambda>s. s), ae_quote = (\<lambda>s. s),
     ae_registered = (\<lambda>_. Inr (''r'', ''t'')), ae_cancel = (\<lambda>_. Inr False), ae_delivery = (\<lambda>_. Inl ''none''),
     ae_GOARCH = ''amd64'', ae_GOOS = ''linux''\<rparr>"

definition demo_config :: Config where
  "demo_config = Load \<lparr>os_Getenv = (\<lambda>_. []), os_Hostname = Some ''host'', os_TempDir = ''/tmp'',
     parse_float = (\<lambda>_. None), parse_duration = (\<lambda>_. None)\<rparr>"

definition demo_agent :: agent where
  "demo_agent = \<lparr>ag_cfg = demo_config, ag_id = ''r'', ag_token = ''t'', ag_active = None, ag_jobs = 0\<rparr>"

definition demo_job :: Job where
  "demo_job = \<lparr>j_id = ''a'', j_repository = ''acme/app'', j_clone_url = ''https://host/app'',
     j_commit_sha = replicate 40 CHR ''a'', j_branch = ''main'', j_event_type = ''push'',
     j_config_ref = ''forgerun.yml'', j_labels = [], j_status = JobAssigned, j_runner_id = Some ''r'',
     j_attempts = 1, j_exit_code = None, j_error = [], j_created_at = 0, j_started_at = None, j_completed_at = None\<rparr>"

lemma demo_ok: "reachable_urls demo" "names_kept demo" "8 \<le> length (j_commit_sha demo_job)"
  by (simp_all add: reachable_urls_def names_kept_def demo_def demo_job_def)


text \<open>The same world with a job at every poll.\<close>

definition demo_busy :: "unit agent_env" where
  "demo_busy = demo\<lparr>ae_Do := \<lambda>rq n. (Inr \<lparr>ar_status = (case aq_body rq of AgRegister _ _ _ _ \<Rightarrow> 201 | _ \<Rightarrow> 200),
     ar_body = []\<rparr>, n), ae_delivery := \<lambda>_. Inr (demo_job, [])\<rparr>"


section \<open>The runner process\<close>

definition is_start :: "act \<Rightarrow> bool" where
  "is_start x = (case x of Http rq \<Rightarrow> HasSuffix (aq_url rq) ''/start'' \<and> aq_body rq = AgNone \<and> aq_method rq = ''POST'' | _ \<Rightarrow> False)"

lemma HasSuffix_append [simp]: "HasSuffix (xs @ ys) ys"
  by (simp add: HasSuffix_def)

lemma is_start_request [simp]: "is_start (Http (start_request a job))"
  using HasSuffix_append [of "c_ServerURL (ag_cfg a) @ ''/api/v1/jobs/'' @ j_id job" "''/start''"]
  by (simp add: is_start_def start_request_def api_request_def)

lemma poll_request_body [simp]: "aq_body (poll_request a) = AgNone" "\<not> is_start (Http (poll_request a))"
  by (simp_all add: poll_request_def api_request_def is_start_def)

lemma job_acts_results: "job_acts E a job d acts \<Longrightarrow> length (results_of acts) \<le> 1"
  using job_acts_reported [of E a job d acts] by (auto simp: reported_def)

lemma sessions_results: "sessions E a tr \<Longrightarrow> length (results_of tr) \<le> length (filter is_start tr)"
proof (induction rule: sessions.induct)
  case (job acts j token tr)
  have "length (results_of acts) \<le> 1" using job(1) job_acts_results by auto
  with job(3) show ?case by simp
qed simp_all

text \<open>The runner process runs one job at a time and survives every one of them. After any number of rounds
  it has not panicked, holds the identity it registered with and no active job, and it has
  reported at most as many results as it has asked to start jobs. The commit hashes it is handed have at
  least the eight characters it prints.\<close>

theorem agent_runs_jobs_in_turn:
  assumes "reachable_urls E" "names_kept E" "full_commits E" "ag_active a = None"
    and "Agent_Run rounds (observed E) a (n, []) = (Inr (panicked, a'), (n', tr))"
  shows "\<not> panicked \<and> ag_active a' = None
    \<and> (\<exists>b. ae_registered E b = Inr (ag_id a', ag_token a'))
    \<and> length (results_of tr) \<le> length (filter is_start tr)"
proof -
  obtain a1 n1 tr1 where r: "register (observed E) a (n, []) = (Inr a1, (n1, tr1))"
    "agent_rounds rounds (observed E) a1 (n1, tr1) = (panicked, a', (n', tr))"
    using assms(5) by (auto simp: Agent_Run_def split: prod.splits sum.splits)
  have d: "ae_registered (observed E) = ae_registered E" by (simp add: observed_def)
  from r(1) obtain b rq where a1: "ae_registered E b = Inr (ag_id a1, ag_token a1)" "ag_active a1 = None"
    "tr1 = [Http rq]" "\<exists>nm ls ar os. aq_body rq = AgRegister nm ls ar os"
    using assms(4) by (auto simp: register_def Let_def observed_calls d split: option.splits prod.splits sum.splits if_splits)
  from rounds_shape [OF assms(1-3) r(2)] a1(2) obtain more where h: "\<not> panicked"
    "a' = a1\<lparr>ag_active := ag_active a', ag_jobs := ag_jobs a'\<rparr>" "ag_active a' = None" "tr = tr1 @ more" "sessions E a1 more" by auto
  have i: "ag_id a' = ag_id a1" "ag_token a' = ag_token a1" by (subst h(2), simp)+
  have "results_of tr1 = []" using a1(3,4) by auto
  with sessions_results [OF h(5)] h(1,3,4) i a1(1) show ?thesis by auto
qed

theorem agent_runs_jobs_in_turn_witness:
  "\<exists>panicked a' n' tr. Agent_Run 2 (observed demo_busy) demo_agent ((), []) = (Inr (panicked, a'), (n', tr))
    \<and> \<not> panicked \<and> ag_id a' = ''r'' \<and> length (filter is_start tr) = 2"
proof -
  have c: "isl (fst (Agent_Run 2 (observed demo_busy) demo_agent ((), []))) = False"
    "length (filter is_start (snd (snd (Agent_Run 2 (observed demo_busy) demo_agent ((), []))))) = 2" by code_simp+
  obtain panicked a' n' tr where x: "Agent_Run 2 (observed demo_busy) demo_agent ((), []) = (Inr (panicked, a'), (n', tr))"
    using c(1) by (cases "Agent_Run 2 (observed demo_busy) demo_agent ((), [])"; cases "fst (Agent_Run 2 (observed demo_busy) demo_agent ((), []))") auto
  have h: "reachable_urls demo_busy" "names_kept demo_busy" "full_commits demo_busy" "ag_active demo_agent = None"
    by (simp_all add: reachable_urls_def names_kept_def full_commits_def demo_busy_def demo_def demo_job_def demo_agent_def)
  have "ae_registered demo_busy b = Inr (''r'', ''t'')" for b by (simp add: demo_busy_def demo_def)
  with agent_runs_jobs_in_turn [OF h x] x c(2) show ?thesis by auto
qed

section \<open>Logs, workspace, credentials\<close>

lemma filter_prep [simp]: "prep_ok d P \<Longrightarrow> filter is_chunk P = []" "prep_failed d P \<Longrightarrow> filter is_chunk P = []"
  by (auto simp: prep_ok_def prep_failed_def is_chunk_def filter_empty_conv)

lemma filter_chunks [simp]: "filter is_chunk (chunk_acts a job cs) = chunk_acts a job cs"
  by (auto simp: chunk_acts_def is_chunk_def chunk_request_def filter_id_conv)

lemma is_chunk_simps [simp]:
  "\<not> is_chunk (Http (result_request a job v))" "\<not> is_chunk (Http (start_request a job))" "\<not> is_chunk (Gone d)"
  "\<not> is_chunk (ReadIt p)" "\<not> is_chunk (Executed rq ans)"
  by (auto simp: is_chunk_def split: prod.splits)

lemma job_acts_chunks:
  "job_acts E a job d acts \<Longrightarrow> \<exists>cs. filter is_chunk acts = chunk_acts a job cs \<and> numbered cs
    \<and> (\<forall>rq ans. Executed rq ans \<in> set acts \<longrightarrow> (\<exists>before after. concat (map snd cs) = before @ concat (fst ans) @ after))"
proof (induction rule: job_acts.induct)
  case (no_checkout P cs R m)
  then show ?case by (intro exI [of _ cs]) auto
next
  case (no_spec P cs ds p m)
  then show ?case by (intro exI [of _ "cs @ ds"]) auto
next
  case (ran P cs ds es before ans after R step p)
  then have "filter is_chunk R = []" "Executed rq x \<notin> set R" for rq x by auto
  with ran show ?case
    by (intro exI [of _ "cs @ ds @ es"]) (auto simp: shipped_def)
qed

lemma execute_chunks:
  assumes "reachable_urls E" "names_kept E" "8 \<le> length (j_commit_sha job)"
    and "execute (observed E) a job token (n, []) = (panicked, a', (n', tr))"
  shows "\<exists>cs. filter is_chunk tr = chunk_acts a job cs \<and> numbered cs
    \<and> (\<forall>rq ans. Executed rq ans \<in> set tr \<longrightarrow> (\<exists>before after. concat (map snd cs) = before @ concat (fst ans) @ after))"
proof -
  from execute_shape [OF assms] obtain acts where acts: "tr = Http (start_request a job) # acts"
    "acts = [] \<or> job_acts E a job (workspace_dir (checkout_of (ag_cfg a) job token)) acts" by blast
  show ?thesis
  proof (cases "acts = []")
    case True
    with acts(1) show ?thesis by (intro exI [of _ "[]"]) (simp add: chunk_acts_def numbered_def)
  next
    case False
    with acts(2) have "job_acts E a job (workspace_dir (checkout_of (ag_cfg a) job token)) acts" by simp
    from job_acts_chunks [OF this] acts(1) show ?thesis by auto
  qed
qed

text \<open>The log chunks of a job are numbered 1, 2, 3 and so on, in the order they are sent; everything the
  container wrote is in them, complete, in order and in one piece, between the agent's own lines.\<close>

theorem agent_ships_output:
  assumes "reachable_urls E" "names_kept E" "8 \<le> length (j_commit_sha job)"
    and "execute (observed E) a job token (n, []) = (panicked, a', (n', tr))"
  shows "\<exists>cs. filter is_chunk tr = map (\<lambda>(q, c). Http (chunk_request a job q c)) cs
    \<and> map fst cs = map int [1..<Suc (length cs)]
    \<and> (\<forall>rq ans. Executed rq ans \<in> set tr \<longrightarrow> (\<exists>before after. concat (map snd cs) = before @ concat (fst ans) @ after))"
  using execute_chunks [OF assms] unfolding chunk_acts_def numbered_def .

lemma demo_run:
  obtains panicked a' n' tr where
    "execute (observed demo) demo_agent demo_job [] ((), []) = (panicked, a', (n', tr))" by (metis prod.exhaust)

theorem agent_ships_output_witness:
  "\<exists>panicked a' n' tr cs. execute (observed demo) demo_agent demo_job [] ((), []) = (panicked, a', (n', tr))
    \<and> filter is_chunk tr = map (\<lambda>(q, c). Http (chunk_request demo_agent demo_job q c)) cs
    \<and> map fst cs = map int [1..<Suc (length cs)]"
  using demo_run agent_ships_output [OF demo_ok] by metis





text \<open>The checkout. On success the directory was made, the repository initialised with the clone url as
  its remote, the commit fetched (or, where the server refuses that, its branch) and exactly this
  commit checked out. On failure the directory is removed again, unless it could not even be made. The
  credential is given only to \<open>fetch\<close> and \<open>checkout\<close>, as an option of that one command: the two commands
  that write the configuration of the repository do not depend on it.\<close>

theorem checkout_exact:
  assumes "prepareWorkspace (traced M) c (n, []) = (res, (n', calls))"
  shows "let d = workspace_dir c;
      auth = (if co_Token c = [] then []
        else [''-c'', ''http.extraheader=AUTHORIZATION: basic '' @ StdEncoding (''x-access-token:'' @ co_Token c)]);
      init = [[''git'', ''init'', ''-q''], [''git'', ''remote'', ''add'', ''origin'', co_CloneURL c]];
      sha = ''git'' # auth @ [''fetch'', ''-q'', ''--depth'', ''1'', ''origin'', co_CommitSHA c];
      branch = ''git'' # auth @ [''fetch'', ''-q'', ''--depth'', ''50'', ''origin'', co_Branch c];
      out = ''git'' # auth @ [''checkout'', ''-q'', co_CommitSHA c]
    in (\<exists>f \<in> {[sha], [sha, branch]}.
        (case res of
           Inr d' \<Rightarrow> d' = d \<and> calls = Mkdir d # map (Command d) (init @ f @ [out])
         | Inl _ \<Rightarrow> calls = [Mkdir d] \<or> (\<exists>k. calls = Mkdir d # map (Command d) (take k (init @ f @ [out])) @ [Remove d])))"
proof -
  have f: "fetch_sha c = ''git'' # authArgs (co_Token c) @ [''fetch'', ''-q'', ''--depth'', ''1'', ''origin'', co_CommitSHA c]"
    "fetch_branch c = ''git'' # authArgs (co_Token c) @ [''fetch'', ''-q'', ''--depth'', ''50'', ''origin'', co_Branch c]"
    "checkout_sha c = ''git'' # authArgs (co_Token c) @ [''checkout'', ''-q'', co_CommitSHA c]"
    by (simp_all add: fetch_sha_def fetch_branch_def checkout_sha_def git_def)
  have a: "(if co_Token c = [] then []
        else [''-c'', ''http.extraheader=AUTHORIZATION: basic '' @ StdEncoding (''x-access-token:'' @ co_Token c)])
      = authArgs (co_Token c)" by (simp add: authArgs_def)
  let ?d = "workspace_dir c" and ?all = "\<lambda>f. public_commands c @ f @ [checkout_sha c]"
  have "\<exists>f \<in> {[fetch_sha c], [fetch_sha c, fetch_branch c]}. (case res of
      Inr d' \<Rightarrow> d' = ?d \<and> calls = Mkdir ?d # map (Command ?d) (?all f)
    | Inl _ \<Rightarrow> calls = [Mkdir ?d] \<or> (\<exists>k. calls = Mkdir ?d # map (Command ?d) (take k (?all f)) @ [Remove ?d]))"
    using traced.prepared [OF assms] unfolding snd_conv append_Nil
    by (elim disjE bexE exE conjE) (blast | (simp only: sum.case, blast) | force)+
  then show ?thesis unfolding Let_def a f [symmetric] public_commands_def [symmetric] .
qed

definition idle_machine :: "unit machine" where
  "idle_machine = \<lparr>mc_MkdirAll = (\<lambda>_ n. (None, n)), mc_RemoveAll = (\<lambda>_ n. (None, n)),
     mc_Command = (\<lambda>_ _ cmd n. (([], if ''fetch'' \<in> set cmd then Some ''refused'' else None), n))\<rparr>"

theorem checkout_exact_witness:
  "\<exists>e calls. prepareWorkspace (traced idle_machine) (checkout_of demo_config demo_job ''ghs'') ((), []) = (Inl e, ((), calls))
    \<and> hd calls = Mkdir (workspace_dir (checkout_of demo_config demo_job ''ghs''))"
proof -
  let ?c = "checkout_of demo_config demo_job ''ghs''"
  obtain res n' calls where p: "prepareWorkspace (traced idle_machine) ?c ((), []) = (res, (n', calls))"
    by (metis prod.exhaust)
  have "\<exists>e. fst (prepareWorkspace (traced idle_machine) ?c ((), [])) = Inl e"
    by (simp add: prepareWorkspace_def fetch_def check_out_def give_up_def Let_def traced_calls run_command_def git_def idle_machine_def)
  then obtain e where e: "res = Inl e" using p by auto
  show ?thesis
    using checkout_exact [OF p] p e unfolding Let_def by (auto simp: unit.exhaust)
qed

text \<open>A redacted message does not contain the credential, for every credential without an asterisk.\<close>

theorem redact_hides_token:
  assumes "token \<noteq> []" and "CHR ''*'' \<notin> set token"
  shows "\<not> Contains (redact s token) token"
  using redacted_free [OF assms] assms(1) by (simp add: redact_def)

theorem redact_hides_token_witness: "\<not> Contains (redact ''fatal: ghs_1 ghs_1'' ''ghs_1'') ''ghs_1''"
  by (rule redact_hides_token) auto

text \<open>What git is given is not the token but its encoding, and that is not redacted.\<close>

lemma redact_keeps_encoded_token:
  "redact (authArgs ''ghs_1'' ! 1) ''ghs_1'' = authArgs ''ghs_1'' ! 1"
  by code_simp

section \<open>The container\<close>


text \<open>What the executor answers. Without an error the container was waited for, and the result is its exit
  code, or -1 and timed out when the deadline passed; an image that cannot be had, a container that
  cannot be created or started, a failed wait and a cancellation are errors.\<close>

theorem Execute_answers:
  assumes "Execute (watched D) ord req (n, []) = ((out, res, err), (n', calls))"
  shows "(err = None \<longleftrightarrow> (\<exists>i code. Waited i (Exited code) \<in> set calls) \<or> (\<exists>i. Waited i DeadlineExceeded \<in> set calls))
    \<and> (\<forall>i code. Waited i (Exited code) \<in> set calls \<longrightarrow> res = \<lparr>x_ExitCode = code, x_TimedOut = False\<rparr>)
    \<and> (\<forall>i. Waited i DeadlineExceeded \<in> set calls \<longrightarrow> res = \<lparr>x_ExitCode = -1, x_TimedOut = True\<rparr>)"
proof -
  consider (early) "\<And>i ev. Waited i ev \<notin> set calls" "err \<noteq> None"
    | (waited) i ev where "\<And>j ev'. Waited j ev' \<in> set calls \<longleftrightarrow> j = i \<and> ev' = ev" "(res, err) = snd (ending req ev)"
    using Execute_watched [OF assms] by fastforce
  then show ?thesis
  proof cases
    case early
    then show ?thesis by auto
  next
    case (waited i ev)
    then show ?thesis by (cases ev) (auto simp: ending_def)
  qed
qed

text \<open>An engine whose containers exit with code 3, and one job for it.\<close>

definition engine :: "unit docker" where
  "engine = \<lparr>dk_ImageList = (\<lambda>_ n. (Inr 1, n)), dk_ImagePull = (\<lambda>_ n. (Inr None, n)),
     dk_ContainerCreate = (\<lambda>_ n. (Inr ''c'', n)), dk_ContainerStart = (\<lambda>_ n. (None, n)),
     dk_ContainerLogs = (\<lambda>_ n. (Inr ([''hello''], None), n)), dk_Wait = (\<lambda>_ n. (Exited 3, n)),
     dk_Ended = (\<lambda>_. False), dk_ContainerRemove = (\<lambda>_ n. (None, n))\<rparr>"

definition demo_request :: Request where
  "demo_request = \<lparr>x_Job = demo_job, x_Spec = \<lparr>sj_Name = ''test'', sj_Image = ''alpine'', sj_Commands = [''make''],
       sj_Env = [(''A'', ''1'')], sj_Labels = []\<rparr>,
     x_Workspace = ''/tmp/forgerun-a'', x_Timeout = 60 * second, x_CPUs = 1, x_MemoryMB = 1024, x_Network = ''none''\<rparr>"

lemma engine_runs:
  "Execute (watched engine) (\<lambda>e. e) demo_request ((), []) =
     (([''hello''], \<lparr>x_ExitCode = 3, x_TimedOut = False\<rparr>, None),
      ((), [Looked ''alpine'', Created (container_for (\<lambda>e. e) demo_request) (Inr ''c''), Started ''c'', Streamed ''c'',
            Waited ''c'' (Exited 3), Removed ''c'']))"
  by (simp add: Execute_def ensureImage_def run_container_def stream_logs_def ending_def watched_def engine_def demo_request_def)


theorem Execute_answers_witness:
  "x_ExitCode (fst (snd (fst (Execute (watched engine) (\<lambda>e. e) demo_request ((), []))))) = 3"
proof -
  have "Waited ''c'' (Exited 3) \<in> set [Looked ''alpine'', Created (container_for (\<lambda>e. e) demo_request) (Inr ''c''),
      Started ''c'', Streamed ''c'', Waited ''c'' (Exited 3), Removed ''c'']" by simp
  with Execute_answers [OF engine_runs] show ?thesis by (simp add: engine_runs)
qed

section \<open>The agent with the Docker executor\<close>

lemma verdict_code: "fst (verdict r) = JobSuccess \<Longrightarrow> fst (snd (verdict r)) = 0"
  by (auto simp: verdict_def split: prod.splits option.splits if_splits)

lemma job_acts_success:
  assumes "job_acts E a job d acts" "results_of acts = [(JobSuccess, code, m)]"
  shows "code = 0 \<and> (\<exists>step out res n. Executed (job_request (ag_cfg a) job step d) (out, res, None) \<in> set acts
    \<and> fst (ae_Execute E (job_request (ag_cfg a) job step d) n) = (out, res, None)
    \<and> x_ExitCode res = 0 \<and> \<not> x_TimedOut res)"
  using assms
proof (cases rule: job_acts.cases)
  case (no_checkout P cs R msg)
  with assms(2) show ?thesis by auto
next
  case (no_spec P cs ds p msg)
  with assms(2) show ?thesis by auto
next
  case (ran P cs ds es before ans after R step p)
  from ran(4) have R: "results_of R = [verdict (snd ans)] \<or> results_of R = []" by (auto split: prod.splits)
  moreover have "results_of acts = results_of R" using ran(1,2) by simp
  ultimately have v: "verdict (snd ans) = (JobSuccess, code, m)" using assms(2) by auto
  obtain out res err where ans: "ans = (out, res, err)" by (metis prod.exhaust)
  have ok: "err = None" "x_ExitCode res = 0" "\<not> x_TimedOut res" "code = 0"
    using v verdict_success [of "snd ans"] verdict_code [of "snd ans"] by (simp_all add: ans)
  from ran(5) obtain n where "fst (ae_Execute E (job_request (ag_cfg a) job step d) n) = (out, res, None)"
    using ans ok(1) by metis
  moreover have "Executed (job_request (ag_cfg a) job step d) (out, res, None) \<in> set acts" using ran(1) ans ok(1) by simp
  ultimately show ?thesis using ok by blast
qed

text \<open>C16: SUCCESS means that the build really succeeded. When the agent runs its jobs with the Docker executor
  and reports SUCCESS, the reported exit code is 0 and a container was created for this job, with this
  job's workspace, ran to its end and exited with code 0.\<close>

theorem success_is_exit_zero:
  assumes "reachable_urls E" "names_kept E" "8 \<le> length (j_commit_sha job)" "ae_Execute E = Execute D ord"
    and "execute (observed E) a job token (n, []) = (panicked, a', (n', tr))"
    and "results_of tr = [(JobSuccess, code, m)]"
  shows "code = 0 \<and> (\<exists>rq ans n0. Executed rq ans \<in> set tr \<and> ans = fst (Execute D ord rq n0)
    \<and> x_Job rq = job \<and> x_Workspace rq = workspace_dir (checkout_of (ag_cfg a) job token)
    \<and> container_exit D ord rq n0 = Some 0)"
proof -
  let ?d = "workspace_dir (checkout_of (ag_cfg a) job token)"
  from execute_shape [OF assms(1-3,5)] obtain acts where acts: "tr = Http (start_request a job) # acts"
    "acts = [] \<or> job_acts E a job ?d acts" by blast
  with assms(6) have "job_acts E a job ?d acts" "results_of acts = [(JobSuccess, code, m)]" by auto
  from job_acts_success [OF this] obtain step out res n0 where s: "code = 0"
    "Executed (job_request (ag_cfg a) job step ?d) (out, res, None) \<in> set acts"
    "fst (Execute D ord (job_request (ag_cfg a) job step ?d) n0) = (out, res, None)"
    "x_ExitCode res = 0 \<and> \<not> x_TimedOut res" unfolding assms(4) by blast
  have "container_exit D ord (job_request (ag_cfg a) job step ?d) n0 = Some 0" using docker.zero_iff [OF s(3)] s(4) by blast
  moreover have "x_Job (job_request (ag_cfg a) job step ?d) = job" "x_Workspace (job_request (ag_cfg a) job step ?d) = ?d"
    by (simp_all add: job_request_def)
  ultimately show ?thesis using s(1-3) acts(1) by (metis list.set_intros(2))
qed

definition demo_docker :: "unit agent_env" where
  "demo_docker = demo\<lparr>ae_Execute := Execute (engine\<lparr>dk_Wait := \<lambda>_ n. (Exited 0, n)\<rparr>) (\<lambda>e. e)\<rparr>"

theorem success_is_exit_zero_witness:
  "\<exists>panicked a' n' tr m rq. execute (observed demo_docker) demo_agent demo_job [] ((), []) = (panicked, a', (n', tr))
    \<and> results_of tr = [(JobSuccess, 0, m)]
    \<and> container_exit (engine\<lparr>dk_Wait := \<lambda>_ n. (Exited 0, n)\<rparr>) (\<lambda>e. e) rq () = Some 0"
proof -
  let ?D = "engine\<lparr>dk_Wait := \<lambda>_ n. (Exited 0, n)\<rparr>"
  have c: "results_of (snd (snd (snd (execute (observed demo_docker) demo_agent demo_job [] ((), []))))) = [(JobSuccess, 0, [])]"
    by code_simp
  obtain panicked a' n' tr where x: "execute (observed demo_docker) demo_agent demo_job [] ((), []) = (panicked, a', (n', tr))"
    by (metis prod.exhaust)
  have h: "reachable_urls demo_docker" "names_kept demo_docker" "8 \<le> length (j_commit_sha demo_job)"
    "ae_Execute demo_docker = Execute ?D (\<lambda>e. e)"
    by (simp_all add: reachable_urls_def names_kept_def demo_docker_def demo_def demo_job_def)
  have r: "results_of tr = [(JobSuccess, 0, [])]" using c x by simp
  from success_is_exit_zero [OF h x r] x r show ?thesis by auto
qed

end
