(* ===== verification/Migrate.thy ===== *)
theory Migrate
  imports Go_Strings
begin

text \<open>
  \<^verbatim>\<open>internal/store/migrate.go\<close>: the embedded SQL files and the table \<^verbatim>\<open>schema_migrations\<close>. The schema is of
  any type; \<open>sql\<close> is what PostgreSQL does with the text of a file, or its error. Every call to the
  database consumes one outcome of the script, as in the theory \<^verbatim>\<open>Store\<close>. The table is \<open>None\<close> until it is
  created; versions are compared byte by byte, as Go and the C collation do. Files are the embedded
  directory, in the order of their names.
\<close>

record 'd mig =
  md_schema :: 'd
  md_versions :: "string list option"  \<comment> \<open>the rows of schema_migrations, oldest first\<close>
  md_script :: "outcome list"

type_synonym 'd sql = "string \<Rightarrow> 'd \<Rightarrow> string + 'd"
type_synonym files = "(string \<times> string) list"

definition mig_exec :: "('d mig \<Rightarrow> (string + 'a) \<times> 'd mig) \<Rightarrow> 'd mig \<Rightarrow> (string + 'a) \<times> 'd mig" where
  "mig_exec f s =
     (case next_outcome (md_script s) of (x, rest) \<Rightarrow>
        (case with_outcome x f (s\<lparr>md_script := rest\<rparr>) of
           (Inl e, t) \<Rightarrow> (Inl e, t)
         | (Inr r, t) \<Rightarrow> (r, t)))"

definition mig_read :: "('d mig \<Rightarrow> string + 'a) \<Rightarrow> 'd mig \<Rightarrow> (string + 'a) \<times> 'd mig" where
  "mig_read q s = (q s, s)"

definition ensureMigrationsTable :: "'d mig \<Rightarrow> string option \<times> 'd mig" where
  "ensureMigrationsTable s =
     (case mig_exec (\<lambda>t. (Inr (), t\<lparr>md_versions := Some (case md_versions t of None \<Rightarrow> [] | Some vs \<Rightarrow> vs)\<rparr>)) s of
        (Inl e, t) \<Rightarrow> (Some (''create schema_migrations: '' @ e), t)
      | (Inr _, t) \<Rightarrow> (None, t))"

definition with_versions :: "(string list \<Rightarrow> string + 'a) \<Rightarrow> 'd mig \<Rightarrow> string + 'a" where
  "with_versions q s = (case md_versions s of None \<Rightarrow> Inl ''relation does not exist'' | Some vs \<Rightarrow> q vs)"

definition record_version :: "bool \<Rightarrow> string \<Rightarrow> 'd mig \<Rightarrow> (string + unit) \<times> 'd mig" where
  "record_version up version s =
     (case md_versions s of
        None \<Rightarrow> (Inl ''relation does not exist'', s)
      | Some vs \<Rightarrow>
          if up then (if version \<in> set vs then (Inl ''duplicate key'', s)
                      else (Inr (), s\<lparr>md_versions := Some (vs @ [version])\<rparr>))
          else (Inr (), s\<lparr>md_versions := Some (removeAll version vs)\<rparr>))"

definition run_body :: "'d sql \<Rightarrow> string \<Rightarrow> 'd mig \<Rightarrow> (string + unit) \<times> 'd mig" where
  "run_body sql body s =
     (case sql body (md_schema s) of Inl e \<Rightarrow> (Inl e, s) | Inr d \<Rightarrow> (Inr (), s\<lparr>md_schema := d\<rparr>))"

text \<open>The statements of the transaction run on a copy; a rollback keeps only the outcomes consumed.\<close>

definition undo :: "'d mig \<Rightarrow> 'd mig \<Rightarrow> 'd mig" where
  "undo s t = s\<lparr>md_script := md_script t\<rparr>"

definition runMigration :: "'d sql \<Rightarrow> string \<Rightarrow> string \<Rightarrow> bool \<Rightarrow> 'd mig \<Rightarrow> string option \<times> 'd mig" where
  "runMigration sql version body up s0 =
     (case mig_exec (mig_read (\<lambda>_. Inr ())) s0 of
        (Inl e, s) \<Rightarrow> (Some e, s)
      | (Inr _, s) \<Rightarrow>
     (case mig_exec (run_body sql body) s of
        (Inl e, t) \<Rightarrow>
          (let direction = (if up then ''migration'' else ''rollback'')
           in (Some (''apply '' @ direction @ '' '' @ version @ '': '' @ e), undo s t))
      | (Inr _, t) \<Rightarrow>
     (case mig_exec (record_version up version) t of
        (Inl e, u) \<Rightarrow> (Some e, undo s u)
      | (Inr _, u) \<Rightarrow>
     (case mig_exec (\<lambda>v. (Inr (), v\<lparr>md_schema := md_schema u, md_versions := md_versions u\<rparr>)) (undo s u) of
        (Inl e, v) \<Rightarrow> (Some e, v)
      | (Inr _, v) \<Rightarrow> (None, v)))))"

definition upMigrations :: "files \<Rightarrow> string list" where
  "upMigrations FS = sort (filter (\<lambda>f. \<not> HasSuffix f ''.down.sql'') (filter (\<lambda>f. HasSuffix f ''.sql'') (map fst FS)))"

definition ReadFile :: "files \<Rightarrow> string \<Rightarrow> string + string" where
  "ReadFile FS name = (case map_of FS name of None \<Rightarrow> Inl (''open '' @ name @ '': file does not exist'') | Some b \<Rightarrow> Inr b)"

fun migrate_loop :: "'d sql \<Rightarrow> files \<Rightarrow> string list \<Rightarrow> 'd mig \<Rightarrow> string option \<times> 'd mig" where
  "migrate_loop sql FS [] s = (None, s)"
| "migrate_loop sql FS (name # names) s =
     (case mig_exec (mig_read (with_versions (\<lambda>vs. Inr (name \<in> set vs)))) s of
        (Inl e, t) \<Rightarrow> (Some e, t)
      | (Inr applied, t) \<Rightarrow>
          if applied then migrate_loop sql FS names t
          else
            (case ReadFile FS name of
               Inl e \<Rightarrow> (Some e, t)
             | Inr body \<Rightarrow>
                 (case runMigration sql name body True t of
                    (Some e, u) \<Rightarrow> (Some e, u)
                  | (None, u) \<Rightarrow> migrate_loop sql FS names u)))"

definition Migrate :: "'d sql \<Rightarrow> files \<Rightarrow> 'd mig \<Rightarrow> string option \<times> 'd mig" where
  "Migrate sql FS s =
     (case ensureMigrationsTable s of
        (Some e, t) \<Rightarrow> (Some e, t)
      | (None, t) \<Rightarrow> migrate_loop sql FS (upMigrations FS) t)"

definition newest_first :: "string list \<Rightarrow> string list" where
  "newest_first vs = rev (sort vs)"

definition limited :: "int \<Rightarrow> string list \<Rightarrow> string + string list" where
  "limited steps vs = (if steps < 0 then Inl ''LIMIT must not be negative'' else Inr (take (nat steps) vs))"

definition down_name :: "string \<Rightarrow> string" where
  "down_name version = TrimSuffix version ''.sql'' @ ''.down.sql''"

fun rollback_loop :: "'d sql \<Rightarrow> files \<Rightarrow> string list \<Rightarrow> 'd mig \<Rightarrow> string option \<times> 'd mig" where
  "rollback_loop sql FS [] s = (None, s)"
| "rollback_loop sql FS (version # versions) s =
     (case ReadFile FS (down_name version) of
        Inl e \<Rightarrow> (Some (''no down migration for '' @ version @ '': '' @ e), s)
      | Inr body \<Rightarrow>
          (case runMigration sql version body False s of
             (Some e, t) \<Rightarrow> (Some e, t)
           | (None, t) \<Rightarrow> rollback_loop sql FS versions t))"

definition Rollback :: "'d sql \<Rightarrow> files \<Rightarrow> int \<Rightarrow> 'd mig \<Rightarrow> string option \<times> 'd mig" where
  "Rollback sql FS steps s =
     (case ensureMigrationsTable s of
        (Some e, t) \<Rightarrow> (Some e, t)
      | (None, t) \<Rightarrow>
          (case mig_exec (mig_read (with_versions (\<lambda>vs. limited steps (newest_first vs)))) t of
             (Inl e, u) \<Rightarrow> (Some e, u)
           | (Inr versions, u) \<Rightarrow> rollback_loop sql FS versions u))"

definition AppliedMigrations :: "'d mig \<Rightarrow> (string + string list) \<times> 'd mig" where
  "AppliedMigrations s =
     (case ensureMigrationsTable s of
        (Some e, t) \<Rightarrow> (Inl e, t)
      | (None, t) \<Rightarrow> mig_exec (mig_read (with_versions (\<lambda>vs. Inr (newest_first vs)))) t)"

section \<open>Every failure leaves schema and table in agreement\<close>

text \<open>The schema that the recorded versions stand for: their files, run in the order they were recorded.\<close>

fun build_up :: "'d sql \<Rightarrow> files \<Rightarrow> string list \<Rightarrow> 'd \<Rightarrow> 'd option" where
  "build_up sql FS [] d = Some d"
| "build_up sql FS (v # vs) d =
     (case ReadFile FS v of
        Inl _ \<Rightarrow> None
      | Inr body \<Rightarrow> (case sql body d of Inl _ \<Rightarrow> None | Inr d' \<Rightarrow> build_up sql FS vs d'))"

definition agrees :: "'d sql \<Rightarrow> files \<Rightarrow> 'd \<Rightarrow> 'd mig \<Rightarrow> bool" where
  "agrees sql FS d0 s \<longleftrightarrow>
     (let vs = (case md_versions s of None \<Rightarrow> [] | Some vs \<Rightarrow> vs)
      in distinct vs \<and> build_up sql FS vs d0 = Some (md_schema s))"

lemma build_up_append: "build_up sql FS (xs @ ys) d = Option.bind (build_up sql FS xs d) (build_up sql FS ys)"
  by (induction xs arbitrary: d) (auto split: sum.splits)

lemma mig_exec_cases:
  obtains (ran) rest where "snd (mig_exec f s) = snd (f (s\<lparr>md_script := rest\<rparr>))"
      "fst (mig_exec f s) = fst (f (s\<lparr>md_script := rest\<rparr>)) \<or> (\<exists>e. fst (mig_exec f s) = Inl e)"
  | (skipped) rest e where "mig_exec f s = (Inl e, s\<lparr>md_script := rest\<rparr>)"
proof -
  obtain x rest where x: "next_outcome (md_script s) = (x, rest)" by force
  show ?thesis
  proof (cases x)
    case Okay
    with x ran [of rest] show ?thesis by (simp add: mig_exec_def)
  next
    case (Fails e)
    with x skipped [of e rest] show ?thesis by (simp add: mig_exec_def)
  next
    case (Lost e)
    with x ran [of rest] show ?thesis by (simp add: mig_exec_def)
  qed
qed

lemma agrees_script [simp]: "agrees sql FS d0 (s\<lparr>md_script := xs\<rparr>) \<longleftrightarrow> agrees sql FS d0 s"
  by (simp add: agrees_def)

lemma mig_read_frame [simp]: "\<exists>xs. snd (mig_exec (mig_read q) s) = s\<lparr>md_script := xs\<rparr>"
  by (cases rule: mig_exec_cases [of "mig_read q" s]) (auto simp: mig_read_def)

lemma ensure_agrees: "agrees sql FS d0 s \<Longrightarrow> agrees sql FS d0 (snd (ensureMigrationsTable s))"
  unfolding ensureMigrationsTable_def
  by (cases rule: mig_exec_cases [of "\<lambda>t. (Inr (), t\<lparr>md_versions := Some (case md_versions t of None \<Rightarrow> [] | Some vs \<Rightarrow> vs)\<rparr>)" s])
    (auto simp: agrees_def split: prod.splits sum.splits option.splits)

lemma mig_exec_Inr: "mig_exec f s = (Inr a, t) \<Longrightarrow> \<exists>xs. f (s\<lparr>md_script := xs\<rparr>) = (Inr a, t)"
  by (cases rule: mig_exec_cases [of f s]) (auto simp: prod_eq_iff)

lemma mig_exec_healthy [simp]: "md_script s = [] \<Longrightarrow> mig_exec f s = f s"
  by (cases s) (simp add: mig_exec_def split: prod.splits)

text \<open>A migration takes effect as a whole or not at all, and reports success only if it took effect.\<close>

lemma runMigration_cases:
  assumes "runMigration sql version body up s = (r, s')"
  obtains (nothing) xs where "s' = s\<lparr>md_script := xs\<rparr>" "r \<noteq> None"
  | (whole) xs d vs where "sql body (md_schema s) = Inr d" "md_versions s = Some vs" "up \<Longrightarrow> version \<notin> set vs"
      "s' = s\<lparr>md_schema := d, md_versions := Some (if up then vs @ [version] else removeAll version vs), md_script := xs\<rparr>"
proof -
  obtain r1 s1 where e1: "mig_exec (mig_read (\<lambda>_. Inr ())) s = (r1, s1)" by force
  then obtain xs1 where s1: "s1 = s\<lparr>md_script := xs1\<rparr>" using mig_read_frame [of "\<lambda>_. Inr ()" s] by auto
  obtain r2 t where e2: "mig_exec (run_body sql body) s1 = (r2, t)" by force
  obtain r3 u where e3: "mig_exec (record_version up version) t = (r3, u)" by force
  show thesis
  proof (cases "(\<exists>e. r1 = Inl e) \<or> (\<exists>e. r2 = Inl e) \<or> (\<exists>e. r3 = Inl e)")
    case True
    then have "r \<noteq> None \<and> (\<exists>xs. s' = s\<lparr>md_script := xs\<rparr>)"
      using assms e1 e2 e3 s1 by (cases r1; cases r2; cases r3) (auto simp: runMigration_def undo_def Let_def)
    then obtain xs where "s' = s\<lparr>md_script := xs\<rparr>" "r \<noteq> None" by blast
    then show thesis by (rule nothing)
  next
    case False
    then obtain a1 a2 a3 where r: "r1 = Inr a1" "r2 = Inr a2" "r3 = Inr a3" by (metis sum.exhaust)
    obtain xs2 d where d: "sql body (md_schema s) = Inr d" "t = s\<lparr>md_script := xs2, md_schema := d\<rparr>"
      using mig_exec_Inr [OF e2 [unfolded r]] s1 by (cases "sql body (md_schema s)") (auto simp: run_body_def)
    obtain xs3 vs where vs: "md_versions s = Some vs" "up \<Longrightarrow> version \<notin> set vs"
      "u = s\<lparr>md_schema := d, md_script := xs3, md_versions := Some (if up then vs @ [version] else removeAll version vs)\<rparr>"
      using mig_exec_Inr [OF e3 [unfolded r]] d(2)
      by (cases "md_versions s"; cases up; cases "version \<in> set (the (md_versions s))") (auto simp: record_version_def)
    let ?commit = "\<lambda>v. (Inr (), v\<lparr>md_schema := md_schema u, md_versions := md_versions u\<rparr>) :: (string + unit) \<times> 'a mig"
    have go: "runMigration sql version body up s = (case mig_exec ?commit (undo s1 u) of
        (Inl e, v) \<Rightarrow> (Some e, v) | (Inr _, v) \<Rightarrow> (None, v))"
      using e1 e2 e3 r by (simp add: runMigration_def)
    show thesis
    proof (cases rule: mig_exec_cases [of ?commit "undo s1 u"])
      case (ran rest)
      then have "s' = s\<lparr>md_schema := d, md_versions := Some (if up then vs @ [version] else removeAll version vs), md_script := rest\<rparr>"
        using go assms s1 vs(3) by (auto simp: undo_def split: prod.splits sum.splits)
      with d(1) vs show thesis by (intro whole) auto
    next
      case (skipped rest e)
      then have "s' = s\<lparr>md_script := rest\<rparr>" "r \<noteq> None" using go assms s1 by (auto simp: undo_def)
      then show thesis by (rule nothing)
    qed
  qed
qed

lemma runMigration_up_agrees:
  assumes "runMigration sql version body True s = (r, s')" "agrees sql FS d0 s" "ReadFile FS version = Inr body"
  shows "agrees sql FS d0 s'"
  using assms(1)
proof (cases rule: runMigration_cases)
  case (nothing xs)
  with assms(2) show ?thesis by simp
next
  case (whole xs d vs)
  with assms(2,3) show ?thesis by (simp add: agrees_def build_up_append)
qed

lemma migrate_loop_agrees:
  "agrees sql FS d0 s \<Longrightarrow> agrees sql FS d0 (snd (migrate_loop sql FS names s))"
proof (induction names arbitrary: s)
  case (Cons name names)
  obtain r t where e: "mig_exec (mig_read (with_versions (\<lambda>vs. Inr (name \<in> set vs)))) s = (r, t)" by force
  then obtain xs where "t = s\<lparr>md_script := xs\<rparr>"
    using mig_read_frame [of "with_versions (\<lambda>vs. Inr (name \<in> set vs))" s] by auto
  with Cons.prems have t: "agrees sql FS d0 t" by simp
  show ?case
  proof (cases "r = Inr False \<and> (\<exists>body. ReadFile FS name = Inr body)")
    case True
    then obtain body where body: "r = Inr False" "ReadFile FS name = Inr body" by blast
    obtain r2 u where m: "runMigration sql name body True t = (r2, u)" by force
    with runMigration_up_agrees [OF m t body(2)] Cons.IH [of u] e body show ?thesis by (cases r2) auto
  next
    case False
    with e t Cons.IH [of t] show ?thesis by (cases r; cases "ReadFile FS name") auto
  qed
qed simp

lemma Migrate_agrees: "agrees sql FS d0 s \<Longrightarrow> agrees sql FS d0 (snd (Migrate sql FS s))"
  using ensure_agrees [of sql FS d0 s] migrate_loop_agrees [of sql FS d0]
  by (auto simp: Migrate_def split: prod.splits option.splits)

section \<open>A healthy run\<close>

definition pending :: "files \<Rightarrow> string list \<Rightarrow> string list" where
  "pending FS vs = filter (\<lambda>f. f \<notin> set vs) (upMigrations FS)"

lemma runMigration_healthy:
  assumes "md_script s = []" "md_versions s = Some vs" "sql body (md_schema s) = Inr d" "up \<Longrightarrow> version \<notin> set vs"
  shows "runMigration sql version body up s =
    (None, s\<lparr>md_schema := d, md_versions := Some (if up then vs @ [version] else removeAll version vs)\<rparr>)"
  using assms by (simp add: runMigration_def mig_read_def run_body_def record_version_def undo_def)

lemma migrate_loop_healthy:
  assumes "md_script s = []" "md_versions s = Some vs" "distinct names"
    "build_up sql FS (filter (\<lambda>f. f \<notin> set vs) names) (md_schema s) = Some d"
  shows "migrate_loop sql FS names s =
    (None, s\<lparr>md_schema := d, md_versions := Some (vs @ filter (\<lambda>f. f \<notin> set vs) names)\<rparr>)"
  using assms
proof (induction names arbitrary: s vs)
  case (Cons name names)
  have ex: "mig_exec (mig_read (with_versions (\<lambda>vs. Inr (name \<in> set vs)))) s = (Inr (name \<in> set vs), s)"
    using Cons.prems by (simp add: mig_read_def with_versions_def)
  show ?case
  proof (cases "name \<in> set vs")
    case True
    with Cons.IH [OF Cons.prems(1,2)] Cons.prems ex show ?thesis by simp
  next
    case False
    with Cons.prems(4) obtain body d1 where b: "ReadFile FS name = Inr body" "sql body (md_schema s) = Inr d1"
      "build_up sql FS (filter (\<lambda>f. f \<notin> set vs) names) d1 = Some d" by (auto split: sum.splits)
    let ?s = "s\<lparr>md_schema := d1, md_versions := Some (vs @ [name])\<rparr>"
    have f: "filter (\<lambda>f. f \<notin> set (vs @ [name])) names = filter (\<lambda>f. f \<notin> set vs) names"
      using Cons.prems(3) by (intro filter_cong) auto
    have "migrate_loop sql FS (name # names) s = migrate_loop sql FS names ?s"
      using ex False b(1) runMigration_healthy [of s vs sql body d1 True name, OF Cons.prems(1,2) b(2)] by simp
    also have "\<dots> = (None, ?s\<lparr>md_schema := d, md_versions := Some ((vs @ [name]) @ filter (\<lambda>f. f \<notin> set (vs @ [name])) names)\<rparr>)"
      using Cons.prems b(3) f by (intro Cons.IH) auto
    finally show ?thesis using False f by simp
  qed
qed simp

lemma Migrate_healthy:
  assumes "md_script s = []" "distinct (map fst FS)" "vs = (case md_versions s of None \<Rightarrow> [] | Some vs \<Rightarrow> vs)"
    "build_up sql FS (pending FS vs) (md_schema s) = Some d"
  shows "Migrate sql FS s = (None, s\<lparr>md_schema := d, md_versions := Some (vs @ pending FS vs)\<rparr>)"
proof -
  have "ensureMigrationsTable s = (None, s\<lparr>md_versions := Some vs\<rparr>)"
    using assms(1,3) by (simp add: ensureMigrationsTable_def)
  moreover have "distinct (upMigrations FS)" using assms(2) by (simp add: upMigrations_def)
  ultimately show ?thesis
    using migrate_loop_healthy [of "s\<lparr>md_versions := Some vs\<rparr>" vs "upMigrations FS" sql FS d] assms(1,4)
    by (simp add: Migrate_def pending_def)
qed

text \<open>Undoing, newest first, files whose down file undoes them.\<close>

definition undoes :: "'d sql \<Rightarrow> files \<Rightarrow> string \<Rightarrow> bool" where
  "undoes sql FS v \<longleftrightarrow> (\<exists>up down. ReadFile FS v = Inr up \<and> ReadFile FS (down_name v) = Inr down
     \<and> (\<forall>d d'. sql up d = Inr d' \<longrightarrow> sql down d' = Inr d))"

lemma rollback_loop_healthy:
  assumes "md_script s = []" "md_versions s = Some (vs @ ws)" "distinct (vs @ ws)"
    "build_up sql FS vs d0 = Some d" "build_up sql FS ws d = Some (md_schema s)" "list_all (undoes sql FS) ws"
  shows "rollback_loop sql FS (rev ws) s = (None, s\<lparr>md_schema := d, md_versions := Some vs\<rparr>)"
  using assms
proof (induction ws arbitrary: s rule: rev_induct)
  case (snoc w ws)
  obtain d1 where ws: "build_up sql FS ws d = Some d1" "build_up sql FS [w] d1 = Some (md_schema s)"
    using snoc.prems(5) by (cases "build_up sql FS ws d") (auto simp: build_up_append)
  then obtain up where d1: "build_up sql FS ws d = Some d1" "ReadFile FS w = Inr up" "sql up d1 = Inr (md_schema s)"
    by (cases "ReadFile FS w"; cases "sql (projr (ReadFile FS w)) d1") auto
  obtain down where down: "ReadFile FS (down_name w) = Inr down" "sql down (md_schema s) = Inr d1"
    using snoc.prems(6) d1(2,3) by (auto simp: undoes_def)
  let ?s = "s\<lparr>md_schema := d1, md_versions := Some (vs @ ws)\<rparr>"
  have rm: "removeAll w (vs @ ws @ [w]) = vs @ ws" using snoc.prems(3) by (simp add: removeAll_id)
  have "runMigration sql w down False s = (None, ?s)"
    using runMigration_healthy [of s "vs @ ws @ [w]" sql down d1 False w, OF snoc.prems(1,2) down(2)] rm by simp
  then have "rollback_loop sql FS (rev (ws @ [w])) s = rollback_loop sql FS (rev ws) ?s" using down(1) by simp
  also have "\<dots> = (None, ?s\<lparr>md_schema := d, md_versions := Some vs\<rparr>)"
    using snoc.prems d1(1) by (intro snoc.IH) auto
  finally show ?case by simp
qed (cases s; simp)

end
