(* ===== verification/Migrate_Properties.thy ===== *)
theory Migrate_Properties
  imports Migrate
begin

text \<open>
  The properties of the migration runner. The witnesses use a schema that is the list of the
  statements run so far, and a pair of files like the ones of the repository.
\<close>

text \<open>C27: The schema and \<^verbatim>\<open>schema_migrations\<close> never disagree. Whatever calls to the database fail, before or
  after they took effect, after \<open>Migrate\<close> the schema is the result of running exactly the files
  recorded in the table, each once, in the order they were recorded.\<close>

theorem migrations_agree:
  assumes "distinct vs" and "build_up sql FS vs d0 = Some (md_schema s)"
    and "vs = (case md_versions s of None \<Rightarrow> [] | Some vs \<Rightarrow> vs)" and "Migrate sql FS s = (r, s')"
  shows "\<exists>vs'. vs' = (case md_versions s' of None \<Rightarrow> [] | Some vs \<Rightarrow> vs) \<and> distinct vs'
    \<and> build_up sql FS vs' d0 = Some (md_schema s')"
  using Migrate_agrees [of sql FS d0 s] assms by (auto simp: agrees_def Let_def)

definition log_sql :: "string list sql" where
  "log_sql body d =
     (if HasPrefix body ''undo '' then (if d = [] then Inl ''nothing'' else Inr (butlast d)) else Inr (d @ [body]))"

definition two_files :: files where
  "two_files = [(''0001_init.down.sql'', ''undo 1''), (''0001_init.sql'', ''make 1''),
     (''0002_log.down.sql'', ''undo 2''), (''0002_log.sql'', ''make 2'')]"

definition fresh_db :: "outcome list \<Rightarrow> string list mig" where
  "fresh_db xs = \<lparr>md_schema = [], md_versions = None, md_script = xs\<rparr>"

lemma two_files_up: "upMigrations two_files = [''0001_init.sql'', ''0002_log.sql'']"
  by code_simp

theorem migrations_agree_witness:
  "\<exists>r s' vs'. Migrate log_sql two_files (fresh_db [Okay, Okay, Okay, Okay, Okay, Lost ''reset'']) = (r, s')
    \<and> vs' = (case md_versions s' of None \<Rightarrow> [] | Some vs \<Rightarrow> vs)
    \<and> build_up log_sql two_files vs' [] = Some (md_schema s')"
proof -
  let ?s = "fresh_db [Okay, Okay, Okay, Okay, Okay, Lost ''reset'']"
  obtain r s' where m: "Migrate log_sql two_files ?s = (r, s')" by force
  from migrations_agree [OF _ _ _ m, of "[]" "[]"] m show ?thesis by (auto simp: fresh_db_def)
qed

text \<open>Each pending file is applied exactly once, in the order of the names. While the database answers and
  the statements of the pending files succeed, \<open>Migrate\<close> succeeds, runs exactly the up files that are
  not recorded, in the order of their names, and records them; a second \<open>Migrate\<close> changes nothing.\<close>

theorem migrate_exactly_once:
  assumes "md_script s = []" and "distinct (map fst FS)"
    and "vs = (case md_versions s of None \<Rightarrow> [] | Some vs \<Rightarrow> vs)"
    and "build_up sql FS (pending FS vs) (md_schema s) = Some d"
  shows "\<exists>s'. Migrate sql FS s = (None, s') \<and> md_schema s' = d \<and> md_versions s' = Some (vs @ pending FS vs)
    \<and> sorted (pending FS vs) \<and> distinct (pending FS vs)
    \<and> set (pending FS vs) = {f \<in> fst ` set FS. HasSuffix f ''.sql'' \<and> \<not> HasSuffix f ''.down.sql'' \<and> f \<notin> set vs}
    \<and> Migrate sql FS s' = (None, s')"
proof -
  let ?s = "s\<lparr>md_schema := d, md_versions := Some (vs @ pending FS vs)\<rparr>"
  have "pending FS (vs @ pending FS vs) = []" by (auto simp: pending_def filter_empty_conv)
  then have "Migrate sql FS ?s = (None, ?s)"
    using Migrate_healthy [of ?s FS "vs @ pending FS vs" sql d] assms(1,2) by simp
  moreover have "sorted (pending FS vs)" unfolding pending_def upMigrations_def by (intro sorted_wrt_filter sorted_sort)
  moreover have "distinct (pending FS vs)" using assms(2) by (simp add: pending_def upMigrations_def)
  moreover have "set (pending FS vs) = {f \<in> fst ` set FS. HasSuffix f ''.sql'' \<and> \<not> HasSuffix f ''.down.sql'' \<and> f \<notin> set vs}"
    by (auto simp: pending_def upMigrations_def)
  ultimately show ?thesis using Migrate_healthy [OF assms] by (intro exI [of _ ?s]) simp
qed

theorem migrate_exactly_once_witness:
  "\<exists>s'. Migrate log_sql two_files (fresh_db []) = (None, s') \<and> md_schema s' = [''make 1'', ''make 2'']
    \<and> md_versions s' = Some [''0001_init.sql'', ''0002_log.sql'']"
proof -
  have p: "pending two_files [] = [''0001_init.sql'', ''0002_log.sql'']" by (simp add: pending_def two_files_up)
  have "build_up log_sql two_files (pending two_files []) [] = Some [''make 1'', ''make 2'']"
    unfolding p by code_simp
  moreover have "distinct (map fst two_files)" by (simp add: two_files_def)
  ultimately show ?thesis
    using migrate_exactly_once [of "fresh_db []" two_files "[]" log_sql "[''make 1'', ''make 2'']"] p
    by (auto simp: fresh_db_def)
qed

text \<open>Rolling back undoes the newest migrations. While the database answers, if the recorded versions are
  in the order of their names and the down file of each undoes it, \<open>Rollback n\<close> succeeds and leaves the
  database as it was before the last \<open>n\<close> of them: schema and table.\<close>

theorem rollback_undoes:
  assumes "md_script s = []" and "md_versions s = Some vs" and "sorted vs" and "distinct vs"
    and "build_up sql FS vs d0 = Some (md_schema s)" and "list_all (undoes sql FS) vs" and "0 \<le> steps"
  shows "\<exists>d. Rollback sql FS steps s = (None, s\<lparr>md_schema := d, md_versions := Some (take (length vs - nat steps) vs)\<rparr>)
    \<and> build_up sql FS (take (length vs - nat steps) vs) d0 = Some d"
proof -
  let ?k = "length vs - nat steps"
  obtain d where d: "build_up sql FS (take ?k vs) d0 = Some d" "build_up sql FS (drop ?k vs) d = Some (md_schema s)"
    using assms(5) build_up_append [of sql FS "take ?k vs" "drop ?k vs" d0]
    by (cases "build_up sql FS (take ?k vs) d0") auto
  have "list_all (undoes sql FS) (drop ?k vs)" using assms(6) by (auto simp: list_all_iff dest: in_set_dropD)
  then have "rollback_loop sql FS (rev (drop ?k vs)) s = (None, s\<lparr>md_schema := d, md_versions := Some (take ?k vs)\<rparr>)"
    using rollback_loop_healthy [of s "take ?k vs" "drop ?k vs" sql FS d0 d] assms(1,2,4) d by simp
  moreover have "take (nat steps) (rev vs) = rev (drop ?k vs)" by (simp add: take_rev)
  moreover have "ensureMigrationsTable s = (None, s)"
    using assms(1,2) by (cases s) (simp add: ensureMigrationsTable_def)
  ultimately show ?thesis
    using assms(1-3,7) d(1)
    by (simp add: Rollback_def mig_read_def with_versions_def limited_def newest_first_def sorted_sort_id)
qed

lemma two_files_undone: "list_all (undoes log_sql two_files) [''0001_init.sql'', ''0002_log.sql'']"
proof -
  have r: "ReadFile two_files ''0001_init.sql'' = Inr ''make 1''" "ReadFile two_files ''0002_log.sql'' = Inr ''make 2''"
    "ReadFile two_files (down_name ''0001_init.sql'') = Inr ''undo 1''"
    "ReadFile two_files (down_name ''0002_log.sql'') = Inr ''undo 2''" by code_simp+
  show ?thesis by (auto simp: undoes_def r log_sql_def)
qed

theorem rollback_undoes_witness:
  "\<exists>d. Rollback log_sql two_files 1 \<lparr>md_schema = [''make 1'', ''make 2''],
      md_versions = Some [''0001_init.sql'', ''0002_log.sql''], md_script = []\<rparr> =
    (None, \<lparr>md_schema = d, md_versions = Some [''0001_init.sql''], md_script = []\<rparr>)"
proof -
  have b: "build_up log_sql two_files [''0001_init.sql'', ''0002_log.sql''] [] = Some [''make 1'', ''make 2'']" by code_simp
  have o: "sorted [''0001_init.sql'', ''0002_log.sql'']" using sorted_sort [of "filter (\<lambda>f. \<not> HasSuffix f ''.down.sql'')
      (filter (\<lambda>f. HasSuffix f ''.sql'') (map fst two_files))"] two_files_up by (simp add: upMigrations_def)
  from rollback_undoes [of "\<lparr>md_schema = [''make 1'', ''make 2''],
      md_versions = Some [''0001_init.sql'', ''0002_log.sql''], md_script = []\<rparr>" _ log_sql two_files "[]" 1] b o two_files_undone
  show ?thesis by auto
qed

text \<open>
  Newest is by name, not by time: of two migrations recorded as second first, a rollback of one step
  undoes the second, although the first was applied last.
\<close>

lemma rollback_by_name:
  "md_versions (snd (Rollback log_sql two_files 1 \<lparr>md_schema = [''make 2'', ''make 1''],
      md_versions = Some [''0002_log.sql'', ''0001_init.sql''], md_script = []\<rparr>)) = Some [''0001_init.sql'']"
  by code_simp

end
