(* ===== verification/Commands.thy ===== *)
theory Commands
  imports Service Github_Client Migrate Agent
begin

text \<open>
  \<^verbatim>\<open>cmd/api\<close>, \<^verbatim>\<open>cmd/scheduler\<close> and \<^verbatim>\<open>cmd/runner\<close>: the three processes. Each is a function to its exit code, the list
  of what it opened, served and closed, and the state it leaves. Connecting to PostgreSQL, Redis and
  Docker and draining the HTTP server are arguments (\<open>None\<close> is success). \<^verbatim>\<open>os.Exit\<close> runs no deferred call, so a
  process that exits with 1 closes nothing. A panic of the main goroutine runs them; a panic of another
  goroutine does not; both give exit code 2. \<open>turns\<close> and \<open>rounds\<close> are how far the loops get before a
  signal arrives. Log lines are left out.
\<close>

datatype 'k boot =
    StoreOpened | StoreClosed
  | QueueOpened | QueueClosed
  | DockerOpened | DockerClosed
  | Serving string "'k client_mode"  \<comment> \<open>address and GitHub client\<close>
  | Drained

record host =
  ho_env :: environment
  ho_pool :: "string \<Rightarrow> string option"  \<comment> \<open>pgxpool.New\<close>
  ho_ping :: "string \<Rightarrow> string option"  \<comment> \<open>the first ping of the pool\<close>
  ho_redis_url :: "string \<Rightarrow> string option"  \<comment> \<open>redis.ParseURL\<close>
  ho_docker :: "string option"  \<comment> \<open>client.NewClientWithOpts\<close>
  ho_docker_ping :: "string option"
  ho_file :: "string \<Rightarrow> string + string"
  ho_listen :: "string \<Rightarrow> string option"  \<comment> \<open>binding the address\<close>
  ho_shutdown :: "string option"

definition New :: "host \<Rightarrow> string \<Rightarrow> string option" where
  "New H databaseURL =
     (case ho_pool H databaseURL of
        Some e \<Rightarrow> Some (''connect postgres: '' @ e)
      | None \<Rightarrow> (case ho_ping H databaseURL of Some e \<Rightarrow> Some (''ping postgres: '' @ e) | None \<Rightarrow> None))"

definition NewRedis :: "host \<Rightarrow> string \<Rightarrow> string option" where
  "NewRedis H redisURL = map_option (\<lambda>e. ''parse REDIS_URL: '' @ e) (ho_redis_url H redisURL)"

definition NewDocker :: "host \<Rightarrow> string option" where
  "NewDocker H = map_option (\<lambda>e. ''connect to docker: '' @ e) (ho_docker H)"

section \<open>The API\<close>

definition github_options :: "Config \<Rightarrow> Options" where
  "github_options cfg = \<lparr>op_AppID = c_GitHubAppID cfg, op_PrivateKeyPEM = c_GitHubAppPrivateKey cfg,
     op_PrivateKeyPath = c_GitHubAppPrivateKeyPath cfg, op_Token = c_GitHubToken cfg\<rparr>"

text \<open>A server that cannot listen ends the process the way a signal does.\<close>

definition serve_api :: "'k key_codecs \<Rightarrow> host \<Rightarrow> Config \<Rightarrow> int \<times> 'k boot list" where
  "serve_api K H cfg =
     (case NewRedis H (c_RedisURL cfg) of
        Some _ \<Rightarrow> (1, [])
      | None \<Rightarrow>
          (case Configure (ho_file H) K (github_options cfg) of
             Inl _ \<Rightarrow> (1, [QueueOpened])
           | Inr mode \<Rightarrow>
               (let addr = '':'' @ c_ServerPort cfg;
                    served = QueueOpened # (if ho_listen H addr = None then [Serving addr mode] else [])
                in case ho_shutdown H of
                     Some _ \<Rightarrow> (1, served)
                   | None \<Rightarrow> (0, served @ [Drained, QueueClosed, StoreClosed]))))"

definition api_main :: "'d sql \<Rightarrow> files \<Rightarrow> 'k key_codecs \<Rightarrow> host \<Rightarrow> int \<Rightarrow> 'd mig \<Rightarrow> int \<times> 'k boot list \<times> 'd mig" where
  "api_main sql FS K H rollback s =
     (let cfg = Load (ho_env H) in
      if Validate cfg \<noteq> None then (1, [], s)
      else if New H (c_DatabaseURL cfg) \<noteq> None then (1, [], s)
      else if rollback > 0 then
        (case Rollback sql FS rollback s of
           (Some _, t) \<Rightarrow> (1, [StoreOpened], t)
         | (None, t) \<Rightarrow> (0, [StoreOpened, StoreClosed], snd (AppliedMigrations t)))
      else
        (case Migrate sql FS s of
           (Some _, t) \<Rightarrow> (1, [StoreOpened], t)
         | (None, t) \<Rightarrow> (case serve_api K H cfg of (code, evs) \<Rightarrow> (code, StoreOpened # evs, t))))"

section \<open>The scheduler\<close>

text \<open>\<^verbatim>\<open>time.NewTicker\<close> panics on an interval that is not positive, here half the heartbeat timeout.\<close>

definition half :: "duration \<Rightarrow> duration" where
  "half d = (if 0 \<le> d then d div 2 else - ((- d) div 2))"
  \<comment> \<open>Go's integer division\<close>

definition scheduler_main :: "nat \<Rightarrow> 'q queue_ops \<Rightarrow> host \<Rightarrow> 'q world \<Rightarrow> int \<times> unit boot list \<times> 'q world" where
  "scheduler_main turns Q H w =
     (let cfg = Load (ho_env H) in
      if Validate cfg \<noteq> None then (1, [], w)
      else if New H (c_DatabaseURL cfg) \<noteq> None then (1, [], w)
      else if NewRedis H (c_RedisURL cfg) \<noteq> None then (1, [StoreOpened], w)
      else
        (let w' = Run turns Q Schedule (c_HeartbeatTimeout cfg) w
         in if half (c_HeartbeatTimeout cfg) \<le> 0 then (2, [StoreOpened, QueueOpened], w')
            else (0, [StoreOpened, QueueOpened, QueueClosed, StoreClosed], w')))"

section \<open>The runner\<close>

record runner_flags =
  fl_server :: "string option"
  fl_name :: "string option"
  fl_labels :: "string option"

definition overridden :: "runner_flags \<Rightarrow> Config \<Rightarrow> Config" where
  "overridden F cfg = cfg\<lparr>
     c_ServerURL := (case fl_server F of None \<Rightarrow> c_ServerURL cfg | Some v \<Rightarrow> v),
     c_RunnerName := (case fl_name F of None \<Rightarrow> c_RunnerName cfg | Some v \<Rightarrow> v),
     c_RunnerLabels := (case fl_labels F of None \<Rightarrow> c_RunnerLabels cfg | Some v \<Rightarrow> v)\<rparr>"

definition new_agent :: "Config \<Rightarrow> agent" where
  "new_agent cfg = \<lparr>ag_cfg = cfg, ag_id = [], ag_token = [], ag_active = None, ag_jobs = 0\<rparr>"

definition runner_main :: "nat \<Rightarrow> 'n agent_env \<Rightarrow> host \<Rightarrow> runner_flags \<Rightarrow> 'n \<Rightarrow> int \<times> unit boot list \<times> 'n" where
  "runner_main rounds E H F n =
     (let cfg = overridden F (Load (ho_env H)) in
      if NewDocker H \<noteq> None then (1, [], n)
      else if ho_docker_ping H \<noteq> None then (1, [DockerOpened], n)
      else
        (case Agent_Run rounds E (new_agent cfg) n of
           (Inl _, n1) \<Rightarrow> (1, [DockerOpened], n1)
         | (Inr (panicked, _), n1) \<Rightarrow> (if panicked then 2 else 0, [DockerOpened, DockerClosed], n1)))"

section \<open>When the migrations are complete\<close>

text \<open>A run of \<open>Migrate\<close> that reports success has recorded every forward file, whatever failed before it.\<close>

lemma runMigration_None:
  assumes "runMigration sql version body True s = (None, t)"
  shows "\<exists>vs. md_versions s = Some vs \<and> md_versions t = Some (vs @ [version])"
  using assms by (cases rule: runMigration_cases) auto

lemma migrate_loop_records:
  "migrate_loop sql FS names s = (None, t) \<Longrightarrow> md_versions s = Some vs \<Longrightarrow>
   \<exists>ws. md_versions t = Some ws \<and> set ws = set vs \<union> set names"
proof (induction names arbitrary: s vs)
  case (Cons name names)
  obtain r s1 where e: "mig_exec (mig_read (with_versions (\<lambda>vs. Inr (name \<in> set vs)))) s = (r, s1)" by force
  then have v1: "md_versions s1 = Some vs"
    using mig_read_frame [of "with_versions (\<lambda>vs. Inr (name \<in> set vs))" s] Cons.prems(2) by auto
  obtain b where b: "r = Inr b" using Cons.prems(1) e by (cases r) auto
  have known: "b \<longleftrightarrow> name \<in> set vs"
    using mig_exec_Inr [OF e [unfolded b]] Cons.prems(2) by (auto simp: mig_read_def with_versions_def)
  show ?case
  proof (cases b)
    case True
    with Cons.IH [OF _ v1] Cons.prems(1) e b known show ?thesis by (auto simp: insert_absorb)
  next
    case False
    then obtain body s2 where m: "runMigration sql name body True s1 = (None, s2)" "migrate_loop sql FS names s2 = (None, t)"
      using Cons.prems(1) e b by (auto split: sum.splits prod.splits option.splits)
    from runMigration_None [OF m(1)] v1 have "md_versions s2 = Some (vs @ [name])" by auto
    from Cons.IH [OF m(2) this] show ?thesis by auto
  qed
qed auto

lemma Migrate_records:
  assumes "Migrate sql FS s = (None, t)"
  shows "\<exists>vs. md_versions t = Some vs \<and> set (upMigrations FS) \<subseteq> set vs"
proof -
  obtain s1 where e: "ensureMigrationsTable s = (None, s1)" and l: "migrate_loop sql FS (upMigrations FS) s1 = (None, t)"
    using assms by (auto simp: Migrate_def split: prod.splits option.splits)
  obtain vs where "md_versions s1 = Some vs"
  proof -
    obtain x where "mig_exec (\<lambda>t. (Inr (), t\<lparr>md_versions := Some (case md_versions t of None \<Rightarrow> [] | Some vs \<Rightarrow> vs)\<rparr>)) s = (Inr x, s1)"
      using e unfolding ensureMigrationsTable_def by (auto split: prod.splits sum.splits)
    from mig_exec_Inr [OF this] that show thesis by auto
  qed
  from migrate_loop_records [OF l this] show ?thesis by auto
qed

end
