(* ===== verification/Commands_Properties.thy ===== *)
theory Commands_Properties
  imports Commands Migrate_Properties
begin

text \<open>Properties of the processes: the order in which they come up, and their exit codes.\<close>

definition idle_host :: host where
  "idle_host = \<lparr>ho_env = \<lparr>os_Getenv = (\<lambda>_. []), os_Hostname = Some ''host'', os_TempDir = ''/tmp'',
       parse_float = (\<lambda>_. None), parse_duration = (\<lambda>_. None)\<rparr>,
     ho_pool = (\<lambda>_. None), ho_ping = (\<lambda>_. None), ho_redis_url = (\<lambda>_. None), ho_docker = None, ho_docker_ping = None,
     ho_file = (\<lambda>_. Inl ''no file''), ho_listen = (\<lambda>_. None), ho_shutdown = None\<rparr>"

definition no_keys :: "unit key_codecs" where
  "no_keys = \<lparr>kc_pem = (\<lambda>_. None), kc_pkcs1 = (\<lambda>_. Inl ''no key''), kc_pkcs8 = (\<lambda>_. Inl ''no key'')\<rparr>"

text \<open>The API serves only on a complete schema. If it ever listens, it was not asked to roll back, every
  forward migration is recorded, the schema is what the recorded files make of an empty database, each
  run once, and the GitHub client is the one its configuration selects. If it then ends with exit
  code 0, it has drained its requests and closed the queue and, last, the database.\<close>

theorem api_serves_migrated:
  assumes "distinct vs" and "build_up sql FS vs d0 = Some (md_schema s)"
    and "vs = (case md_versions s of None \<Rightarrow> [] | Some vs \<Rightarrow> vs)"
    and "api_main sql FS K H rollback s = (code, evs, t)" and "Serving addr mode \<in> set evs"
  shows "rollback \<le> 0
    \<and> (\<exists>ws. md_versions t = Some ws \<and> set (upMigrations FS) \<subseteq> set ws \<and> distinct ws
         \<and> build_up sql FS ws d0 = Some (md_schema t))
    \<and> Configure (ho_file H) K (github_options (Load (ho_env H))) = Inr mode
    \<and> hd evs = StoreOpened
    \<and> (code = 0 \<longrightarrow> evs = [StoreOpened, QueueOpened, Serving addr mode, Drained, QueueClosed, StoreClosed])"
proof -
  from assms(4,5) obtain more where m: "\<not> 0 < rollback" "Migrate sql FS s = (None, t)"
    "serve_api K H (Load (ho_env H)) = (code, more)" "evs = StoreOpened # more"
    by (auto simp: api_main_def Let_def split: if_splits prod.splits option.splits)
  from m(3,4) assms(5) have c: "Configure (ho_file H) K (github_options (Load (ho_env H))) = Inr mode"
    "code = 0 \<longrightarrow> evs = [StoreOpened, QueueOpened, Serving addr mode, Drained, QueueClosed, StoreClosed]"
    by (auto simp: serve_api_def Let_def split: option.splits sum.splits if_splits)
  obtain ws where ws: "md_versions t = Some ws" "set (upMigrations FS) \<subseteq> set ws" using Migrate_records [OF m(2)] by blast
  have "agrees sql FS d0 t" using Migrate_agrees [of sql FS d0 s] assms(1-3) m(2) by (simp add: agrees_def)
  then have "distinct ws" "build_up sql FS ws d0 = Some (md_schema t)" using ws(1) by (simp_all add: agrees_def)
  with ws c m(1,4) show ?thesis by auto
qed

theorem api_serves_migrated_witness:
  "\<exists>evs t. api_main log_sql two_files no_keys idle_host 0 (fresh_db []) = (0, evs, t)
    \<and> Serving '':8080'' Disabled \<in> set evs \<and> last evs = StoreClosed
    \<and> build_up log_sql two_files (the (md_versions t)) [] = Some (md_schema t)"
proof -
  let ?m = "api_main log_sql two_files no_keys idle_host 0 (fresh_db [])"
  have c: "fst ?m = 0" "list_ex (\<lambda>e. e = Serving '':8080'' Disabled) (fst (snd ?m))" by code_simp+
  obtain evs t where m: "?m = (0, evs, t)" using c(1) by (metis fst_conv prod.exhaust)
  with c(2) have s: "Serving '':8080'' Disabled \<in> set evs" by (auto simp: list_ex_iff)
  from api_serves_migrated [OF _ _ _ m s, of "[]" "[]"] m s show ?thesis by (auto simp: fresh_db_def)
qed

text \<open>A port that is taken goes unnoticed: the process ends with exit code 0.\<close>

lemma unbound_api_exits_zero:
  "fst (api_main log_sql two_files no_keys (idle_host\<lparr>ho_listen := \<lambda>_. Some ''address already in use''\<rparr>) 0 (fresh_db [])) = 0"
  by code_simp

text \<open>A heartbeat timeout that is not positive passes \<open>Validate\<close> and makes the scheduler panic.\<close>

lemma scheduler_panics_without_timeout:
  fixes w :: "'q world"
  assumes "ho_env H = E" "parse_duration E (os_Getenv E ''HEARTBEAT_TIMEOUT'') = Some d" "d \<le> 0"
    and "New H (c_DatabaseURL (Load E)) = None" "NewRedis H (c_RedisURL (Load E)) = None"
  shows "fst (scheduler_main turns Q H w) = 2"
proof -
  have "c_HeartbeatTimeout (Load E) = d" using assms(2) by (simp add: Load_def envDuration_def)
  moreover have "half d \<le> 0" using assms(3) by (auto simp: half_def intro: pos_imp_zdiv_nonneg_iff [THEN iffD2])
  moreover have "Validate (Load E) = None" by (simp add: Validate_def Load_def env_nonempty)
  ultimately show ?thesis using assms(1,4,5) by (simp add: scheduler_main_def Let_def)
qed

end
