(* ===== verification/Protocol.thy ===== *)
theory Protocol
  imports Agent_Behaviour Api_Behaviour Store_Behaviour
begin

text \<open>
  The two ends of the runner protocol together: how a request of the agent arrives at the control plane.
  \<open>wire_request\<close> is the request \<^verbatim>\<open>net/http\<close> hands to the mux; \<open>enc\<close> is \<^verbatim>\<open>json.Marshal\<close>, \<open>base\<close> holds the random
  values drawn while the request is served. A log chunk travels as it is.
\<close>

definition wire_request :: "(agent_body \<Rightarrow> string) \<Rightarrow> request \<Rightarrow> agent_request \<Rightarrow> request" where
  "wire_request enc base rq = base\<lparr>
     rq_header := (\<lambda>h. case map_of (aq_headers rq) h of None \<Rightarrow> [] | Some v \<Rightarrow> v), rq_limit := [],
     rq_body := (case aq_body rq of AgNone \<Rightarrow> [] | AgChunk c \<Rightarrow> c | b \<Rightarrow> enc b)\<rparr>"

definition arrive :: "(agent_body \<Rightarrow> string) \<Rightarrow> request \<Rightarrow> string \<Rightarrow> ('q, 'g) server \<Rightarrow> agent_request \<Rightarrow> ('q, 'g) api_world \<Rightarrow>
    response \<times> ('q, 'g) api_world" where
  "arrive enc base url srv rq w =
     Routes (aq_method rq) (TrimPrefix (aq_url rq) url) srv (wire_request enc base rq) w"

definition arrive_all :: "(agent_body \<Rightarrow> string) \<Rightarrow> request \<Rightarrow> string \<Rightarrow> ('q, 'g) server \<Rightarrow> agent_request list \<Rightarrow> ('q, 'g) api_world \<Rightarrow>
    ('q, 'g) api_world" where
  "arrive_all enc base url srv rqs w = fold (\<lambda>rq w. snd (arrive enc base url srv rq w)) rqs w"

section \<open>Decimal numbers\<close>

lemma digits_value_append:
  "digits_value acc (xs @ ys) = Option.bind (digits_value acc xs) (\<lambda>a. digits_value a ys)"
  by (induction xs arbitrary: acc) (auto split: option.splits)

lemma digit_value_char: "n < 10 \<Longrightarrow> digit_value (char_of (48 + n)) = Some (int n)"
  by (simp add: digit_value_def Let_def)

lemma digits_value_nat: "digits_value 0 (nat_digits n) = Some (int n)"
proof (induction n rule: nat_digits.induct)
  case (1 n)
  show ?case
  proof (cases "n < 10")
    case True
    then show ?thesis by (simp add: nat_digits.simps [of n] digit_value_char)
  next
    case False
    have "int (n div 10) * 10 + int (n mod 10) = int n" by presburger
    with False 1 show ?thesis
      by (simp add: nat_digits.simps [of n] digits_value_append digit_value_char del: of_nat_mod of_nat_div)
  qed
qed

lemma nat_digits_hd: "\<exists>d ds. nat_digits n = d # ds \<and> 48 \<le> (of_char d :: nat)"
proof (induction n rule: nat_digits.induct)
  case (1 n)
  then show ?case by (cases "n < 10") (auto simp: nat_digits.simps [of n])
qed

lemma Atoi_Itoa: "0 \<le> n \<Longrightarrow> n < 2 ^ 63 \<Longrightarrow> Atoi (Itoa n) = Some n"
proof -
  assume n: "0 \<le> n" "n < 2 ^ 63"
  obtain d ds where d: "nat_digits (nat n) = d # ds" "48 \<le> (of_char d :: nat)" using nat_digits_hd by blast
  then have "d \<noteq> CHR ''-''" "d \<noteq> CHR ''+''" by auto
  moreover have "digits_value 0 (d # ds) = Some n" using digits_value_nat [of "nat n"] d(1) n(1) by simp
  ultimately show ?thesis using n d(1) by (simp add: Atoi_def Itoa_def in_int64_def Let_def del: digits_value.simps)
qed

section \<open>Routing\<close>

lemma split_on_append: "split_on c (xs @ c # ys) = split_on c xs @ split_on c ys"
  by (induction xs) (auto split: list.splits)

lemma split_on_single: "c \<notin> set xs \<Longrightarrow> split_on c xs = [xs]"
  by (induction xs) auto

definition segment :: "string \<Rightarrow> bool" where
  "segment i \<longleftrightarrow> i \<noteq> [] \<and> CHR ''/'' \<notin> set i"

lemma job_path_split:
  assumes "segment i"
  shows "split_on CHR ''/'' (''/api/v1/jobs/'' @ i @ ''/logs'') = [[], ''api'', ''v1'', ''jobs'', i, ''logs'']"
    and "split_on CHR ''/'' (''/api/v1/jobs/'' @ i @ ''/start'') = [[], ''api'', ''v1'', ''jobs'', i, ''start'']"
    and "split_on CHR ''/'' (''/api/v1/jobs/'' @ i @ ''/result'') = [[], ''api'', ''v1'', ''jobs'', i, ''result'']"
proof -
  have s: "split_on CHR ''/'' (''/api/v1/jobs/'' @ i @ ''/'' @ t) = [[], ''api'', ''v1'', ''jobs'', i] @ split_on CHR ''/'' t" for t
    using split_on_append [of "CHR ''/''" "''/api/v1/jobs'' " "i @ CHR ''/'' # t"] split_on_append [of "CHR ''/''" i t]
      split_on_single [of "CHR ''/''" i] assms
    by (simp add: segment_def)
  show "split_on CHR ''/'' (''/api/v1/jobs/'' @ i @ ''/logs'') = [[], ''api'', ''v1'', ''jobs'', i, ''logs'']"
    using s [of "''logs''"] by simp
  show "split_on CHR ''/'' (''/api/v1/jobs/'' @ i @ ''/start'') = [[], ''api'', ''v1'', ''jobs'', i, ''start'']"
    using s [of "''start''"] by simp
  show "split_on CHR ''/'' (''/api/v1/jobs/'' @ i @ ''/result'') = [[], ''api'', ''v1'', ''jobs'', i, ''result'']"
    using s [of "''result''"] by simp
qed

lemma Routes_at:
  assumes "matching path = hits" "pick meth hits = Some (m, pat, h)" "path_id pat path = Some i"
  shows "Routes meth path srv rq w = withRequestID (\<lambda>srv rq w. h srv (rq\<lparr>rq_id := i\<rparr>) w) srv rq w"
  using assms by (simp add: Routes_def withRequestID_def mux_def Let_def)

lemma Routes_start:
  fixes srv :: "('q, 'g) server"
  assumes "segment i"
  shows "Routes ''POST'' (''/api/v1/jobs/'' @ i @ ''/start'') srv rq w =
    withRequestID (\<lambda>srv rq w. withRunnerAuth handleJobStart srv (rq\<lparr>rq_id := i\<rparr>) w) srv rq w"
proof (rule Routes_at)
  show "(matching (''/api/v1/jobs/'' @ i @ ''/start'') :: (string \<times> string \<times> ('q, 'g) handler) list) =
      [(''POST'', ''/api/v1/jobs/{id}/start'', withRunnerAuth handleJobStart)]"
    unfolding matching_def path_id_def job_path_split(2) [OF assms] route_table_def
    using assms by (simp add: segment_def)
  show "path_id ''/api/v1/jobs/{id}/start'' (''/api/v1/jobs/'' @ i @ ''/start'') = Some i"
    unfolding path_id_def job_path_split(2) [OF assms] using assms by (simp add: segment_def)
qed (simp add: pick_def)

lemma Routes_result:
  fixes srv :: "('q, 'g) server"
  assumes "segment i"
  shows "Routes ''POST'' (''/api/v1/jobs/'' @ i @ ''/result'') srv rq w =
    withRequestID (\<lambda>srv rq w. withRunnerAuth handleJobResult srv (rq\<lparr>rq_id := i\<rparr>) w) srv rq w"
proof (rule Routes_at)
  show "(matching (''/api/v1/jobs/'' @ i @ ''/result'') :: (string \<times> string \<times> ('q, 'g) handler) list) =
      [(''POST'', ''/api/v1/jobs/{id}/result'', withRunnerAuth handleJobResult)]"
    unfolding matching_def path_id_def job_path_split(3) [OF assms] route_table_def
    using assms by (simp add: segment_def)
  show "path_id ''/api/v1/jobs/{id}/result'' (''/api/v1/jobs/'' @ i @ ''/result'') = Some i"
    unfolding path_id_def job_path_split(3) [OF assms] using assms by (simp add: segment_def)
qed (simp add: pick_def)

lemma Routes_logs:
  fixes srv :: "('q, 'g) server"
  assumes "segment i"
  shows "Routes ''POST'' (''/api/v1/jobs/'' @ i @ ''/logs'') srv rq w =
    withRequestID (\<lambda>srv rq w. withRunnerAuth handleJobLogs srv (rq\<lparr>rq_id := i\<rparr>) w) srv rq w"
proof (rule Routes_at)
  show "(matching (''/api/v1/jobs/'' @ i @ ''/logs'') :: (string \<times> string \<times> ('q, 'g) handler) list) =
      [(''POST'', ''/api/v1/jobs/{id}/logs'', withRunnerAuth handleJobLogs),
      (''GET'', ''/api/v1/jobs/{id}/logs'', handleGetJobLogs)]"
    unfolding matching_def path_id_def job_path_split(1) [OF assms] route_table_def
    using assms by (simp add: segment_def)
  show "path_id ''/api/v1/jobs/{id}/logs'' (''/api/v1/jobs/'' @ i @ ''/logs'') = Some i"
    unfolding path_id_def job_path_split(1) [OF assms] using assms by (simp add: segment_def)
qed (simp add: pick_def)

section \<open>A log chunk arrives\<close>

definition lease_ok :: "('q, 'g) server \<Rightarrow> agent \<Rightarrow> Job \<Rightarrow> db \<Rightarrow> bool" where
  "lease_ok srv a job s \<longleftrightarrow> segment (j_id job) \<and> ag_id a \<noteq> [] \<and> ag_token a \<noteq> [] \<and> store_inv s \<and> db_script s = []
     \<and> (\<exists>x. runner_at s (ag_id a) = Some x \<and> r_token_hash x = hashToken srv (ag_token a))
     \<and> (\<exists>r. job_at s (j_id job) = Some r \<and> j_runner_id r = Some (ag_id a))"

lemma auth_healthy:
  assumes "lease_ok srv a job (w_db w)" "auth_id rq = ag_id a" "auth_token rq = ag_token a"
  shows "withRunnerAuth h srv rq w = h srv rq w"
  using assms
  by (auto simp: withRunnerAuth_def lease_ok_def on_db_eq RunnerTokenHash_def runner_at_def select_def Let_def)

lemma owns_healthy:
  assumes "lease_ok srv a job (w_db w)" "rq_header rq ''X-Runner-ID'' = ag_id a"
  shows "runnerOwnsJob rq (j_id job) w = (True, w)"
  using assms by (auto simp: runnerOwnsJob_def lease_ok_def on_db_eq job_at_def scanJob_def)

lemma wire_chunk [simp]:
  "aq_method (chunk_request a job q c) = ''POST''"
  "TrimPrefix (aq_url (chunk_request a job q c)) (c_ServerURL (ag_cfg a)) = ''/api/v1/jobs/'' @ j_id job @ ''/logs''"
  "rq_header (wire_request enc base (chunk_request a job q c)) ''X-Runner-ID'' = ag_id a"
  "rq_header (wire_request enc base (chunk_request a job q c)) ''Authorization'' = ''Bearer '' @ ag_token a"
  "rq_header (wire_request enc base (chunk_request a job q c)) ''X-Log-Seq'' = Itoa q"
  "rq_body (wire_request enc base (chunk_request a job q c)) = c"
  by (simp_all add: chunk_request_def wire_request_def del: append_Cons)

lemma chunk_arrives:
  assumes "lease_ok srv a job (w_db w)" "0 < q" "q < 2 ^ 31"
  shows "\<exists>rs. arrive enc base (c_ServerURL (ag_cfg a)) srv (chunk_request a job q c) w =
    (if length c \<le> 2 ^ 20
     then (rs, w\<lparr>w_db := snd (AppendLogs (j_id job) q c (w_db w))\<rparr>)
     else (rs, w)) \<and> rs_code rs = (if length c \<le> 2 ^ 20 then (if pg_text c then 202 else 500) else 413)"
proof -
  let ?rq = "(wire_request enc base (chunk_request a job q c))\<lparr>rq_id := j_id job\<rparr>"
  have h: "rq_header ?rq ''X-Runner-ID'' = ag_id a" "rq_header ?rq ''X-Log-Seq'' = Itoa q" "rq_body ?rq = c"
    "rq_id ?rq = j_id job" "rq_header ?rq ''Authorization'' = ''Bearer '' @ ag_token a" by simp_all
  have seg: "segment (j_id job)" and ids: "ag_id a \<noteq> []" using assms(1) by (auto simp: lease_ok_def)
  have auth: "auth_id ?rq = ag_id a" "auth_token ?rq = ag_token a"
    unfolding auth_id_def auth_token_def h(1,5) using ids by (simp_all only: if_False TrimPrefix_append)
  obtain r where r: "job_at (w_db w) (j_id job) = Some r" "db_script (w_db w) = []" "store_inv (w_db w)"
    using assms(1) by (auto simp: lease_ok_def)
  have d: "distinct (map j_id (jobs (w_db w)))" using r(3) by (simp add: store_inv_def)
  have ap: "fst (AppendLogs (j_id job) q c (w_db w)) = (case arg_error q c of None \<Rightarrow> Inr () | Some e \<Rightarrow> Inl (ErrPg e))"
    using AppendLogs_healthy [OF r(2) d, of "j_id job" q c] r(1) by (simp add: job_at_def split: option.splits)
  have arg: "(arg_error q c = None) = pg_text c" using assms(2,3) by (simp add: arg_error_def fits_int4_def)
  have "handleJobLogs srv ?rq w = (if length c \<le> 2 ^ 20
      then ((if pg_text c then respond 202 Empty else writeError 500 ''cannot append logs''), w\<lparr>w_db := snd (AppendLogs (j_id job) q c (w_db w))\<rparr>)
      else (writeError 413 ''log chunk too large'', w))"
    unfolding handleJobLogs_def h owns_healthy [OF assms(1) h(1)]
    using assms(2,3) ap Atoi_Itoa [of q] arg
    by (cases "arg_error q c") (simp_all add: ReadAll_limited_def on_db_eq split: sum.splits)
  then have "arrive enc base (c_ServerURL (ag_cfg a)) srv (chunk_request a job q c) w =
      (let (rs, w') = (if length c \<le> 2 ^ 20
          then ((if pg_text c then respond 202 Empty else writeError 500 ''cannot append logs''), w\<lparr>w_db := snd (AppendLogs (j_id job) q c (w_db w))\<rparr>)
          else (writeError 413 ''log chunk too large'', w))
       in (rs\<lparr>rs_request_id := (if rq_header (wire_request enc base (chunk_request a job q c)) ''X-Request-ID'' = [] then rq_request_uuid (wire_request enc base (chunk_request a job q c))
          else rq_header (wire_request enc base (chunk_request a job q c)) ''X-Request-ID'')\<rparr>, w'))"
    unfolding arrive_def wire_chunk Routes_logs [OF seg] withRequestID_def auth_healthy [OF assms(1) auth]
    by (simp add: Let_def split: prod.splits)
  then show ?thesis by (auto simp: Let_def writeError_def writeJSON_def respond_def)
qed

lemma unstorable_chunk:
  assumes "lease_ok srv a job (w_db w)" "0 < q" "q < 2 ^ 31" "2 ^ 20 < length c \<or> \<not> pg_text c"
  shows "rs_code (fst (arrive enc base (c_ServerURL (ag_cfg a)) srv (chunk_request a job q c) w))
      = (if 2 ^ 20 < length c then 413 else 500)"
    and "snd (arrive enc base (c_ServerURL (ag_cfg a)) srv (chunk_request a job q c) w) = w"
proof -
  have d: "db_script (w_db w) = []" "distinct (map j_id (jobs (w_db w)))"
    using assms(1) by (auto simp: lease_ok_def store_inv_def)
  have "w\<lparr>w_db := snd (AppendLogs (j_id job) q c (w_db w))\<rparr> = w" if "\<not> pg_text c"
    using that AppendLogs_healthy [OF d, of "j_id job" q c] by (simp add: arg_error_def)
  with chunk_arrives [OF assms(1-3), of enc base c] assms(4)
  show "rs_code (fst (arrive enc base (c_ServerURL (ag_cfg a)) srv (chunk_request a job q c) w))
      = (if 2 ^ 20 < length c then 413 else 500)"
    "snd (arrive enc base (c_ServerURL (ag_cfg a)) srv (chunk_request a job q c) w) = w"
    by (auto split: if_splits)
qed

text \<open>The lease survives a chunk, so a whole stream arrives as the store's \<open>deliver\<close>.\<close>

lemma lease_ok_append:
  assumes "lease_ok srv a job s"
  shows "lease_ok srv a job (snd (AppendLogs (j_id job) q c s))"
proof -
  obtain r where r: "job_at s (j_id job) = Some r" "j_runner_id r = Some (ag_id a)" "db_script s = []" "store_inv s"
    using assms by (auto simp: lease_ok_def)
  have d: "distinct (map j_id (jobs s))" using r(4) by (simp add: store_inv_def)
  have eq: "snd (AppendLogs (j_id job) q c s) = s\<lparr>jobs := sql_update (\<lambda>r. arg_error q c = None \<and> j_id r = j_id job \<and> q > j_log_seq r)
      (\<lambda>r. r\<lparr>j_logs := j_logs r @ c, j_log_seq := q\<rparr>) (jobs s)\<rparr>"
    using AppendLogs_healthy [OF r(3) d, of "j_id job" q c] r(1)
    by (cases "arg_error q c") (simp_all add: job_at_def sql_update_no_match rows_matching_0)
  have "store_inv (snd (AppendLogs (j_id job) q c s))"
    using store_inv.steps [OF AppendLogs_steps r(4)] .
  moreover have "\<exists>r'. job_at (snd (AppendLogs (j_id job) q c s)) (j_id job) = Some r' \<and> j_runner_id r' = Some (ag_id a)"
    using r(1,2) unfolding eq by (auto simp: job_at_def row_at_sql_update)
  moreover have "runner_at (snd (AppendLogs (j_id job) q c s)) = runner_at s" unfolding eq by (simp add: runner_at_def)
  moreover have "db_script (snd (AppendLogs (j_id job) q c s)) = []" unfolding eq using r(3) by simp
  ultimately show ?thesis using assms by (auto simp: lease_ok_def)
qed

lemma chunks_arrive:
  assumes "lease_ok srv a job (w_db w)" "list_all (\<lambda>(q, c). 0 < q \<and> q < 2 ^ 31) cs"
  shows "arrive_all enc base (c_ServerURL (ag_cfg a)) srv (map (\<lambda>(q, c). chunk_request a job q c) cs) w
    = w\<lparr>w_db := deliver (j_id job) (filter (\<lambda>(q, c). length c \<le> 2 ^ 20) cs) (w_db w)\<rparr>"
  using assms
proof (induction cs arbitrary: w)
  case (Cons x cs)
  obtain q c where x: "x = (q, c)" by force
  have q: "0 < q" "q < 2 ^ 31" using Cons.prems(2) x by auto
  let ?w = "snd (arrive enc base (c_ServerURL (ag_cfg a)) srv (chunk_request a job q c) w)"
  have db: "?w = w\<lparr>w_db := if length c \<le> 2 ^ 20 then snd (AppendLogs (j_id job) q c (w_db w)) else w_db w\<rparr>"
    using chunk_arrives [OF Cons.prems(1) q, of enc base c] by auto
  have "lease_ok srv a job (w_db ?w)"
    unfolding db using lease_ok_append [OF Cons.prems(1)] Cons.prems(1) by simp
  from Cons.IH [OF this] Cons.prems(2) show ?case
    by (simp add: x arrive_all_def db)
qed (simp add: arrive_all_def)

lemma accepted_numbered:
  "map fst cs = map int [Suc m..<Suc m + length cs] \<Longrightarrow> list_all (\<lambda>(q, c). arg_error q c = None) cs \<Longrightarrow>
   accepted (int m) cs = concat (map snd cs)"
proof (induction cs arbitrary: m)
  case (Cons x cs)
  have "[Suc m..<Suc m + length (x # cs)] = Suc m # [Suc (Suc m)..<Suc (Suc m) + length cs]"
    by (simp add: upt_conv_Cons del: upt_Suc)
  with Cons.prems(1) have "fst x = int (Suc m)" "map fst cs = map int [Suc (Suc m)..<Suc (Suc m) + length cs]"
    by (simp_all only: list.map list.inject)
  with Cons.IH [of "Suc m"] Cons.prems(2) show ?case by (cases x) (simp del: upt_Suc)
qed simp

lemma numbered_args:
  "list_all (\<lambda>(q, c). 0 < q \<and> q < 2 ^ 31) cs \<Longrightarrow> list_all (\<lambda>(q, c). length c \<le> 2 ^ 20 \<and> pg_text c) cs \<Longrightarrow>
   list_all (\<lambda>(q, c). arg_error q c = None) cs"
  by (auto simp: list_all_iff arg_error_def fits_int4_def)

lemma numbered_bounds:
  assumes "numbered cs" "length cs < 2 ^ 31"
  shows "list_all (\<lambda>(q, c). 0 < q \<and> q < 2 ^ 31) cs"
proof -
  have "fst x \<in> int ` {1..<Suc (length cs)}" if "x \<in> set cs" for x
    using assms(1) that unfolding numbered_def by (metis atLeastLessThan_upt image_eqI set_map)
  with assms(2) show ?thesis by (fastforce simp: list_all_iff)
qed

end
