(* ===== verification/Protocol_Properties.thy ===== *)
theory Protocol_Properties
  imports Protocol Runner_Properties Api_Properties
begin

text \<open>
  Properties of the runner and the control plane together: what becomes of the output of a build, and of
  a job whose start request failed.
\<close>

section \<open>From the container to the job's log\<close>

definition requests_of :: "act list \<Rightarrow> agent_request list" where
  "requests_of tr = concat (map (\<lambda>x. case x of Http rq \<Rightarrow> [rq] | _ \<Rightarrow> []) tr)"

lemma requests_of_chunks [simp]: "requests_of (chunk_acts a job cs) = map (\<lambda>(q, c). chunk_request a job q c) cs"
  by (induction cs) (auto simp: requests_of_def chunk_acts_def)

definition storable_chunk :: "agent_request \<Rightarrow> bool" where
  "storable_chunk rq = (case aq_body rq of AgChunk c \<Rightarrow> length c \<le> 2 ^ 20 \<and> pg_text c | _ \<Rightarrow> True)"

lemma storable_chunks:
  "list_all storable_chunk (map (\<lambda>(q, c). chunk_request a job q c) cs)
   \<longleftrightarrow> list_all (\<lambda>(q, c). length c \<le> 2 ^ 20 \<and> pg_text c) cs"
  by (induction cs) (auto simp: storable_chunk_def chunk_request_def)

text \<open>End to end, the output of a build reaches the log of its job. An agent that holds the lease of a
  job executes it, and its log chunks arrive at the control plane in the order sent; the job has no
  log yet, the database answers and every chunk can be stored: it is at most 1 MiB of UTF-8 text. Then the stored log is
  the old text followed by what the agent shipped, and the whole output of the container stands in it
  in one piece.\<close>

theorem build_output_reaches_log:
  fixes srv :: "('q, 'g) server" and w :: "('q, 'g) api_world"
  assumes "reachable_urls E" "names_kept E" "8 \<le> length (j_commit_sha job)"
    and "execute (observed E) a job token (n, []) = (panicked, a', (n', tr))"
    and "lease_ok srv a job (w_db w)" "job_at (w_db w) (j_id job) = Some r" "j_log_seq r = 0"
    and "list_all storable_chunk (requests_of (filter is_chunk tr))" "length (filter is_chunk tr) < 2 ^ 31"
  shows "\<exists>shipped. map_option j_logs (job_at (w_db (arrive_all enc base (c_ServerURL (ag_cfg a)) srv
        (requests_of (filter is_chunk tr)) w)) (j_id job)) = Some (j_logs r @ shipped)
    \<and> (\<forall>rq ans. Executed rq ans \<in> set tr \<longrightarrow> (\<exists>before after. shipped = before @ concat (fst ans) @ after))"
proof -
  from execute_chunks [OF assms(1-4)] obtain cs where cs: "filter is_chunk tr = chunk_acts a job cs" "numbered cs"
    "\<forall>rq ans. Executed rq ans \<in> set tr \<longrightarrow> (\<exists>before after. concat (map snd cs) = before @ concat (fst ans) @ after)"
    by blast
  have fine: "list_all (\<lambda>(q, c). length c \<le> 2 ^ 20 \<and> pg_text c) cs"
    using assms(8) unfolding cs(1) requests_of_chunks storable_chunks .
  then have small: "filter (\<lambda>(q, c). length c \<le> 2 ^ 20) cs = cs"
    by (auto simp: list_all_iff filter_id_conv)
  have "length cs < 2 ^ 31" using assms(9) unfolding cs(1) by (simp add: chunk_acts_def)
  note bounds = numbered_bounds [OF cs(2) this]
  have db: "db_script (w_db w) = []" "distinct (map j_id (jobs (w_db w)))"
    using assms(5) by (auto simp: lease_ok_def store_inv_def)
  have "map fst cs = map int [Suc 0..<Suc 0 + length cs]" using cs(2) by (simp add: numbered_def del: upt_Suc)
  from accepted_numbered [OF this] numbered_args [OF bounds] fine have "accepted (j_log_seq r) cs = concat (map snd cs)" using assms(7) by simp
  with deliver_logs [OF db, of "j_id job" r cs] assms(6)
    chunks_arrive [OF assms(5) bounds, of enc base, unfolded small]
  show ?thesis using cs(3) unfolding cs(1) requests_of_chunks by (auto simp: job_at_def)
qed

text \<open>The agent of the witness is the runner of the sample database.\<close>

definition lease_agent :: agent where
  "lease_agent = demo_agent\<lparr>ag_id := ''x'', ag_token := ''key''\<rparr>"

lemma lease_agent_ok: "lease_ok sample_server lease_agent demo_job (w_db (sample_state busy_pool [] []))"
proof -
  have "hashToken sample_server ''key'' = ''6b6579''" by code_simp
  then show ?thesis
    using busy_pool_inv
    by (simp add: lease_ok_def lease_agent_def demo_agent_def segment_def demo_job_def) (simp add: busy_pool_eq)
qed

lemma demo_chunks:
  "list_all (\<lambda>rq. case aq_body rq of AgChunk c \<Rightarrow> length c < 200 \<and> pg_text c | _ \<Rightarrow> True)
     (requests_of (filter is_chunk (snd (snd (snd (execute (observed demo) lease_agent demo_job [] ((), [])))))))"
  "length (filter is_chunk (snd (snd (snd (execute (observed demo) lease_agent demo_job [] ((), [])))))) < 50"
  "list_ex (\<lambda>x. case x of Executed _ ans \<Rightarrow> concat (fst ans) = ''hello'' | _ \<Rightarrow> False)
     (snd (snd (snd (execute (observed demo) lease_agent demo_job [] ((), [])))))"
  by code_simp+

theorem build_output_reaches_log_witness:
  "\<exists>panicked a' n' tr before after. execute (observed demo) lease_agent demo_job [] ((), []) = (panicked, a', (n', tr))
    \<and> map_option j_logs (job_at (w_db (arrive_all (\<lambda>_. []) (sample_request [] [] [] []) (c_ServerURL (ag_cfg lease_agent))
        sample_server (requests_of (filter is_chunk tr)) (sample_state busy_pool [] []))) ''a'')
      = Some (before @ ''hello'' @ after)"
proof -
  obtain panicked a' n' tr where x: "execute (observed demo) lease_agent demo_job [] ((), []) = (panicked, a', (n', tr))"
    by (metis prod.exhaust)
  note c = demo_chunks [unfolded x snd_conv]
  have small: "list_all storable_chunk (requests_of (filter is_chunk tr))"
    using c(1) by (auto simp: list_all_iff storable_chunk_def split: agent_body.splits)
  have few: "length (filter is_chunk tr) < 2 ^ 31" using c(2) by simp
  obtain y where y: "y \<in> set tr" "case y of Executed _ ans \<Rightarrow> concat (fst ans) = ''hello'' | _ \<Rightarrow> False"
    using c(3) unfolding list_ex_iff by blast
  then obtain rq ans where e: "Executed rq ans \<in> set tr" "concat (fst ans) = ''hello''"
    by (cases y rule: act.exhaust) auto
  have r: "job_at (w_db (sample_state busy_pool [] [])) (j_id demo_job) = Some (hd (jobs busy_pool))"
    "j_log_seq (hd (jobs busy_pool)) = 0" by (simp_all add: demo_job_def)
  from build_output_reaches_log [OF demo_ok x lease_agent_ok r small few, of "\<lambda>_. []" "sample_request [] [] [] []"] e x
  show ?thesis by (fastforce simp: demo_job_def)
qed

text \<open>A chunk that cannot be stored is lost for good. The log stream sends its whole buffer as one chunk,
  whatever its size and its bytes. The control plane refuses a body over 1 MiB with 413, and one that is
  no UTF-8 text (a byte 0, a character cut in two by the end of the chunk) fails in the database and is
  answered with 500; nothing is stored. The agent does not send the text again, and the next
  chunk is accepted, so the gap does not show.\<close>

theorem unstorable_chunk_lost:
  fixes srv :: "('q, 'g) server" and w :: "('q, 'g) api_world"
  assumes "lease_ok srv a job (w_db w)" "job_at (w_db w) (j_id job) = Some r" "j_log_seq r < q"
    and "0 < q" "q + 1 < 2 ^ 31" "2 ^ 20 < length c \<or> \<not> pg_text c" "length d \<le> 2 ^ 20" "pg_text d"
  shows "rs_code (fst (arrive enc base (c_ServerURL (ag_cfg a)) srv (chunk_request a job q c) w)) = (if 2 ^ 20 < length c then 413 else 500)
    \<and> snd (arrive enc base (c_ServerURL (ag_cfg a)) srv (chunk_request a job q c) w) = w
    \<and> map_option j_logs (job_at (w_db (arrive_all enc base (c_ServerURL (ag_cfg a)) srv
        [chunk_request a job q c, chunk_request a job (q + 1) d] w)) (j_id job)) = Some (j_logs r @ d)"
proof -
  have "q < 2 ^ 31" using assms(5) by simp
  note refused = unstorable_chunk [OF assms(1,4) this assms(6), of enc base]
  have args: "arg_error (q + 1) d = None" using assms(4,5,8) by (simp add: arg_error_def fits_int4_def)
  have db: "db_script (w_db w) = []" "distinct (map j_id (jobs (w_db w)))"
    using assms(1) by (auto simp: lease_ok_def store_inv_def)
  from chunks_arrive [OF assms(1), of "[(q + 1, d)]" enc base] assms(3-7) refused(2)
    deliver_logs [OF db, of "j_id job" r "[(q + 1, d)]"] assms(2) args
  have "map_option j_logs (job_at (w_db (arrive_all enc base (c_ServerURL (ag_cfg a)) srv
      [chunk_request a job q c, chunk_request a job (q + 1) d] w)) (j_id job)) = Some (j_logs r @ d)"
    by (simp add: job_at_def arrive_all_def)
  with refused show ?thesis by blast
qed

theorem unstorable_chunk_lost_witness:
  "map_option j_logs (job_at (w_db (arrive_all (\<lambda>_. []) (sample_request [] [] [] []) (c_ServerURL (ag_cfg lease_agent))
     sample_server [chunk_request lease_agent demo_job 1 (replicate (2 ^ 20 + 1) CHR ''z''),
       chunk_request lease_agent demo_job 2 ''end''] (sample_state busy_pool [] []))) ''a'') = Some ''end''"
  using unstorable_chunk_lost [OF lease_agent_ok, of "hd (jobs busy_pool)" 1 "replicate (2 ^ 20 + 1) CHR ''z''" "''end''"
      "\<lambda>_. []" "sample_request [] [] [] []"]
  by (simp add: demo_job_def)

text \<open>A character on the border of two chunks costs both of them. The output is UTF-8 text, but the log
  stream cuts it wherever its buffer ends; when the cut falls inside a character, neither part is
  text, both requests are answered with 500, and nothing of the two chunks is stored.\<close>

theorem cut_character_loses_both_chunks:
  fixes srv :: "('q, 'g) server" and w :: "('q, 'g) api_world"
  assumes "lease_ok srv a job (w_db w)" "0 < q" "q + 1 < 2 ^ 31" "pg_text (c @ d)" "\<not> pg_text c"
    and "length c \<le> 2 ^ 20" "length d \<le> 2 ^ 20"
  shows "rs_code (fst (arrive enc base (c_ServerURL (ag_cfg a)) srv (chunk_request a job q c) w)) = 500
    \<and> rs_code (fst (arrive enc base (c_ServerURL (ag_cfg a)) srv (chunk_request a job (q + 1) d) w)) = 500
    \<and> arrive_all enc base (c_ServerURL (ag_cfg a)) srv
        [chunk_request a job q c, chunk_request a job (q + 1) d] w = w"
proof -
  have d: "\<not> pg_text d" using cut_character [OF assms(4,5)] by (simp add: continuations_def)
  have q: "q < 2 ^ 31" "0 < q + 1" using assms(2,3) by simp_all
  note first = unstorable_chunk [OF assms(1,2) q(1) disjI2 [OF assms(5)], of enc base]
    and rest = unstorable_chunk [OF assms(1) q(2) assms(3) disjI2 [OF d], of enc base]
  show ?thesis using first rest assms(6,7) by (simp add: arrive_all_def)
qed

theorem cut_character_loses_both_chunks_witness:
  "pg_text [CHR ''h'', CHR 0xC3, CHR 0xA9] \<and> arrive_all (\<lambda>_. []) (sample_request [] [] [] []) (c_ServerURL (ag_cfg lease_agent))
     sample_server [chunk_request lease_agent demo_job 1 [CHR ''h'', CHR 0xC3],
       chunk_request lease_agent demo_job 2 [CHR 0xA9]] (sample_state busy_pool [] []) = sample_state busy_pool [] []"
proof -
  have t: "pg_text [CHR ''h'', CHR 0xC3, CHR 0xA9]" "\<not> pg_text [CHR ''h'', CHR 0xC3]" by code_simp+
  from cut_character_loses_both_chunks [OF lease_agent_ok, of 1 "[CHR ''h'', CHR 0xC3]" "[CHR 0xA9]"] t
  show ?thesis by simp
qed

section \<open>A start request that fails\<close>

text \<open>A job whose start request fails is left behind. The agent gives up silently: no result is reported
  and no job is active, so its later heartbeats name no job. The control plane answers such a
  heartbeat with \<open>cancel\<close> false, keeps the runner's status and its current job, and touches no job:
  a BUSY runner stays BUSY with a live lease on a job nobody runs.\<close>

theorem failed_start_strands_job:
  fixes srv :: "('q, 'g) server" and w :: "('q, 'g) api_world"
  assumes "reachable_urls E" "ae_Do E (start_request a job) n = (answer, n1)"
    and "case answer of Inl _ \<Rightarrow> True | Inr resp \<Rightarrow> 300 \<le> ar_status resp"
    and "execute (observed E) a job token (n, []) = (panicked, a', (n', tr))"
    and "db_script (w_db w) = []" "store_inv (w_db w)" "runner_at (w_db w) (rq_id rq) = Some x" "r_status x = RunnerBusy"
    and "decode_limited (sv_heartbeat srv) (4 * 2 ^ 10) (rq_body rq) = Inr []"
    and "handleHeartbeat srv rq w = (rs, w')"
  shows "tr = [Http (start_request a job)] \<and> ag_active a' = None
    \<and> snd (snd (heartbeat_round (observed E) a' (n', tr)))
      = tr @ [Http (api_request a' (''/api/v1/runners/'' @ ag_id a' @ ''/heartbeat'') (AgHeartbeat []))]
    \<and> rs = writeJSON 200 (HeartbeatResponse ''ok'' False)
    \<and> jobs (w_db w') = jobs (w_db w)
    \<and> runner_at (w_db w') (rq_id rq) = Some (x\<lparr>r_last_heartbeat := db_now (w_db w)\<rparr>)"
proof -
  note t = heartbeat_refreshes [OF assms(5-7)]
  have beat: "rs = writeJSON 200 (HeartbeatResponse ''ok'' False)" "jobs (w_db w') = jobs (w_db w)"
    "runner_at (w_db w') (rq_id rq) = Some (x\<lparr>r_last_heartbeat := db_now (w_db w)\<rparr>)"
    using assms(8-10) t by (auto simp: handleHeartbeat_def on_defs Let_def)
  let ?a = "snd (setActive (j_id job) a)"
  have rq: "agent_request_for (observed E) ?a ''POST'' (''/api/v1/jobs/'' @ j_id job @ ''/start'') AgNone
      = Inr (start_request a job)"
    using assms(1) by (simp add: agent_request_for_def reachable_urls_def start_request_def api_request_def Let_def setActive_def)
  have "\<exists>e. agent_do (observed E) ?a ''POST'' (''/api/v1/jobs/'' @ j_id job @ ''/start'') AgNone (n, [])
      = (Inl e, (n1, [Http (start_request a job)]))"
    unfolding agent_do_def rq using assms(2,3) by (auto simp: observed_calls split: sum.splits)
  then have x: "tr = [Http (start_request a job)]" "a' = clearActive (fst (setActive (j_id job) a)) ?a"
    using assms(4) unfolding execute_eq by auto
  then have idle: "ag_active a' = None" by (simp add: clearActive_def setActive_def)
  have "snd (snd (heartbeat_round (observed E) a' (n', tr)))
      = tr @ [Http (api_request a' (''/api/v1/runners/'' @ ag_id a' @ ''/heartbeat'') (AgHeartbeat []))]"
    using assms(1) idle
    by (auto simp: heartbeat_round_def agent_do_def agent_request_for_def api_request_def reachable_urls_def
        observed_calls Let_def split: sum.splits prod.splits)
  with beat x idle show ?thesis by blast
qed

definition unreachable :: "unit agent_env" where
  "unreachable = demo\<lparr>ae_Do := \<lambda>_ n. (Inl ''connection refused'', n)\<rparr>"

theorem failed_start_strands_job_witness:
  "\<exists>panicked a' n' tr. execute (observed unreachable) lease_agent demo_job [] ((), []) = (panicked, a', (n', tr))
    \<and> ag_active a' = None
    \<and> map_option r_status (runner_at (w_db (snd (handleHeartbeat sample_server (sample_request ''x'' ''x'' [] [])
        (sample_state busy_pool [] [])))) ''x'') = Some RunnerBusy"
proof -
  obtain panicked a' n' tr where x: "execute (observed unreachable) lease_agent demo_job [] ((), []) = (panicked, a', (n', tr))"
    by (metis prod.exhaust)
  let ?w = "sample_state busy_pool [] []" and ?rq = "sample_request ''x'' ''x'' [] []"
  obtain rs w' where h: "handleHeartbeat sample_server ?rq ?w = (rs, w')" by force
  have "reachable_urls unreachable" by (simp add: reachable_urls_def unreachable_def demo_def)
  moreover have "ae_Do unreachable (start_request lease_agent demo_job) () = (Inl ''connection refused'', ())"
    by (simp add: unreachable_def)
  moreover have "r_status (hd (runners busy_pool)) = RunnerBusy" by (simp add: busy_pool_eq)
  moreover have "decode_limited (sv_heartbeat sample_server) (4 * 2 ^ 10) (rq_body ?rq) = Inr []"
    by (simp add: decode_limited_def sample_server_def)
  ultimately show ?thesis
    using failed_start_strands_job [OF _ _ _ x _ _ _ _ _ h, of "Inl ''connection refused''" "()" "hd (runners busy_pool)"]
      busy_pool_inv x h by auto
qed

section \<open>Heartbeats and the reaper\<close>

lemma beat_within_timeout:
  assumes "2 * second \<le> c_HeartbeatTimeout (ag_cfg a)"
  shows "2 * beat_interval a < interval_of (c_HeartbeatTimeout (ag_cfg a))" "0 < beat_interval a"
proof -
  define t k where "t = c_HeartbeatTimeout (ag_cfg a)" and "k = t div second"
  have t: "2 * second \<le> t" using assms by (simp add: t_def)
  have m: "t = k * second + t mod second" "t mod second < second" by (simp_all add: k_def)
  have "t < k * second + second" using m by linarith
  then have k: "2 \<le> k" "t < k * second + second" using t by linarith+
  have i: "interval_of t = k * second" using t by (simp add: interval_of_def k_def)
  have th: "3 * third t \<le> t" "0 < third t" using t by (simp_all add: third_def)
  have b: "beat_interval a \<le> third t" "0 < beat_interval a"
    using th by (simp_all add: beat_interval_def Let_def t_def)
  have "3 * (2 * beat_interval a) < 3 * (k * second)"
    using b(1) th(1) k by linarith
  then show "2 * beat_interval a < interval_of (c_HeartbeatTimeout (ag_cfg a))" "0 < beat_interval a"
    using b(2) i by (simp_all add: t_def)
qed

text \<open>C35: One missed heartbeat is tolerated. The agent beats at most every third of the heartbeat timeout, the
  scheduler compares whole seconds of it. For timeouts from two seconds on, a runner last heard of at
  most two intervals ago is left alone by the reaper, and if it is idle it is still offered to
  the scheduling policy.\<close>

theorem missed_beat_tolerated:
  assumes "2 * second \<le> c_HeartbeatTimeout (ag_cfg a)" "db_script s = []" "store_inv s"
    and "runner_at s (ag_id a) = Some r" "db_now s - r_last_heartbeat r \<le> 2 * beat_interval a"
  shows "runner_at (snd (ReapOfflineRunners (c_HeartbeatTimeout (ag_cfg a)) s)) (ag_id a) = Some r
    \<and> (\<forall>orphaned. fst (ReapOfflineRunners (c_HeartbeatTimeout (ag_cfg a)) s) = Inr orphaned \<longrightarrow> ag_id a \<notin> fst ` set orphaned)
    \<and> (\<exists>candidates. fst (IdleRunners (c_HeartbeatTimeout (ag_cfg a)) s) = Inr candidates
         \<and> (r_status r = RunnerIdle \<longrightarrow> scanRunner r \<in> set candidates))"
proof -
  let ?t = "c_HeartbeatTimeout (ag_cfg a)"
  note b = beat_within_timeout [OF assms(1)]
  have fresh: "r_last_heartbeat r > db_now s - interval_of ?t" using b(1) assms(5) by linarith
  then have live: "\<not> stale ?t (db_now s) r" by (simp add: stale_def)
  have row: "r \<in> set (runners s)" "r_id r = ag_id a" using runner_at_row [OF assms(3,4)] by auto
  have d: "distinct (map r_id (runners s))" using assms(3) by (simp add: store_inv_def)
  have only: "x = r" if "x \<in> set (runners s)" "r_id x = ag_id a" for x
    using d row that by (metis distinct_map inj_on_def)
  have gone: "ag_id a \<notin> r_id ` set (filter (stale ?t (db_now s)) (runners s))" using only live by auto
  have "runner_at (snd (reap_stale ?t s)) (ag_id a) = Some r"
    using assms(4) live by (simp add: runner_at_reap [OF assms(3)])
  moreover have "ag_id a \<notin> fst ` set orphaned" if "fst (ReapOfflineRunners ?t s) = Inr orphaned" for orphaned
    using that gone assms(2) by (auto simp: ReapOfflineRunners_def reap_stale_def Let_def)
  moreover have "\<exists>candidates. fst (IdleRunners ?t s) = Inr candidates
      \<and> (r_status r = RunnerIdle \<longrightarrow> scanRunner r \<in> set candidates)"
    using assms(2) row(1) fresh by (cases "r_last_assigned_at r") (auto simp: IdleRunners_def select_def Let_def)
  ultimately show ?thesis using ReapOfflineRunners_healthy [OF assms(2)] by simp
qed

theorem missed_beat_tolerated_witness:
  "runner_at (snd (ReapOfflineRunners (c_HeartbeatTimeout (ag_cfg lease_agent)) (busy_pool\<lparr>db_now := 110 * second\<rparr>))) ''x''
     = Some (hd (runners busy_pool))"
proof -
  let ?s = "busy_pool\<lparr>db_now := 110 * second\<rparr>"
  have hb: "c_HeartbeatTimeout (ag_cfg lease_agent) = 45 * second"
    by (simp add: lease_agent_def demo_agent_def demo_config_def Load_def envDuration_def)
  have i: "ag_id lease_agent = ''x''" "ag_active lease_agent = None" by (simp_all add: lease_agent_def demo_agent_def)
  have "beat_interval lease_agent = 15 * second" by (simp add: beat_interval_def hb i third_def)
  moreover have "store_inv ?s" using busy_pool_inv by (simp add: store_inv_def runner_refs_ok_def)
  moreover have "runner_at ?s ''x'' = Some (hd (runners busy_pool))" "r_last_heartbeat (hd (runners busy_pool)) = 100 * second"
    by (simp_all add: busy_pool_eq runner_at_def)
  ultimately show ?thesis
    using missed_beat_tolerated [of lease_agent ?s "hd (runners busy_pool)"] by (simp add: hb i)
qed

end
