(* ===== verification/Middleware.thy ===== *)
theory Middleware
  imports Api_Behaviour
begin

text \<open>
  The wrappers around the routes (\<^verbatim>\<open>internal/api/middleware.go\<close>) at the level of the response writer. A
  handler is here what it does to its \<^verbatim>\<open>http.ResponseWriter\<close>: a sequence of header settings, \<^verbatim>\<open>WriteHeader\<close> calls
  and writes, ended by a return or by a panic. \<open>response_ops\<close> gives these calls for the responses of
  the modelled handlers; the wrappers are modelled over any such handler, so also over one that panics
  half-way, and \<open>http_write\<close> says what reaches the client.
\<close>

section \<open>The response writer\<close>

datatype wr_op =
    SetHeader string string  \<comment> \<open>\<open>w.Header().Set\<close>\<close>
  | WriteHeader int
  | WriteBody string  \<comment> \<open>\<open>w.Write\<close>\<close>

record wire =
  wi_head :: "string \<Rightarrow> string option"
  wi_sent :: "(int \<times> (string \<Rightarrow> string option)) option"  \<comment> \<open>the status line and the headers, once sent\<close>
  wi_body :: string

definition fresh_wire :: wire where
  "fresh_wire = \<lparr>wi_head = (\<lambda>_. None), wi_sent = None, wi_body = []\<rparr>"

text \<open>
  \<^verbatim>\<open>net/http\<close>: the first \<^verbatim>\<open>WriteHeader\<close> sends the status and the headers of that moment, a later one is
  ignored, a write before it sends 200.
\<close>

fun http_write :: "wr_op \<Rightarrow> wire \<Rightarrow> wire" where
  "http_write (SetHeader k v) wi = wi\<lparr>wi_head := (wi_head wi)(k \<mapsto> v)\<rparr>"
| "http_write (WriteHeader code) wi =
     (case wi_sent wi of None \<Rightarrow> wi\<lparr>wi_sent := Some (code, wi_head wi)\<rparr> | Some _ \<Rightarrow> wi)"
| "http_write (WriteBody b) wi =
     (case wi_sent wi of
        None \<Rightarrow> wi\<lparr>wi_sent := Some (200, wi_head wi), wi_body := wi_body wi @ b\<rparr>
      | Some _ \<Rightarrow> wi\<lparr>wi_body := wi_body wi @ b\<rparr>)"

definition client_sees :: "wire \<Rightarrow> int \<times> (string \<Rightarrow> string option) \<times> string" where
  "client_sees wi = (case wi_sent wi of None \<Rightarrow> (200, wi_head wi, []) | Some (code, head) \<Rightarrow> (code, head, wi_body wi))"
  \<comment> \<open>a handler that returns without writing is answered with 200\<close>

text \<open>\<^verbatim>\<open>statusRecorder\<close>: its \<^verbatim>\<open>WriteHeader\<close> shadows the one of the embedded writer, everything else is promoted.\<close>

record statusRecorder =
  sr_writer :: wire
  sr_status :: int

definition new_recorder :: "wire \<Rightarrow> statusRecorder" where
  "new_recorder wi = \<lparr>sr_writer = wi, sr_status = 200\<rparr>"

fun recorder_write :: "wr_op \<Rightarrow> statusRecorder \<Rightarrow> statusRecorder" where
  "recorder_write (WriteHeader code) s = s\<lparr>sr_status := code, sr_writer := http_write (WriteHeader code) (sr_writer s)\<rparr>"
| "recorder_write op s = s\<lparr>sr_writer := http_write op (sr_writer s)\<rparr>"

section \<open>The wrappers\<close>

type_synonym ctx = "string \<Rightarrow> string option"

definition RequestID :: "ctx \<Rightarrow> string" where
  "RequestID c = (case c ''request_id'' of Some i \<Rightarrow> i | None \<Rightarrow> [])"

datatype log_line =
    RequestLine string string string int  \<comment> \<open>request id, method, path, status\<close>
  | PanicLine string string string  \<comment> \<open>request id, path, panic value\<close>

record 'w exchange =
  ex_ops :: "wr_op list"
  ex_panic :: "string option"
  ex_logs :: "log_line list"
  ex_world :: 'w

type_synonym 'w servlet = "ctx \<Rightarrow> request \<Rightarrow> 'w \<Rightarrow> 'w exchange"

definition json_ops :: "(body \<Rightarrow> string) \<Rightarrow> int \<Rightarrow> body \<Rightarrow> wr_op list" where
  "json_ops enc code b = [SetHeader ''Content-Type'' ''application/json'', WriteHeader code, WriteBody (enc b)]"
  \<comment> \<open>\<open>writeJSON\<close>\<close>

definition error_ops :: "(body \<Rightarrow> string) \<Rightarrow> int \<Rightarrow> string \<Rightarrow> wr_op list" where
  "error_ops enc code msg = json_ops enc code (ErrorMsg msg)"
  \<comment> \<open>\<open>writeError\<close>\<close>

definition withRecovery :: "(body \<Rightarrow> string) \<Rightarrow> string \<Rightarrow> 'w servlet \<Rightarrow> 'w servlet" where
  "withRecovery enc path nxt c rq w =
     (let ex = nxt c rq w in
      case ex_panic ex of
        None \<Rightarrow> ex
      | Some p \<Rightarrow> ex\<lparr>ex_ops := ex_ops ex @ error_ops enc 500 ''internal error'', ex_panic := None,
                   ex_logs := ex_logs ex @ [PanicLine (RequestID c) path p]\<rparr>)"

definition withLogging :: "string \<Rightarrow> string \<Rightarrow> 'w servlet \<Rightarrow> 'w servlet" where
  "withLogging meth path nxt c rq w =
     (let ex = nxt c rq w; rec = fold recorder_write (ex_ops ex) (new_recorder fresh_wire) in
      case ex_panic ex of
        Some _ \<Rightarrow> ex
      | None \<Rightarrow> ex\<lparr>ex_logs := ex_logs ex @ [RequestLine (RequestID c) meth path (sr_status rec)]\<rparr>)"

definition request_id :: "request \<Rightarrow> string" where
  "request_id rq = (if rq_header rq ''X-Request-ID'' = [] then rq_request_uuid rq else rq_header rq ''X-Request-ID'')"

definition with_request_id :: "'w servlet \<Rightarrow> 'w servlet" where
  "with_request_id nxt c rq w =
     (let i = request_id rq; ex = nxt (c(''request_id'' \<mapsto> i)) rq w in
      ex\<lparr>ex_ops := SetHeader ''X-Request-ID'' i # ex_ops ex\<rparr>)"

definition wrapped :: "(body \<Rightarrow> string) \<Rightarrow> string \<Rightarrow> string \<Rightarrow> 'w servlet \<Rightarrow> request \<Rightarrow> 'w \<Rightarrow> 'w exchange" where
  "wrapped enc meth path nxt = with_request_id (withLogging meth path (withRecovery enc path nxt)) (\<lambda>_. None)"
  \<comment> \<open>\<open>withRequestID(withLogging(s.log, withRecovery(s.log, mux)))\<close>\<close>

definition received_by_client :: "'w exchange \<Rightarrow> int \<times> (string \<Rightarrow> string option) \<times> string" where
  "received_by_client ex = client_sees (fold http_write (ex_ops ex) fresh_wire)"

text \<open>
  The calls behind the responses of the handlers: \<^verbatim>\<open>writeJSON\<close>, the log text of \<^verbatim>\<open>handleGetJobLogs\<close>, a bare
  \<^verbatim>\<open>WriteHeader\<close> (204 of the poll, 202 of the logs), nothing at all (a poll whose client is gone), and
  the mux's \<^verbatim>\<open>http.Error\<close>, of which the \<^verbatim>\<open>Allow\<close> header is left out.
\<close>

definition response_ops :: "(body \<Rightarrow> string) \<Rightarrow> response \<Rightarrow> wr_op list" where
  "response_ops enc rs =
     (case rs_body rs of
        Empty \<Rightarrow> if rs_code rs = 200 then [] else [WriteHeader (rs_code rs)]
      | PlainText t \<Rightarrow>
          if rs_code rs = 200 then [SetHeader ''Content-Type'' ''text/plain; charset=utf-8'', WriteBody t]
          else [SetHeader ''Content-Type'' ''text/plain; charset=utf-8'', SetHeader ''X-Content-Type-Options'' ''nosniff'',
                WriteHeader (rs_code rs), WriteBody (t @ ''\<newline>'')]
      | b \<Rightarrow> json_ops enc (rs_code rs) b)"

definition mux_servlet :: "(body \<Rightarrow> string) \<Rightarrow> string \<Rightarrow> string \<Rightarrow> ('q, 'g) server \<Rightarrow> ('q, 'g) api_world servlet" where
  "mux_servlet enc meth path srv c rq w =
     (case mux meth path srv rq w of (rs, w') \<Rightarrow>
        \<lparr>ex_ops = response_ops enc rs, ex_panic = None, ex_logs = [], ex_world = w'\<rparr>)"

section \<open>What the recorder and the client see\<close>

definition no_status :: "wr_op \<Rightarrow> bool" where
  "no_status op \<longleftrightarrow> (\<forall>code. op \<noteq> WriteHeader code)"

lemma recorder_writer: "sr_writer (fold recorder_write ops s) = fold http_write ops (sr_writer s)"
proof (induction ops arbitrary: s)
  case (Cons op ops)
  have "sr_writer (recorder_write op s) = http_write op (sr_writer s)" by (cases op) auto
  with Cons show ?case by simp
qed simp

lemma recorder_keeps: "list_all no_status ops \<Longrightarrow> sr_status (fold recorder_write ops s) = sr_status s"
proof (induction ops arbitrary: s)
  case (Cons op ops)
  then show ?case by (cases op) (auto simp: no_status_def)
qed simp

lemma sent_once: "wi_sent wi = Some h \<Longrightarrow> wi_sent (fold http_write ops wi) = Some h"
proof (induction ops arbitrary: wi)
  case (Cons op ops)
  then show ?case by (cases op) auto
qed simp

lemma unsent_step: "wi_sent (http_write op wi) = None \<Longrightarrow> wi_sent wi = None \<and> wi_body (http_write op wi) = wi_body wi"
  by (cases op) (auto split: option.splits)

lemma unsent: "wi_sent (fold http_write ops wi) = None \<Longrightarrow> wi_sent wi = None \<and> wi_body (fold http_write ops wi) = wi_body wi"
proof (induction ops arbitrary: wi)
  case (Cons op ops)
  then have "wi_sent (http_write op wi) = None \<and> wi_body (fold http_write (op # ops) wi) = wi_body (http_write op wi)" by simp
  then show ?case using unsent_step [of op wi] by simp
qed simp

definition in_context :: "'w servlet \<Rightarrow> request \<Rightarrow> 'w \<Rightarrow> 'w exchange" where
  "in_context nxt rq w = nxt (\<lambda>k. if k = ''request_id'' then Some (request_id rq) else None) rq w"
  \<comment> \<open>the inner handler, called with the id in its context\<close>

lemma wrapped_quiet:
  assumes "ex_panic (in_context nxt rq w) = None"
  shows "wrapped enc meth path nxt rq w =
    (let ex = in_context nxt rq w in
     ex\<lparr>ex_ops := SetHeader ''X-Request-ID'' (request_id rq) # ex_ops ex,
        ex_logs := ex_logs ex @ [RequestLine (request_id rq) meth path (sr_status (fold recorder_write (ex_ops ex) (new_recorder fresh_wire)))]\<rparr>)"
  using assms
  by (simp add: wrapped_def with_request_id_def withLogging_def withRecovery_def RequestID_def in_context_def fun_upd_def Let_def)

lemma wrapped_panics:
  assumes "ex_panic (in_context nxt rq w) = Some p"
  shows "wrapped enc meth path nxt rq w =
    (let ex = in_context nxt rq w in
     ex\<lparr>ex_ops := SetHeader ''X-Request-ID'' (request_id rq) # ex_ops ex @ error_ops enc 500 ''internal error'', ex_panic := None,
        ex_logs := ex_logs ex @ [PanicLine (request_id rq) path p, RequestLine (request_id rq) meth path 500]\<rparr>)"
  using assms
  by (simp add: wrapped_def with_request_id_def withLogging_def withRecovery_def RequestID_def in_context_def fun_upd_def Let_def
      error_ops_def json_ops_def)

end
