(* ===== verification/Middleware_Properties.thy ===== *)
theory Middleware_Properties
  imports Middleware
begin

text \<open>
  Properties of the API at the boundary of the process: the types of its responses, what the client and the
  log see of them, and that a panic in a handler stays inside its request.
\<close>

section \<open>Typed responses\<close>

fun codes_of :: "body \<Rightarrow> int list" where
  "codes_of Empty = [200, 202, 204]"
| "codes_of (ErrorMsg m) = [400, 401, 403, 404, 409, 413, 500]"
| "codes_of (EventError e) = [400]"
| "codes_of (Fields fs) = [200, 202, 503]"
| "codes_of (RegisterResponse i t) = [201]"
| "codes_of (PlainText t) = [200, 404, 405]"
| "codes_of b = [200]"

definition typed :: "('q, 'g) handler \<Rightarrow> bool" where
  "typed h \<longleftrightarrow> (\<forall>srv rq w. rs_code (fst (h srv rq w)) \<in> set (codes_of (rs_body (fst (h srv rq w)))))"

lemma typedI:
  "(\<And>srv rq w. rs_code (fst (h srv rq w)) \<in> set (codes_of (rs_body (fst (h srv rq w))))) \<Longrightarrow> typed h"
  by (simp add: typed_def)

lemmas writes = writeJSON_def writeError_def respond_def

lemma typed_reads:
  "typed handleHealth" "typed handleReady" "typed handleListRunners" "typed handleGetRunner"
  "typed handleListJobs" "typed handleGetJob" "typed handleGetJobLogs" "typed handlePollJob"
  by (rule typedI; auto simp: handleHealth_def handleReady_def handleListRunners_def handleGetRunner_def handleListJobs_def
        handleGetJob_def handleGetJobLogs_def handlePollJob_def writes Let_def split: api_splits)+

lemma typed_writes:
  "typed handleRegister" "typed handleCancelJob" "typed handleHeartbeat" "typed handleJobStart" "typed handleJobLogs"
  "typed handleJobResult" "typed handleWebhook"
  by (rule typedI; auto simp: handleRegister_def handleCancelJob_def handleHeartbeat_def handleJobStart_def handleJobLogs_def
        handleJobResult_def handleWebhook_def writes Let_def split: api_splits)+

lemma typed_auth: "typed h \<Longrightarrow> typed (withRunnerAuth h)"
  by (auto simp: typed_def withRunnerAuth_def writes Let_def split: api_splits)

lemma route_table_typed: "(m, p, h) \<in> set route_table \<Longrightarrow> typed h"
  by (auto simp: route_table_def intro!: typed_reads typed_writes typed_auth)

lemma mux_typed: "typed (mux meth path :: ('q, 'g) handler)"
proof (rule typedI)
  fix srv :: "('q, 'g) server" and rq :: request and w :: "('q, 'g) api_world"
  show "rs_code (fst (mux meth path srv rq w)) \<in> set (codes_of (rs_body (fst (mux meth path srv rq w))))"
  proof (cases "pick meth (matching path :: (string \<times> string \<times> ('q, 'g) handler) list)")
    case None
    then show ?thesis by (simp add: mux_def Let_def respond_def)
  next
    case (Some hit)
    obtain m pat h where hit: "hit = (m, pat, h)" by (cases hit) auto
    then have "typed h" using Some pick_matching route_table_typed by blast
    with Some hit show ?thesis by (simp add: mux_def Let_def typed_def)
  qed
qed

text \<open>C22: Every response is well typed: whatever the request, the database, the queue and the GitHub client do, the
  status code fits the body. An error message comes with 400, 401, 403, 404, 409, 413 or 500, a rejected event with
  400, the new runner's credentials with 201, a job, a runner, a list or a delivery with 200 only; a client
  that sees a code below 300 never holds an error body, and one that sees a job never an error code.\<close>

theorem responses_typed:
  fixes srv :: "('q, 'g) server"
  shows "rs_code (fst (Routes meth path srv rq w)) \<in> set (codes_of (rs_body (fst (Routes meth path srv rq w))))"
proof -
  have "typed (mux meth path :: ('q, 'g) handler)" by (rule mux_typed)
  then have "rs_code (fst (mux meth path srv rq w)) \<in> set (codes_of (rs_body (fst (mux meth path srv rq w))))"
    unfolding typed_def by blast
  then show ?thesis by (cases "mux meth path srv rq w") (simp add: Routes_def withRequestID_def Let_def)
qed

section \<open>What the client and the log see\<close>

lemma Routes_mux:
  "Routes meth path srv rq w = (case mux meth path srv rq w of (rs, w') \<Rightarrow> (rs\<lparr>rs_request_id := request_id rq\<rparr>, w'))"
  by (simp add: Routes_def withRequestID_def request_id_def Let_def)

text \<open>The text of a body on the wire.\<close>

fun body_text :: "(body \<Rightarrow> string) \<Rightarrow> int \<Rightarrow> body \<Rightarrow> string" where
  "body_text enc code Empty = []"
| "body_text enc code (PlainText t) = (if code = 200 then t else t @ ''\<newline>'')"
| "body_text enc code b = enc b"

fun body_type :: "body \<Rightarrow> string option" where
  "body_type Empty = None"
| "body_type (PlainText t) = Some ''text/plain; charset=utf-8''"
| "body_type b = Some ''application/json''"

lemma ops_sent:
  "\<exists>head. client_sees (fold http_write (response_ops enc rs) (http_write (SetHeader ''X-Request-ID'' i) fresh_wire))
     = (rs_code rs, head, body_text enc (rs_code rs) (rs_body rs)) \<and> head ''X-Request-ID'' = Some i
     \<and> head ''Content-Type'' = body_type (rs_body rs)"
  by (cases "rs_body rs") (simp_all add: response_ops_def json_ops_def fresh_wire_def client_sees_def)

lemma ops_recorded: "sr_status (fold recorder_write (response_ops enc rs) (new_recorder fresh_wire)) = rs_code rs"
  by (cases "rs_body rs") (simp_all add: response_ops_def json_ops_def new_recorder_def)

text \<open>The wrappers add the request id and one log line and change nothing else. For every request, what the
  client of the whole stack of wrappers receives is the response of the routes: its status code, its body, the
  content type of the body and, in \<open>X-Request-ID\<close>, the id that the client sent or else the fresh one; the log has
  one line, with the same id, the method, the path and the status the client got; and the control plane is
  left as the routes leave it.\<close>

theorem response_served:
  fixes srv :: "('q, 'g) server"
  shows "\<exists>rs w' head.
     Routes meth path srv rq w = (rs, w')
     \<and> received_by_client (wrapped enc meth path (mux_servlet enc meth path srv) rq w)
         = (rs_code rs, head, body_text enc (rs_code rs) (rs_body rs))
     \<and> head ''X-Request-ID'' = Some (rs_request_id rs) \<and> head ''Content-Type'' = body_type (rs_body rs)
     \<and> rs_request_id rs = (if rq_header rq ''X-Request-ID'' = [] then rq_request_uuid rq else rq_header rq ''X-Request-ID'')
     \<and> ex_logs (wrapped enc meth path (mux_servlet enc meth path srv) rq w) = [RequestLine (rs_request_id rs) meth path (rs_code rs)]
     \<and> ex_panic (wrapped enc meth path (mux_servlet enc meth path srv) rq w) = None
     \<and> ex_world (wrapped enc meth path (mux_servlet enc meth path srv) rq w) = w'"
proof -
  obtain rs w' where m: "mux meth path srv rq w = (rs, w')" by force
  obtain head where h: "client_sees (fold http_write (response_ops enc rs) (http_write (SetHeader ''X-Request-ID'' (request_id rq)) fresh_wire))
     = (rs_code rs, head, body_text enc (rs_code rs) (rs_body rs))" "head ''X-Request-ID'' = Some (request_id rq)"
     "head ''Content-Type'' = body_type (rs_body rs)" using ops_sent by blast
  have w: "wrapped enc meth path (mux_servlet enc meth path srv) rq w = \<lparr>ex_ops = SetHeader ''X-Request-ID'' (request_id rq) # response_ops enc rs,
      ex_panic = None, ex_logs = [RequestLine (request_id rq) meth path (rs_code rs)], ex_world = w'\<rparr>"
    by (subst wrapped_quiet) (simp_all add: in_context_def mux_servlet_def m ops_recorded Let_def)
  show ?thesis
    by (intro exI [of _ "rs\<lparr>rs_request_id := request_id rq\<rparr>"] exI [of _ w'] exI [of _ head])
      (use h in \<open>simp add: w Routes_mux m received_by_client_def request_id_def [symmetric]\<close>)
qed

section \<open>Panics\<close>

definition same_but_headers :: "wire \<Rightarrow> wire \<Rightarrow> bool" where
  "same_but_headers u v \<longleftrightarrow> map_option fst (wi_sent u) = map_option fst (wi_sent v) \<and> wi_body u = wi_body v"

lemma headers_apart_step: "same_but_headers u v \<Longrightarrow> same_but_headers (http_write op u) (http_write op v)"
  by (cases op) (auto simp: same_but_headers_def split: option.splits)

lemma headers_apart: "same_but_headers u v \<Longrightarrow> same_but_headers (fold http_write ops u) (fold http_write ops v)"
proof (induction ops arbitrary: u v)
  case (Cons op ops)
  from Cons.IH [OF headers_apart_step [OF Cons.prems]] show ?case by simp
qed simp

definition sent_before :: "'w exchange \<Rightarrow> int option" where
  "sent_before ex = map_option fst (wi_sent (fold http_write (ex_ops ex) fresh_wire))"
  \<comment> \<open>the status that was already on the wire\<close>

text \<open>C34: A panic stays in its request. Whatever handler panics, and however much it has written: the wrapped handler
  returns, and the log says which request panicked on what and closes it with status 500. If the handler had not yet
  written, the client gets 500 with the JSON error \<open>internal error\<close>; if it had, the status it sent stays
  the client's status, whatever the log says, and the error is appended to the body.\<close>

theorem panic_contained:
  assumes "ex_panic (in_context nxt rq w) = Some p"
  shows "ex_panic (wrapped enc meth path nxt rq w) = None
    \<and> ex_world (wrapped enc meth path nxt rq w) = ex_world (in_context nxt rq w)
    \<and> ex_logs (wrapped enc meth path nxt rq w) = ex_logs (in_context nxt rq w)
        @ [PanicLine (request_id rq) path p, RequestLine (request_id rq) meth path 500]
    \<and> (case sent_before (in_context nxt rq w) of
         None \<Rightarrow> \<exists>head. received_by_client (wrapped enc meth path nxt rq w) = (500, head, enc (ErrorMsg ''internal error''))
           \<and> head ''Content-Type'' = Some ''application/json''
       | Some code \<Rightarrow> \<exists>head sofar. received_by_client (wrapped enc meth path nxt rq w)
           = (code, head, sofar @ enc (ErrorMsg ''internal error'')))"
proof -
  let ?ex = "in_context nxt rq w"
  define u where "u = fold http_write (ex_ops ?ex) (http_write (SetHeader ''X-Request-ID'' (request_id rq)) fresh_wire)"
  have "same_but_headers fresh_wire (http_write (SetHeader ''X-Request-ID'' (request_id rq)) fresh_wire)"
    by (simp add: same_but_headers_def)
  from headers_apart [OF this, of "ex_ops ?ex"] have s: "sent_before ?ex = map_option fst (wi_sent u)"
    by (simp add: sent_before_def u_def same_but_headers_def)
  have b: "wi_body u = []" if "wi_sent u = None" using unsent that unfolding u_def by (fastforce simp: fresh_wire_def)
  have c: "received_by_client (wrapped enc meth path nxt rq w) = client_sees (fold http_write (error_ops enc 500 ''internal error'') u)"
    by (simp add: wrapped_panics [OF assms] received_by_client_def u_def Let_def)
  show ?thesis
    unfolding c using b
    by (auto simp: wrapped_panics [OF assms] s error_ops_def json_ops_def client_sees_def Let_def split: option.splits)
qed

theorem panic_contained_witness:
  "\<exists>head. received_by_client (wrapped (\<lambda>_. ''internal error'') ''GET'' ''/health''
       (\<lambda>c rq w. \<lparr>ex_ops = [WriteHeader 202, WriteBody ''queued ''], ex_panic = Some ''nil map'', ex_logs = [], ex_world = w\<rparr>)
       \<lparr>rq_header = (\<lambda>_. []), rq_id = [], rq_limit = [], rq_body = [], rq_gone = False, rq_uuid = [], rq_random = Inl [],
         rq_request_uuid = ''r1''\<rparr> ())
     = (202, head, ''queued internal error'')
   \<and> ex_logs (wrapped (\<lambda>_. ''internal error'') ''GET'' ''/health''
       (\<lambda>c rq w. \<lparr>ex_ops = [WriteHeader 202, WriteBody ''queued ''], ex_panic = Some ''nil map'', ex_logs = [], ex_world = w\<rparr>)
       \<lparr>rq_header = (\<lambda>_. []), rq_id = [], rq_limit = [], rq_body = [], rq_gone = False, rq_uuid = [], rq_random = Inl [],
         rq_request_uuid = ''r1''\<rparr> ())
     = [PanicLine ''r1'' ''/health'' ''nil map'', RequestLine ''r1'' ''GET'' ''/health'' 500]"
proof -
  define rq where "rq = \<lparr>rq_header = (\<lambda>_. []), rq_id = [], rq_limit = [], rq_body = [], rq_gone = False, rq_uuid = [],
      rq_random = Inl [], rq_request_uuid = ''r1''\<rparr>"
  define nxt :: "unit servlet" where
    "nxt = (\<lambda>c rq w. \<lparr>ex_ops = [WriteHeader 202, WriteBody ''queued ''], ex_panic = Some ''nil map'', ex_logs = [], ex_world = w\<rparr>)"
  have i: "request_id rq = ''r1''" by (simp add: request_id_def rq_def)
  have p: "ex_panic (in_context nxt rq ()) = Some ''nil map''" by (simp add: in_context_def nxt_def)
  have s: "sent_before (in_context nxt rq ()) = Some 202" by (simp add: sent_before_def in_context_def nxt_def fresh_wire_def)
  from panic_contained [OF p, of "\<lambda>_. ''internal error''" "''GET''" "''/health''"] s
  have "ex_logs (wrapped (\<lambda>_. ''internal error'') ''GET'' ''/health'' nxt rq ())
      = [PanicLine ''r1'' ''/health'' ''nil map'', RequestLine ''r1'' ''GET'' ''/health'' 500]"
    by (simp add: i) (simp add: in_context_def nxt_def)
  moreover have "\<exists>head. received_by_client (wrapped (\<lambda>_. ''internal error'') ''GET'' ''/health'' nxt rq ())
      = (202, head, ''queued internal error'')"
    by (simp add: received_by_client_def wrapped_panics [OF p] Let_def error_ops_def json_ops_def client_sees_def fresh_wire_def)
      (simp add: in_context_def nxt_def)
  ultimately show ?thesis unfolding nxt_def rq_def by blast
qed

end
