(* ===== verification/Interleaving.thy ===== *)
theory Interleaving
  imports Service_Behaviour
begin

text \<open>
  The control plane call by call. The scheduler loop, the reaper loop and the handlers of the API run
  concurrently, and each of their calls to PostgreSQL or Redis may fall between two calls of the others.
  \<open>sched_step\<close> and \<open>reap_step\<close> are \<open>run_turn\<close> and \<open>reap_tick\<close> cut into single calls, with what the loop remembers
  from one call to the next as its position (\<open>RequeueJob\<close> after a failed dispatch is one step); run to the end without interruption they are \<open>run_turn\<close>
  and \<open>reap_tick\<close> again. \<open>sys_step\<close> interleaves them with the calls of any number of API requests.
  The invariant: a QUEUED job is never lost.
\<close>

section \<open>The loops, one call at a time\<close>

datatype sched_pc =
    SIdle
  | SGot string  \<comment> \<open>dequeued\<close>
  | SRead string Job  \<comment> \<open>read as QUEUED\<close>
  | SPlace string string  \<comment> \<open>a runner is chosen\<close>
  | SAssign string string Job  \<comment> \<open>read again by \<open>AssignJob\<close>\<close>
  | SDispatch string string
  | SUndo string  \<comment> \<open>the dispatch failed\<close>
  | SAck string
  | SRequeue string
  | SPush string  \<comment> \<open>removed from the in-flight list by \<open>Requeue\<close>\<close>

fun sched_step :: "'q queue_ops \<Rightarrow> policy \<Rightarrow> duration \<Rightarrow> sched_pc \<times> 'q world \<Rightarrow> sched_pc \<times> 'q world" where
  "sched_step Q sched hb (SIdle, w) =
     (case on_queue (q_Dequeue Q (2 * second)) w of
        (Inl _, w1) \<Rightarrow> (SIdle, w1)
      | (Inr i, w1) \<Rightarrow> (SGot i, w1))"
| "sched_step Q sched hb (SGot i, w) =
     (case on_db (GetJob i) w of
        (Inl _, w1) \<Rightarrow> (SAck i, w1)
      | (Inr job, w1) \<Rightarrow> if j_status job \<noteq> JobQueued then (SAck i, w1) else (SRead i job, w1))"
| "sched_step Q sched hb (SRead i job, w) =
     (case on_db (IdleRunners hb) w of
        (Inl _, w1) \<Rightarrow> (SRequeue i, w1)
      | (Inr candidates, w1) \<Rightarrow>
          (case sched job candidates of
             Inl _ \<Rightarrow> (SRequeue i, w1)
           | Inr runner \<Rightarrow> (SPlace i (r_id runner), w1)))"
| "sched_step Q sched hb (SPlace i x, w) =
     (case on_db (GetJob i) w of
        (Inl _, w1) \<Rightarrow> (SRequeue i, w1)
      | (Inr job, w1) \<Rightarrow>
          if \<not> CanTransitionTo (j_status job) JobAssigned then (SRequeue i, w1) else (SAssign i x job, w1))"
| "sched_step Q sched hb (SAssign i x job, w) =
     (case on_db (assign_tx i x job) w of
        (Inl _, w1) \<Rightarrow> (SRequeue i, w1)
      | (Inr _, w1) \<Rightarrow> (SDispatch i x, w1))"
| "sched_step Q sched hb (SDispatch i x, w) =
     (case on_queue (q_Dispatch Q x i) w of
        (Some _, w1) \<Rightarrow> (SUndo i, w1)
      | (None, w1) \<Rightarrow> (SAck i, w1))"
| "sched_step Q sched hb (SUndo i, w) = (SRequeue i, snd (on_db (RequeueJob i) w))"
| "sched_step Q sched hb (SAck i, w) = (SIdle, snd (on_queue (q_Ack Q i) w))"
| "sched_step Q sched hb (SRequeue i, w) =
     (case on_queue (q_Ack Q i) w of
        (Some _, w1) \<Rightarrow> (SIdle, w1)
      | (None, w1) \<Rightarrow> (SPush i, w1))"
| "sched_step Q sched hb (SPush i, w) = (SIdle, snd (on_queue (q_Enqueue Q i) w))"

datatype reap_pc =
    RIdle
  | RNext "(string \<times> string) list"
  | RGot string Job "(string \<times> string) list"  \<comment> \<open>read by \<open>RequeueJob\<close>\<close>
  | RFreed string Job "(string \<times> string) list"  \<comment> \<open>QUEUED again, its runner not yet released\<close>
  | RPush string "(string \<times> string) list"

fun reap_step :: "'q queue_ops \<Rightarrow> ((string \<times> string) list \<Rightarrow> (string \<times> string) list) \<Rightarrow> duration
    \<Rightarrow> reap_pc \<times> 'q world \<Rightarrow> reap_pc \<times> 'q world" where
  "reap_step Q ord hb (RIdle, w) =
     (case on_db (ReapOfflineRunners hb) w of
        (Inl _, w1) \<Rightarrow> (RIdle, w1)
      | (Inr orphaned, w1) \<Rightarrow> (RNext (ord orphaned), w1))"
| "reap_step Q ord hb (RNext [], w) = (RIdle, w)"
| "reap_step Q ord hb (RNext ((x, i) # es), w) =
     (if i = [] then (RNext es, w)
      else
        (case on_db (GetJob i) w of
           (Inl _, w1) \<Rightarrow> (RNext es, w1)
         | (Inr job, w1) \<Rightarrow>
             if \<not> CanTransitionTo (j_status job) JobQueued then (RNext es, w1) else (RGot i job es, w1)))"
| "reap_step Q ord hb (RGot i job es, w) =
     (case on_db (transition_write None i job JobQueued requeue_extra) w of
        (Inl _, w1) \<Rightarrow> (RNext es, w1)
      | (Inr job', w1) \<Rightarrow> (RFreed i job' es, w1))"
| "reap_step Q ord hb (RFreed i job es, w) =
     (case j_runner_id job of
        None \<Rightarrow> (RPush i es, w)
      | Some x \<Rightarrow>
          (case on_db (releaseRunner x) w of
             (Inl _, w1) \<Rightarrow> (RNext es, w1)
           | (Inr _, w1) \<Rightarrow> (RPush i es, w1)))"
| "reap_step Q ord hb (RPush i es, w) = (RNext es, snd (on_queue (q_Enqueue Q i) w))"

section \<open>Uninterrupted, they are the loops of the code\<close>

abbreviation sched_runs :: "'q queue_ops \<Rightarrow> policy \<Rightarrow> duration \<Rightarrow> sched_pc \<times> 'q world \<Rightarrow> sched_pc \<times> 'q world \<Rightarrow> bool" where
  "sched_runs Q sched hb \<equiv> (\<lambda>x y. y = sched_step Q sched hb x)\<^sup>*\<^sup>*"

abbreviation reap_runs :: "'q queue_ops \<Rightarrow> ((string \<times> string) list \<Rightarrow> (string \<times> string) list) \<Rightarrow> duration
    \<Rightarrow> reap_pc \<times> 'q world \<Rightarrow> reap_pc \<times> 'q world \<Rightarrow> bool" where
  "reap_runs Q ord hb \<equiv> (\<lambda>x y. y = reap_step Q ord hb x)\<^sup>*\<^sup>*"

lemma sched_runs_step:
  "sched_runs Q sched hb (sched_step Q sched hb x) y \<Longrightarrow> sched_runs Q sched hb x y"
  by (rule converse_rtranclp_into_rtranclp) auto

lemma reap_runs_step: "reap_runs Q ord hb (reap_step Q ord hb x) y \<Longrightarrow> reap_runs Q ord hb x y"
  by (rule converse_rtranclp_into_rtranclp) auto

lemma requeue_runs:
  assumes "\<And>q. q_Requeue Q i q = (case q_Ack Q i q of (Some e, q') \<Rightarrow> (Some e, q') | (None, q') \<Rightarrow> q_Enqueue Q i q')"
  shows "sched_runs Q sched hb (SRequeue i, w) (SIdle, requeue Q i w)"
proof (cases "q_Ack Q i (w_queue w)")
  case (Pair e q)
  then show ?thesis
    by (cases e) (rule sched_runs_step, auto simp: requeue_def on_defs assms intro: sched_runs_step)+
qed

lemma runs_into: "sched_step Q sched hb x = y \<Longrightarrow> sched_runs Q sched hb y z \<Longrightarrow> sched_runs Q sched hb x z"
  using sched_runs_step [of Q sched hb x z] by simp

lemma reap_into: "reap_step Q ord hb x = y \<Longrightarrow> reap_runs Q ord hb y z \<Longrightarrow> reap_runs Q ord hb x z"
  using reap_runs_step [of Q ord hb x z] by simp

definition split_requeue :: "'q queue_ops \<Rightarrow> bool" where
  "split_requeue Q \<longleftrightarrow> (\<forall>i q. q_Requeue Q i q =
     (case q_Ack Q i q of (Some e, q') \<Rightarrow> (Some e, q') | (None, q') \<Rightarrow> q_Enqueue Q i q'))"
  \<comment> \<open>\<open>Requeue\<close> is two calls\<close>

lemma redis_split [simp]: "split_requeue (redis_queue R)"
  by (simp add: split_requeue_def redis_queue_def Requeue_def split: prod.splits option.splits)

lemma ack_runs: "sched_runs Q sched hb (SAck i, w) (SIdle, snd (on_queue (q_Ack Q i) w))"
  by (rule sched_runs_step) simp

lemma place_runs:
  assumes "split_requeue Q"
  shows "sched_runs Q sched hb (SPlace i (r_id runner), w) (SIdle, place_job Q i runner w)"
proof -
  have retry: "sched_runs Q sched hb (SRequeue i, w) (SIdle, requeue Q i w)" for w
    by (rule requeue_runs) (use assms in \<open>simp add: split_requeue_def\<close>)
  obtain a s where g: "GetJob i (w_db w) = (a, s)" by force
  show ?thesis
  proof (cases "\<exists>job. a = Inr job \<and> CanTransitionTo (j_status job) JobAssigned")
    case False
    then have "sched_step Q sched hb (SPlace i (r_id runner), w) = (SRequeue i, w\<lparr>w_db := s\<rparr>)"
      "place_job Q i runner w = requeue Q i (w\<lparr>w_db := s\<rparr>)"
      by (cases a; simp add: place_job_def AssignJob_def on_db_eq g)+
    with retry show ?thesis by (metis runs_into)
  next
    case True
    then obtain job where a: "a = Inr job" "CanTransitionTo (j_status job) JobAssigned" by blast
    let ?w = "w\<lparr>w_db := s\<rparr>"
    obtain b t where x: "assign_tx i (r_id runner) job s = (b, t)" by force
    have step: "sched_step Q sched hb (SPlace i (r_id runner), w) = (SAssign i (r_id runner) job, ?w)"
      using a by (simp add: on_db_eq g)
    have eq: "AssignJob i (r_id runner) (w_db w) = (b, t)" using a x by (simp add: AssignJob_def g)
    show ?thesis
    proof (cases b)
      case (Inl e)
      then have "sched_step Q sched hb (SAssign i (r_id runner) job, ?w) = (SRequeue i, w\<lparr>w_db := t\<rparr>)"
        "place_job Q i runner w = requeue Q i (w\<lparr>w_db := t\<rparr>)"
        by (simp_all add: place_job_def on_db_eq eq x)
      with retry step show ?thesis by (metis runs_into)
    next
      case (Inr u)
      then have tx: "sched_step Q sched hb (SAssign i (r_id runner) job, ?w) = (SDispatch i (r_id runner), w\<lparr>w_db := t\<rparr>)"
        by (simp add: on_db_eq x)
      obtain d q where dq: "q_Dispatch Q (r_id runner) i (w_queue w) = (d, q)" by force
      have "sched_runs Q sched hb (SDispatch i (r_id runner), w\<lparr>w_db := t\<rparr>) (SIdle, place_job Q i runner w)"
      proof (cases d)
        case None
        with Inr ack_runs [of Q sched hb i "w\<lparr>w_db := t, w_queue := q\<rparr>"] show ?thesis
          by - (rule sched_runs_step, simp add: place_job_def on_defs eq dq)
      next
        case (Some e)
        with Inr retry [of "w\<lparr>w_queue := q, w_db := snd (RequeueJob i t)\<rparr>"] show ?thesis
          by - (rule sched_runs_step, simp add: place_job_def on_defs eq dq, rule sched_runs_step, simp add: on_defs)
      qed
      with step tx show ?thesis by (metis runs_into)
    qed
  qed
qed

lemma assign_runs:
  assumes "split_requeue Q"
  shows "sched_runs Q sched hb (SGot i, w) (SIdle, assign Q sched hb i w)"
proof -
  have retry: "sched_runs Q sched hb (SRequeue i, w) (SIdle, requeue Q i w)" for w
    by (rule requeue_runs) (use assms in \<open>simp add: split_requeue_def\<close>)
  obtain a s where g: "GetJob i (w_db w) = (a, s)" by force
  let ?w = "w\<lparr>w_db := s\<rparr>"
  show ?thesis
  proof (cases "\<exists>job. a = Inr job \<and> j_status job = JobQueued")
    case False
    then have "sched_step Q sched hb (SGot i, w) = (SAck i, ?w)" "assign Q sched hb i w = snd (on_queue (q_Ack Q i) ?w)"
      by (cases a; simp add: assign_def on_db_eq g)+
    with ack_runs show ?thesis by (metis runs_into)
  next
    case True
    then obtain job where a: "a = Inr job" "j_status job = JobQueued" by blast
    then have got: "sched_step Q sched hb (SGot i, w) = (SRead i job, ?w)" by (simp add: on_db_eq g)
    obtain cs t where c: "IdleRunners hb s = (cs, t)" by force
    have "sched_runs Q sched hb (SRead i job, ?w) (SIdle, assign Q sched hb i w)"
      by -
        (rule sched_runs_step, use a retry place_runs [OF assms] in \<open>auto simp: assign_def on_db_eq g c split: sum.splits sched_error.splits\<close>)
    with got show ?thesis by (metis runs_into)
  qed
qed

lemma run_turn_runs:
  assumes "split_requeue Q"
  shows "sched_runs Q sched hb (sched_step Q sched hb (SIdle, w)) (SIdle, run_turn Q sched hb w)"
proof (cases "q_Dequeue Q (2 * second) (w_queue w)")
  case (Pair a q)
  show ?thesis
  proof (cases a)
    case (Inl e)
    with Pair show ?thesis by (cases e) (simp_all add: run_turn_def on_defs)
  next
    case (Inr i)
    with Pair assign_runs [OF assms, of sched hb i "w\<lparr>w_queue := q\<rparr>"] show ?thesis
      by (simp add: run_turn_def on_defs)
  qed
qed

lemma rescue_runs: "reap_runs Q ord hb (RNext ((x, i) # es), w) (RNext es, rescue Q (x, i) w)"
proof (cases "i = []")
  case True
  then show ?thesis by - (rule reap_runs_step, simp add: rescue_def)
next
  case False
  obtain a s where g: "GetJob i (w_db w) = (a, s)" by force
  show ?thesis
  proof (cases "\<exists>job. a = Inr job \<and> CanTransitionTo (j_status job) JobQueued")
    case no: False
    with False show ?thesis
      by - (rule reap_runs_step, cases a; simp add: rescue_def RequeueJob_def transition_def on_db_eq g)
  next
    case True
    then obtain job where a: "a = Inr job" "CanTransitionTo (j_status job) JobQueued" by blast
    let ?w = "w\<lparr>w_db := s\<rparr>"
    obtain b t where t: "transition_write None i job JobQueued requeue_extra s = (b, t)" by force
    have got: "reap_step Q ord hb (RNext ((x, i) # es), w) = (RGot i job es, ?w)"
      using False a by (simp add: on_db_eq g)
    have tr: "transition None i JobQueued requeue_extra (w_db w) = (b, t)" using a t by (simp add: transition_def g)
    have "reap_runs Q ord hb (RGot i job es, ?w) (RNext es, rescue Q (x, i) w)"
    proof (cases b)
      case (Inl e)
      with False show ?thesis
        by - (rule reap_runs_step, simp add: rescue_def RequeueJob_def tr on_db_eq t)
    next
      case (Inr job')
      have push: "reap_runs Q ord hb (RPush i es, v) (RNext es, snd (on_queue (q_Enqueue Q i) v))" for v
        by (rule reap_runs_step) simp
      have "reap_runs Q ord hb (RFreed i job' es, w\<lparr>w_db := t\<rparr>) (RNext es, rescue Q (x, i) w)"
        by -
          (rule reap_runs_step, use False Inr push in \<open>auto simp: rescue_def RequeueJob_def tr on_db_eq split: option.splits sum.splits\<close>)
      with Inr show ?thesis by - (rule reap_runs_step, simp add: on_db_eq t)
    qed
    with got show ?thesis by (metis reap_into)
  qed
qed

lemma rescues_run: "reap_runs Q ord hb (RNext es, w) (RIdle, fold (rescue Q) es w)"
proof (induction es arbitrary: w)
  case Nil
  show ?case by (rule reap_runs_step) simp
next
  case (Cons e es)
  obtain x i where e: "e = (x, i)" by force
  show ?case unfolding e using rtranclp_trans [OF rescue_runs Cons.IH] by simp
qed

lemma reap_tick_runs: "reap_runs Q ord hb (reap_step Q ord hb (RIdle, w)) (RIdle, reap_tick Q ord hb w)"
  using rescues_run [of Q ord hb] by (auto simp: reap_tick_def on_db_eq split: sum.splits)

section \<open>The control plane\<close>

text \<open>
  The calls an API request makes to the database, apart from the INSERT of a webhook: they never make a job
  QUEUED. Time passes here too.
\<close>

inductive client_call :: "db \<Rightarrow> db \<Rightarrow> bool" where
  waits: "db_now s \<le> now \<Longrightarrow> client_call s (s\<lparr>db_now := now\<rparr>)"
| changes: "CanTransitionTo (j_status job) to \<Longrightarrow> lifecycle_change to extra \<Longrightarrow> to \<noteq> JobQueued \<Longrightarrow>
    client_call s (snd (transition_write bad i job to extra s))"
| releases: "client_call s (snd (releaseRunner x s))"
| appends: "client_call s (snd (AppendLogs i n c s))"
| registers: "client_call s (snd (RegisterRunner r h s))"
| beats: "client_call s (snd (Heartbeat x s))"

text \<open>
  \<open>s_hooks\<close> are the jobs whose webhook has stored them and not yet pushed their ids. The loops and the
  requests take turns in any order, one call each.
\<close>

record 'q sys =
  s_world :: "'q world"
  s_sched :: sched_pc
  s_reap :: reap_pc
  s_hooks :: "string list"

inductive sys_step :: "'q queue_ops \<Rightarrow> policy \<Rightarrow> ((string \<times> string) list \<Rightarrow> (string \<times> string) list) \<Rightarrow> duration
    \<Rightarrow> 'q sys \<Rightarrow> 'q sys \<Rightarrow> bool"
  for Q :: "'q queue_ops" and sched :: policy and ord :: "(string \<times> string) list \<Rightarrow> (string \<times> string) list"
    and hb :: duration where
  scheduler: "sched_step Q sched hb (s_sched S, s_world S) = (pc, w) \<Longrightarrow>
    sys_step Q sched ord hb S (S\<lparr>s_world := w, s_sched := pc\<rparr>)"
| reaper: "reap_step Q ord hb (s_reap S, s_world S) = (pc, w) \<Longrightarrow>
    sys_step Q sched ord hb S (S\<lparr>s_world := w, s_reap := pc\<rparr>)"
| stored: "j_status j = JobQueued \<Longrightarrow> on_db (CreateJob j) (s_world S) = (Inr (), w) \<Longrightarrow>
    sys_step Q sched ord hb S (S\<lparr>s_world := w, s_hooks := j_id j # s_hooks S\<rparr>)"
| refused: "j_status j = JobQueued \<Longrightarrow> on_db (CreateJob j) (s_world S) = (Inl e, w) \<Longrightarrow>
    sys_step Q sched ord hb S (S\<lparr>s_world := w\<rparr>)"
| pushed: "i \<in> set (s_hooks S) \<Longrightarrow> on_queue (q_Enqueue Q i) (s_world S) = (a, w) \<Longrightarrow>
    sys_step Q sched ord hb S (S\<lparr>s_world := w, s_hooks := remove1 i (s_hooks S)\<rparr>)"
| received: "on_queue (q_Receive Q x d) (s_world S) = (a, w) \<Longrightarrow> sys_step Q sched ord hb S (S\<lparr>s_world := w\<rparr>)"
| client: "client_call (w_db (s_world S)) s \<Longrightarrow>
    sys_step Q sched ord hb S (S\<lparr>s_world := (s_world S)\<lparr>w_db := s\<rparr>\<rparr>)"

section \<open>No job is lost\<close>

definition waiting_jobs :: "db \<Rightarrow> string set" where
  "waiting_jobs s = {i. \<exists>r. job_at s i = Some r \<and> j_status r = JobQueued}"

text \<open>The ids the scheduler and the reaper will still push or place, and, with the queue and the open webhooks, the
  ids that will be considered again. An id whose next call is its acknowledgement is not among them.\<close>

fun sched_carries :: "sched_pc \<Rightarrow> string list" where
  "sched_carries (SPush i) = [i]"
| "sched_carries (SGot i) = [i]"
| "sched_carries (SRead i job) = [i]"
| "sched_carries (SPlace i x) = [i]"
| "sched_carries (SAssign i x job) = [i]"
| "sched_carries (SRequeue i) = [i]"
| "sched_carries (SUndo i) = [i]"
| "sched_carries _ = []"

fun reap_carries :: "reap_pc \<Rightarrow> string list" where
  "reap_carries (RFreed i job es) = [i]"
| "reap_carries (RPush i es) = [i]"
| "reap_carries _ = []"

definition upcoming :: "('q \<Rightarrow> string list) \<Rightarrow> 'q sys \<Rightarrow> string set" where
  "upcoming pending S = set (pending (w_queue (s_world S))) \<union> set (sched_carries (s_sched S))
     \<union> set (reap_carries (s_reap S)) \<union> set (s_hooks S)"

lemma waiting_rows: "waiting_jobs s = {i. \<exists>r. row_at j_id i (jobs s) = Some r \<and> j_status r = JobQueued}"
  by (simp add: waiting_jobs_def job_at_def)

lemma waiting_same: "jobs t = jobs s \<Longrightarrow> waiting_jobs t = waiting_jobs s"
  by (simp add: waiting_rows)

lemma waiting_frame [simp]:
  "waiting_jobs (s\<lparr>db_now := now\<rparr>) = waiting_jobs s" "waiting_jobs (s\<lparr>runners := rs\<rparr>) = waiting_jobs s"
  "waiting_jobs (s\<lparr>db_script := xs\<rparr>) = waiting_jobs s"
  by (simp_all add: waiting_rows)

lemma change_status_waiting:
  assumes "lifecycle_change to extra"
  shows "waiting_jobs (snd (change_status i from to extra s)) \<subseteq> (if to = JobQueued then insert i (waiting_jobs s) else waiting_jobs s)"
proof -
  have "j_status (extra now (r\<lparr>j_status := to\<rparr>)) = to" for now r
    using assms by (auto simp: lifecycle_change_simps start_extra_def complete_extra_def requeue_extra_def cancel_extra_def)
  then show ?thesis by (auto simp: waiting_rows change_status_row [OF assms] split: if_splits dest: row_at_Some)
qed

lemma transition_write_waiting:
  assumes "lifecycle_change to extra" "db_script s = []" "transition_write bad i job to extra s = (a, t)"
  shows "db_script t = []" "waiting_jobs t \<subseteq> (if to = JobQueued \<and> isl a = False then insert i (waiting_jobs s) else waiting_jobs s)"
proof -
  have "db_script t = [] \<and> waiting_jobs t \<subseteq> (if to = JobQueued \<and> isl a = False then insert i (waiting_jobs s) else waiting_jobs s)"
  proof (cases bad)
    case (Some e)
    with assms(2,3) show ?thesis by (auto simp: transition_write_def)
  next
    case None
    let ?P = "\<lambda>r. j_id r = i \<and> j_status r = j_status job"
    have t: "t = snd (change_status i (j_status job) to extra s)" "isl a \<longleftrightarrow> rows_matching ?P (jobs s) = 0"
      using assms(2,3) None by (auto simp: transition_write_def change_status_def update_jobs_def split: if_splits)
    show ?thesis
    proof (cases "isl a")
      case True
      then have "jobs t = jobs s" unfolding t(1) by (simp add: t(2) change_status_def update_jobs_def sql_update_no_match)
      then have "waiting_jobs t = waiting_jobs s" by (rule waiting_same)
      with True assms(2) t(1) show ?thesis by simp
    next
      case False
      then show ?thesis using change_status_waiting [OF assms(1), of i "j_status job" s] assms(2) by (auto simp: t(1))
    qed
  qed
  then show "db_script t = []" "waiting_jobs t \<subseteq> (if to = JobQueued \<and> isl a = False then insert i (waiting_jobs s) else waiting_jobs s)"
    by blast+
qed

lemma waiting_update:
  assumes "\<And>r. j_id (f r) = j_id r" "\<And>r. j_status (f r) = j_status r"
  shows "waiting_jobs (s\<lparr>jobs := sql_update P f (jobs s)\<rparr>) = waiting_jobs s"
proof -
  have m: "map_option j_status (row_at j_id i (sql_update P f (jobs s))) = map_option j_status (row_at j_id i (jobs s))" for i
    using assms by (simp add: row_at_sql_update option.map_comp comp_def if_distrib cong: if_cong)
  have w: "waiting_jobs t = {i. map_option j_status (row_at j_id i (jobs t)) = Some JobQueued}" for t
    by (auto simp: waiting_rows)
  have "jobs (s\<lparr>jobs := sql_update P f (jobs s)\<rparr>) = sql_update P f (jobs s)" by simp
  then show ?thesis by (simp only: w m)
qed

lemma releaseRunner_jobs:
  "db_script s = [] \<Longrightarrow> \<exists>t. releaseRunner x s = (Inr (), t) \<and> db_script t = [] \<and> jobs t = jobs s"
  by (simp add: releaseRunner_healthy)

lemma client_call_waiting:
  "client_call s t \<Longrightarrow> db_script s = [] \<Longrightarrow> db_script t = [] \<and> waiting_jobs t \<subseteq> waiting_jobs s"
proof (induction rule: client_call.induct)
  case (changes job to extra s bad i)
  then show ?case using transition_write_waiting [OF changes(2,4) surjective_pairing, of bad i job] by auto
next
  case (releases s x)
  then obtain t where "releaseRunner x s = (Inr (), t)" "db_script t = []" "jobs t = jobs s"
    using releaseRunner_jobs by blast
  then show ?case using waiting_same [of t s] by simp
next
  case (appends s i n c)
  have "waiting_jobs (snd (append_chunk i n c s)) = waiting_jobs s"
    by (cases "arg_error n c") (simp_all add: append_chunk_def append_rows_def update_jobs_def waiting_update)
  moreover have "db_script (snd (append_chunk i n c s)) = db_script s"
    by (cases "arg_error n c") (simp_all add: append_chunk_def append_rows_def update_jobs_def)
  moreover have "snd (AppendLogs i n c s) = snd (append_chunk i n c s)"
    using appends calculation(2)
    by (cases "append_chunk i n c s") (auto simp: AppendLogs_def select_def split: sum.splits option.splits)
  ultimately show ?case using appends by simp
next
  case (registers s r h)
  then show ?case by (auto simp: RegisterRunner_def insert_runner_def)
next
  case (beats s x)
  then show ?case by (simp add: Heartbeat_def refresh_heartbeat_def update_runners_def)
qed simp

text \<open>The calls of the loops, while the database answers.\<close>

lemma GetJob_waiting:
  "db_script s = [] \<Longrightarrow> \<exists>a. GetJob i s = (a, s) \<and> (i \<in> waiting_jobs s \<longrightarrow> (\<exists>job. a = Inr job \<and> j_status job = JobQueued))
     \<and> (\<forall>job. a = Inr job \<longrightarrow> j_status job = JobQueued \<longrightarrow> i \<in> waiting_jobs s)"
  by (auto simp: waiting_rows split: option.splits)

lemma IdleRunners_waiting: "db_script s = [] \<Longrightarrow> \<exists>rs. IdleRunners d s = (Inr rs, s)"
  using IdleRunners_healthy by blast

lemma assign_tx_waiting:
  assumes "db_script s = []" "CanTransitionTo (j_status job) JobAssigned" "assign_tx i x job s = (a, t)"
  shows "db_script t = []" "waiting_jobs t \<subseteq> waiting_jobs s" "a = Inr () \<longrightarrow> i \<notin> waiting_jobs t"
proof -
  have q: "j_status job = JobQueued" using assms(2) by (simp add: assigned_only_from_queued)
  have script: "db_script t = []"
    using assms(1,3) by (auto simp: assign_tx_def select_def mark_assigned_def mark_busy_def update_jobs_def update_runners_def
        tx_rollback_def tx_commit_def split: if_splits)
  have eff: "waiting_jobs (assign_effect i x JobQueued s) = waiting_jobs s - {i}"
  proof (rule set_eqI)
    fix k
    show "k \<in> waiting_jobs (assign_effect i x JobQueued s) \<longleftrightarrow> k \<in> waiting_jobs s - {i}"
    proof (cases "row_at j_id k (jobs s)")
      case (Some r)
      then have "j_id r = k" by (auto dest: row_at_Some)
      with Some show ?thesis by (cases "k = i \<and> j_status r = JobQueued") (auto simp: waiting_rows assign_effect_job)
    qed (simp add: waiting_rows assign_effect_job)
  qed
  obtain xs where t: "t = s\<lparr>db_script := xs\<rparr> \<or> t = (assign_effect i x JobQueued s)\<lparr>db_script := xs\<rparr>"
    using assign_tx_atomic [of i x job s] assms(3) q by auto
  show "db_script t = []" by (rule script)
  show "waiting_jobs t \<subseteq> waiting_jobs s" using t by (elim disjE) (simp_all add: eff Diff_subset)
  show "a = Inr () \<longrightarrow> i \<notin> waiting_jobs t"
  proof
    assume "a = Inr ()"
    with assms(3) obtain ys where "t = (assign_effect i x JobQueued s)\<lparr>db_script := ys\<rparr>"
      unfolding q [symmetric] by (metis assign_tx_Inr)
    then show "i \<notin> waiting_jobs t" by (simp add: eff)
  qed
qed

lemma RequeueJob_waiting:
  assumes "db_script s = []"
  shows "db_script (snd (RequeueJob i s)) = []" "waiting_jobs (snd (RequeueJob i s)) \<subseteq> insert i (waiting_jobs s)"
proof -
  obtain a where g: "GetJob i s = (a, s)" using GetJob_waiting [OF assms] by blast
  have "db_script (snd (RequeueJob i s)) = [] \<and> waiting_jobs (snd (RequeueJob i s)) \<subseteq> insert i (waiting_jobs s)"
  proof (cases "\<exists>job. a = Inr job \<and> CanTransitionTo (j_status job) JobQueued")
    case False
    then show ?thesis using assms by (cases a) (auto simp: RequeueJob_def transition_def g)
  next
    case True
    then obtain job where a: "a = Inr job" "CanTransitionTo (j_status job) JobQueued" by blast
    obtain b t where t: "transition_write None i job JobQueued requeue_extra s = (b, t)" by force
    note w = transition_write_waiting [OF lifecycle_change.to_queued assms t]
    have tr: "transition None i JobQueued requeue_extra s = (b, t)" using a by (simp add: transition_def g t)
    have rel: "db_script (snd (releaseRunner x t)) = []" "waiting_jobs (snd (releaseRunner x t)) = waiting_jobs t" for x
    proof -
      obtain u where u: "releaseRunner x t = (Inr (), u)" "db_script u = []" "jobs u = jobs t"
        using releaseRunner_jobs [OF w(1)] by blast
      show "db_script (snd (releaseRunner x t)) = []" "waiting_jobs (snd (releaseRunner x t)) = waiting_jobs t"
        using u waiting_same [OF u(3)] by simp_all
    qed
    show ?thesis using w rel by (auto simp: RequeueJob_def tr split: sum.splits option.splits)
  qed
  then show "db_script (snd (RequeueJob i s)) = []" "waiting_jobs (snd (RequeueJob i s)) \<subseteq> insert i (waiting_jobs s)"
    by blast+
qed

lemma CreateJob_waiting:
  assumes "db_script s = []" "CreateJob j s = (a, t)"
  shows "db_script t = []" "waiting_jobs t \<subseteq> (if a = Inr () then insert (j_id j) (waiting_jobs s) else waiting_jobs s)"
  using assms by (auto simp: CreateJob_def insert_job_def waiting_rows row_at_append split: if_splits option.splits)

text \<open>
  The invariant. The positions remember only what the code has checked: \<open>SAssign\<close> holds a job that may be
  assigned, \<open>RGot\<close> one that may be queued again.
\<close>

fun sched_ok :: "sched_pc \<Rightarrow> bool" where
  "sched_ok (SAssign i x job) \<longleftrightarrow> CanTransitionTo (j_status job) JobAssigned"
| "sched_ok _ \<longleftrightarrow> True"

fun calls_db :: "sched_pc \<Rightarrow> bool" where
  "calls_db (SGot i) = True"
| "calls_db (SRead i job) = True"
| "calls_db (SPlace i x) = True"
| "calls_db (SAssign i x job) = True"
| "calls_db (SUndo i) = True"
| "calls_db _ = False"

context job_queue
begin

definition nothing_lost :: "'q sys \<Rightarrow> bool" where
  "nothing_lost S \<longleftrightarrow> db_script (w_db (s_world S)) = [] \<and> up (w_queue (s_world S)) \<and> sched_ok (s_sched S)
     \<and> waiting_jobs (w_db (s_world S)) \<subseteq> upcoming pending S"

lemma queue_up:
  assumes "up q"
  shows "\<exists>q'. q_Enqueue Q i q = (None, q') \<and> up q' \<and> pending q' = pending q @ [i]"
    and "\<exists>q'. q_Ack Q i q = (None, q') \<and> up q' \<and> pending q' = pending q"
    and "\<exists>q'. q_Dispatch Q x i q = (None, q') \<and> up q' \<and> pending q' = pending q"
    and "\<exists>a q'. q_Receive Q x d q = (a, q') \<and> up q' \<and> pending q' = pending q"
  using up_enqueue [OF assms, of i] enqueue_ok up_ack [OF assms, of i] ack_ok up_dispatch [OF assms, of x i] dispatch_ok
    up_receive [OF assms, of x d] up_receive_empty [OF assms, of x d] receive_ok receive_none
  by (metis)+

lemma dequeue_up:
  assumes "up q"
  obtains q' where "q_Dequeue Q d q = (Inl ErrEmpty, q')" "up q'" "pending q = []" "pending q' = []"
  | i q' where "q_Dequeue Q d q = (Inr i, q')" "up q'" "pending q = i # pending q'"
  using up_dequeue [OF assms, of d] up_dequeue_empty [OF assms, of d] dequeue_ok dequeue_empty by metis

lemma sched_keeps_db:
  assumes "nothing_lost S" "sched_step Q sched hb (s_sched S, s_world S) = (pc, w)" "calls_db (s_sched S)"
  shows "nothing_lost (S\<lparr>s_world := w, s_sched := pc\<rparr>)"
proof -
  let ?s = "w_db (s_world S)" and ?q = "w_queue (s_world S)"
  have inv: "db_script ?s = []" "up ?q" "sched_ok (s_sched S)" "waiting_jobs ?s \<subseteq> upcoming pending S"
    using assms(1) by (auto simp: nothing_lost_def)
  show ?thesis
  proof (cases "s_sched S")
    case (SGot i)
    obtain a where g: "GetJob i ?s = (a, ?s)" "i \<in> waiting_jobs ?s \<longrightarrow> (\<exists>job. a = Inr job \<and> j_status job = JobQueued)"
      using GetJob_waiting [OF inv(1)] by blast
    show ?thesis using inv assms(2) SGot g
      by (cases a) (auto simp: nothing_lost_def upcoming_def on_db_eq split: if_splits)
  next
    case (SRead i job)
    obtain rs where "IdleRunners hb ?s = (Inr rs, ?s)" using IdleRunners_waiting [OF inv(1)] by blast
    with inv assms(2) SRead show ?thesis
      by (auto simp: nothing_lost_def upcoming_def on_db_eq split: sum.splits)
  next
    case (SPlace i x)
    obtain a where "GetJob i ?s = (a, ?s)" using GetJob_waiting [OF inv(1)] by blast
    with inv assms(2) SPlace show ?thesis
      by (cases a) (auto simp: nothing_lost_def upcoming_def on_db_eq split: if_splits)
  next
    case (SAssign i x job)
    obtain a t where x: "assign_tx i x job ?s = (a, t)" by force
    note w = assign_tx_waiting [OF inv(1) _ x]
    show ?thesis using inv assms(2) SAssign x w
      by (cases a) (auto simp: nothing_lost_def upcoming_def on_db_eq, blast+)
  next
    case (SUndo i)
    with inv assms(2) RequeueJob_waiting [OF inv(1), of i] show ?thesis
      by (auto simp: nothing_lost_def upcoming_def on_db_eq, blast)
  qed (use assms(3) in simp_all)
qed

lemma sched_keeps_queue:
  assumes "nothing_lost S" "sched_step Q sched hb (s_sched S, s_world S) = (pc, w)" "\<not> calls_db (s_sched S)"
  shows "nothing_lost (S\<lparr>s_world := w, s_sched := pc\<rparr>)"
proof -
  let ?s = "w_db (s_world S)" and ?q = "w_queue (s_world S)"
  have inv: "db_script ?s = []" "up ?q" "sched_ok (s_sched S)" "waiting_jobs ?s \<subseteq> upcoming pending S"
    using assms(1) by (auto simp: nothing_lost_def)
  show ?thesis
  proof (cases "s_sched S")
    case SIdle
    show ?thesis
      by (rule dequeue_up [OF inv(2), of "2 * second"])
        (use inv assms(2) SIdle in \<open>auto simp: nothing_lost_def upcoming_def on_queue_eq\<close>)
  next
    case (SDispatch i x)
    obtain q where "q_Dispatch Q x i ?q = (None, q)" "up q" "pending q = pending ?q" using queue_up(3) [OF inv(2)] by blast
    with inv assms(2) SDispatch show ?thesis by (auto simp: nothing_lost_def upcoming_def on_queue_eq)
  next
    case (SAck i)
    obtain q where "q_Ack Q i ?q = (None, q)" "up q" "pending q = pending ?q" using queue_up(2) [OF inv(2)] by blast
    with inv assms(2) SAck show ?thesis by (auto simp: nothing_lost_def upcoming_def on_queue_eq)
  next
    case (SRequeue i)
    obtain q where "q_Ack Q i ?q = (None, q)" "up q" "pending q = pending ?q" using queue_up(2) [OF inv(2)] by blast
    with inv assms(2) SRequeue show ?thesis by (auto simp: nothing_lost_def upcoming_def on_queue_eq)
  next
    case (SPush i)
    obtain q where "q_Enqueue Q i ?q = (None, q)" "up q" "pending q = pending ?q @ [i]" using queue_up(1) [OF inv(2)] by blast
    with inv assms(2) SPush show ?thesis by (auto simp: nothing_lost_def upcoming_def on_queue_eq)
  qed (use assms(3) in simp_all)
qed

lemma sched_keeps:
  "nothing_lost S \<Longrightarrow> sched_step Q sched hb (s_sched S, s_world S) = (pc, w) \<Longrightarrow> nothing_lost (S\<lparr>s_world := w, s_sched := pc\<rparr>)"
  using sched_keeps_db sched_keeps_queue by blast

lemma reap_next_keeps:
  assumes "nothing_lost S" "s_reap S = RNext es" "reap_step Q ord hb (RNext es, s_world S) = (pc, w)"
  shows "nothing_lost (S\<lparr>s_world := w, s_reap := pc\<rparr>)"
proof -
  let ?s = "w_db (s_world S)"
  have inv: "db_script ?s = []" "up (w_queue (s_world S))" "sched_ok (s_sched S)" "waiting_jobs ?s \<subseteq> upcoming pending S"
    using assms(1) by (auto simp: nothing_lost_def)
  show ?thesis
  proof (cases es)
    case Nil
    with inv assms(2,3) show ?thesis by (auto simp: nothing_lost_def upcoming_def)
  next
    case (Cons e es')
    obtain x i where e: "e = (x, i)" by force
    obtain a where "GetJob i ?s = (a, ?s)" using GetJob_waiting [OF inv(1)] by blast
    with inv assms(2,3) Cons e show ?thesis
      by (cases a) (auto simp: nothing_lost_def upcoming_def on_db_eq split: if_splits)
  qed
qed

lemma reap_keeps:
  assumes "nothing_lost S" "reap_step Q ord hb (s_reap S, s_world S) = (pc, w)"
  shows "nothing_lost (S\<lparr>s_world := w, s_reap := pc\<rparr>)"
proof -
  let ?s = "w_db (s_world S)" and ?q = "w_queue (s_world S)"
  have inv: "db_script ?s = []" "up ?q" "sched_ok (s_sched S)" "waiting_jobs ?s \<subseteq> upcoming pending S"
    using assms(1) by (auto simp: nothing_lost_def)
  show ?thesis
  proof (cases "s_reap S")
    case RIdle
    have "waiting_jobs (snd (reap_stale hb ?s)) = waiting_jobs ?s" by (simp add: waiting_jobs_def)
    with inv assms(2) RIdle ReapOfflineRunners_healthy [OF inv(1), of hb] show ?thesis
      by (auto simp: nothing_lost_def upcoming_def on_db_eq)
  next
    case (RNext es)
    then show ?thesis using reap_next_keeps [OF assms(1) RNext] assms(2) by simp
  next
    case (RGot i job es)
    obtain a t where t: "transition_write None i job JobQueued requeue_extra ?s = (a, t)" by force
    note w = transition_write_waiting [OF lifecycle_change.to_queued inv(1) t]
    show ?thesis using inv assms(2) RGot t w
      by (cases a) (auto simp: nothing_lost_def upcoming_def on_db_eq, blast+)
  next
    case (RFreed i job es)
    show ?thesis
    proof (cases "j_runner_id job")
      case None
      with inv assms(2) RFreed show ?thesis by (auto simp: nothing_lost_def upcoming_def)
    next
      case (Some x)
      obtain t where t: "releaseRunner x ?s = (Inr (), t)" "db_script t = []" "jobs t = jobs ?s"
        using releaseRunner_jobs [OF inv(1)] by blast
      with inv assms(2) RFreed Some waiting_same [OF t(3)] show ?thesis
        by (auto simp: nothing_lost_def upcoming_def on_db_eq)
    qed
  next
    case (RPush i es)
    obtain q where "q_Enqueue Q i ?q = (None, q)" "up q" "pending q = pending ?q @ [i]" using queue_up(1) [OF inv(2)] by blast
    with inv assms(2) RPush show ?thesis by (auto simp: nothing_lost_def upcoming_def on_queue_eq)
  qed
qed

lemma sys_step_keeps: "sys_step Q sched ord hb S T \<Longrightarrow> nothing_lost S \<Longrightarrow> nothing_lost T"
proof (induction rule: sys_step.induct)
  case (scheduler S pc w)
  then show ?case using sched_keeps by blast
next
  case (reaper S pc w)
  then show ?case using reap_keeps by blast
next
  case (stored j S w)
  obtain t where t: "CreateJob j (w_db (s_world S)) = (Inr (), t)" "w = (s_world S)\<lparr>w_db := t\<rparr>"
    using stored(2) by (auto simp: on_db_def split: prod.splits)
  with stored(3) CreateJob_waiting [OF _ t(1)] show ?case by (auto simp: nothing_lost_def upcoming_def)
next
  case (refused j S e w)
  obtain t where t: "CreateJob j (w_db (s_world S)) = (Inl e, t)" "w = (s_world S)\<lparr>w_db := t\<rparr>"
    using refused(2) by (auto simp: on_db_def split: prod.splits)
  with refused(3) CreateJob_waiting [OF _ t(1)] show ?case by (auto simp: nothing_lost_def upcoming_def)
next
  case (pushed i S a w)
  then have up: "up (w_queue (s_world S))" by (simp add: nothing_lost_def)
  obtain q where "q_Enqueue Q i (w_queue (s_world S)) = (None, q)" "up q" "pending q = pending (w_queue (s_world S)) @ [i]"
    using queue_up(1) [OF up] by blast
  with pushed have w: "w = (s_world S)\<lparr>w_queue := q\<rparr>" "up q" "pending q = pending (w_queue (s_world S)) @ [i]"
    by (auto simp: on_queue_eq)
  have "k \<in> set (remove1 i (s_hooks S)) \<or> k = i" if "k \<in> set (s_hooks S)" for k using that by (induction "s_hooks S") auto
  with pushed(3) w show ?case by (auto simp: nothing_lost_def upcoming_def)
next
  case (received x d S a w)
  then have up: "up (w_queue (s_world S))" by (simp add: nothing_lost_def)
  obtain b q where "q_Receive Q x d (w_queue (s_world S)) = (b, q)" "up q" "pending q = pending (w_queue (s_world S))"
    using queue_up(4) [OF up] by blast
  with received show ?case by (auto simp: nothing_lost_def upcoming_def on_queue_eq)
next
  case (client S s)
  with client_call_waiting [OF client(1)] show ?case by (auto simp: nothing_lost_def upcoming_def)
qed

lemma sys_steps_keep: "(sys_step Q sched ord hb)\<^sup>*\<^sup>* S T \<Longrightarrow> nothing_lost S \<Longrightarrow> nothing_lost T"
  by (induction rule: rtranclp_induct) (auto intro: sys_step_keeps)

end

end
