(* ===== verification/Api_Interleaving.thy ===== *)
theory Api_Interleaving
  imports Interleaving Api_Behaviour
begin

text \<open>
  The requests of the API in the step relation of \<open>Interleaving\<close>: while the database and the queue answer, what
  a request does to them is a run of \<open>sys_step\<close>, so the invariant of the control plane covers every
  request the API serves.
\<close>

section \<open>Requests that only call the database\<close>

definition harmless_ping :: "('q, 'g) server \<Rightarrow> bool" where
  "harmless_ping srv \<longleftrightarrow> (\<forall>ping q. sv_ping srv = Some ping \<longrightarrow> snd (ping q) = q)"

definition tame :: "('q, 'g) handler \<Rightarrow> bool" where
  "tame h \<longleftrightarrow> (\<forall>srv rq w. harmless_ping srv \<longrightarrow> db_script (w_db w) = [] \<longrightarrow>
     client_call\<^sup>*\<^sup>* (w_db w) (w_db (snd (h srv rq w))) \<and> w_queue (snd (h srv rq w)) = w_queue w)"

lemma tameI:
  "(\<And>srv rq w. harmless_ping srv \<Longrightarrow> db_script (w_db w) = [] \<Longrightarrow>
     client_call\<^sup>*\<^sup>* (w_db w) (w_db (snd (h srv rq w))) \<and> w_queue (snd (h srv rq w)) = w_queue w) \<Longrightarrow> tame h"
  by (simp add: tame_def)

text \<open>While the database answers, a read leaves it as it is.\<close>

lemma quiet_reads [simp]:
  assumes "db_script s = []"
  shows "snd (GetJob i s) = s" "snd (GetLogs i s) = s" "snd (GetRunner i s) = s" "snd (RunnerTokenHash i s) = s"
    "snd (ListRunners s) = s" "snd (ListJobs n s) = s" "snd (Ping s) = s"
  using assms
  by (auto simp: GetLogs_def GetRunner_def RunnerTokenHash_def ListRunners_def ListJobs_def Ping_def select_def
      split: option.splits)

lemma finish_calls:
  assumes "lifecycle_change to extra" "to \<noteq> JobQueued" "db_script s = []"
  shows "client_call\<^sup>*\<^sup>* s (snd (transition bad i to extra s))"
    and "client_call\<^sup>*\<^sup>* s (snd (case transition bad i to extra s of
        (Inl e, t) \<Rightarrow> (Inl e, t)
      | (Inr job, t) \<Rightarrow> (case j_runner_id job of Some x \<Rightarrow> releaseRunner x t | None \<Rightarrow> (Inr (), t))))"
proof -
  obtain a where g: "GetJob i s = (a, s)" using quiet_reads(1) [OF assms(3), of i] by (metis prod.exhaust_sel)
  have tr: "client_call\<^sup>*\<^sup>* s (snd (transition bad i to extra s))"
  proof (cases "\<exists>job. a = Inr job \<and> CanTransitionTo (j_status job) to")
    case True
    then obtain job where a: "a = Inr job" "CanTransitionTo (j_status job) to" by blast
    from client_call.changes [OF a(2) assms(1,2)] show ?thesis
      using a by (simp add: transition_def g r_into_rtranclp)
  next
    case False
    then show ?thesis by (cases a) (auto simp: transition_def g)
  qed
  show "client_call\<^sup>*\<^sup>* s (snd (transition bad i to extra s))" by (rule tr)
  show "client_call\<^sup>*\<^sup>* s (snd (case transition bad i to extra s of
        (Inl e, t) \<Rightarrow> (Inl e, t)
      | (Inr job, t) \<Rightarrow> (case j_runner_id job of Some x \<Rightarrow> releaseRunner x t | None \<Rightarrow> (Inr (), t))))"
    using tr by (auto split: prod.splits sum.splits option.splits intro: rtranclp.rtrancl_into_rtrancl client_call.releases)
qed

lemma method_calls:
  assumes "db_script s = []"
  shows "client_call\<^sup>*\<^sup>* s (snd (StartJob i s))" "client_call\<^sup>*\<^sup>* s (snd (CancelJob i s))"
    "client_call\<^sup>*\<^sup>* s (snd (AppendLogs i n c s))" "client_call\<^sup>*\<^sup>* s (snd (RegisterRunner r h s))"
    "client_call\<^sup>*\<^sup>* s (snd (Heartbeat x s))"
    "st = JobSuccess \<or> st = JobFailed \<Longrightarrow> client_call\<^sup>*\<^sup>* s (snd (CompleteJob i st code msg s))"
proof -
  show "client_call\<^sup>*\<^sup>* s (snd (StartJob i s))"
    using finish_calls(1) [OF lifecycle_change.to_running _ assms, of None i]
    by (auto simp: StartJob_def split: prod.splits sum.splits)
  show "client_call\<^sup>*\<^sup>* s (snd (CancelJob i s))"
    unfolding CancelJob_def by (rule finish_calls(2) [OF lifecycle_change.to_cancelled _ assms]) simp
  show "st = JobSuccess \<or> st = JobFailed \<Longrightarrow> client_call\<^sup>*\<^sup>* s (snd (CompleteJob i st code msg s))"
    unfolding CompleteJob_def by (rule finish_calls(2) [OF _ _ assms]) (auto intro: lifecycle_change.intros)
qed (auto intro: client_call.intros)

lemma calls_script: "client_call\<^sup>*\<^sup>* s t \<Longrightarrow> db_script s = [] \<Longrightarrow> db_script t = []"
  by (induction rule: rtranclp_induct) (auto dest: client_call_waiting)

lemma tame_reads:
  "tame handleHealth" "tame handleReady" "tame handleListRunners" "tame handleGetRunner"
  "tame handleListJobs" "tame handleGetJob" "tame handleGetJobLogs"
  by (rule tameI; auto simp: handleHealth_def handleReady_def handleListRunners_def handleGetRunner_def handleListJobs_def
        handleGetJob_def handleGetJobLogs_def harmless_ping_def api_defs Let_def split: api_splits)+

lemma tame_register: "tame handleRegister"
  by (rule tameI; use method_calls(4) in \<open>auto simp: handleRegister_def api_defs split: api_splits\<close>)

lemma tame_cancel: "tame handleCancelJob"
  by (rule tameI; use method_calls(2) in \<open>auto simp: handleCancelJob_def api_defs split: api_splits\<close>)

lemma quiet_checks [simp]:
  assumes "db_script (w_db w) = []"
  shows "snd (runnerOwnsJob rq i w) = w" "snd (leaseLost x i w) = w" "w_db (report_job i st d w) = w_db w"
    "w_queue (report_job i st d w) = w_queue w"
  using assms by (auto simp: runnerOwnsJob_def leaseLost_def report_job_def api_defs split: sum.splits option.splits)

lemma tame_heartbeat: "tame handleHeartbeat"
proof (rule tameI)
  fix srv :: "('a, 'b) server" and rq :: request and w :: "('a, 'b) api_world"
  assume s: "db_script (w_db w) = []"
  obtain a t where h: "Heartbeat (rq_id rq) (w_db w) = (a, t)" by force
  with method_calls(5) [OF s, of "rq_id rq"] have b: "client_call\<^sup>*\<^sup>* (w_db w) t" by simp
  have l: "snd (leaseLost x i (w\<lparr>w_db := t\<rparr>)) = w\<lparr>w_db := t\<rparr>" for x i
    by (rule quiet_checks) (simp add: calls_script [OF b s])
  show "client_call\<^sup>*\<^sup>* (w_db w) (w_db (snd (handleHeartbeat srv rq w))) \<and> w_queue (snd (handleHeartbeat srv rq w)) = w_queue w"
    using b by (cases a) (simp_all add: handleHeartbeat_def on_db_eq h Let_def writeJSON_def respond_def l case_prod_beta)
qed

lemma owned:
  assumes "db_script (w_db w) = []"
  obtains owns where "runnerOwnsJob rq i w = (owns, w)"
  using quiet_checks(1) [OF assms, of rq i] by (metis prod.exhaust_sel)

lemma tame_start: "tame handleJobStart"
proof (rule tameI)
  fix srv :: "('a, 'b) server" and rq :: request and w :: "('a, 'b) api_world"
  assume s: "db_script (w_db w) = []"
  obtain owns where o: "runnerOwnsJob rq (rq_id rq) w = (owns, w)" using owned [OF s] by blast
  note b = method_calls(1) [OF s, of "rq_id rq"]
  show "client_call\<^sup>*\<^sup>* (w_db w) (w_db (snd (handleJobStart srv rq w))) \<and> w_queue (snd (handleJobStart srv rq w)) = w_queue w"
    using b calls_script [OF b s] by (auto simp: handleJobStart_def o on_db_eq split: api_splits)
qed

lemma tame_logs: "tame handleJobLogs"
proof (rule tameI)
  fix srv :: "('a, 'b) server" and rq :: request and w :: "('a, 'b) api_world"
  assume s: "db_script (w_db w) = []"
  obtain owns where o: "runnerOwnsJob rq (rq_id rq) w = (owns, w)" using owned [OF s] by blast
  show "client_call\<^sup>*\<^sup>* (w_db w) (w_db (snd (handleJobLogs srv rq w))) \<and> w_queue (snd (handleJobLogs srv rq w)) = w_queue w"
    using method_calls(3) [OF s, of "rq_id rq"] by (auto simp: handleJobLogs_def o on_db_eq split: api_splits)
qed

lemma tame_result: "tame handleJobResult"
proof (rule tameI)
  fix srv :: "('a, 'b) server" and rq :: request and w :: "('a, 'b) api_world"
  assume s: "db_script (w_db w) = []"
  obtain owns where o: "runnerOwnsJob rq (rq_id rq) w = (owns, w)" using owned [OF s] by blast
  have b: "client_call\<^sup>*\<^sup>* (w_db w) (snd (CompleteJob (rq_id rq) st code msg (w_db w)))"
    "db_script (snd (CompleteJob (rq_id rq) st code msg (w_db w))) = []" if "result_status x = Some st" for x st code msg
    using method_calls(6) [OF s result_status_Some [OF that]] calls_script [OF _ s] by blast+
  show "client_call\<^sup>*\<^sup>* (w_db w) (w_db (snd (handleJobResult srv rq w))) \<and> w_queue (snd (handleJobResult srv rq w)) = w_queue w"
    using b by (auto simp: handleJobResult_def o on_db_eq Let_def split: api_splits)
qed

lemmas tame_handlers = tame_reads tame_register tame_cancel tame_heartbeat tame_start tame_logs tame_result

lemma auth_quiet:
  assumes "db_script (w_db w) = []"
  shows "withRunnerAuth h srv rq w = h srv rq w \<or> snd (withRunnerAuth h srv rq w) = w"
proof -
  obtain a where "RunnerTokenHash (auth_id rq) (w_db w) = (a, w_db w)"
    using quiet_reads(4) [OF assms] by (metis prod.exhaust_sel)
  then show ?thesis by (cases a) (simp_all add: withRunnerAuth_def on_db_eq Let_def)
qed

section \<open>Every request is a run of the control plane\<close>

text \<open>
  \<open>world.truncate\<close> forgets what only the API has (the GitHub client); the loops of the other goroutines stand
  where they are. A webhook is the two steps \<open>stored\<close> and \<open>pushed\<close>, a poll is \<open>received\<close>.
\<close>

context job_queue
begin

definition scheduled :: "policy \<Rightarrow> ((string \<times> string) list \<Rightarrow> (string \<times> string) list) \<Rightarrow> duration \<Rightarrow> ('q, 'g) handler \<Rightarrow> bool" where
  "scheduled sched ord hb h \<longleftrightarrow> (\<forall>srv rq w S. sv_queue srv = Q \<longrightarrow> harmless_ping srv \<longrightarrow> db_script (w_db w) = [] \<longrightarrow>
     up (w_queue w) \<longrightarrow> s_world S = world.truncate w \<longrightarrow>
     (sys_step Q sched ord hb)\<^sup>*\<^sup>* S (S\<lparr>s_world := world.truncate (snd (h srv rq w))\<rparr>))"

lemma scheduledI:
  "(\<And>srv rq w S. sv_queue srv = Q \<Longrightarrow> harmless_ping srv \<Longrightarrow> db_script (w_db w) = [] \<Longrightarrow> up (w_queue w) \<Longrightarrow>
     s_world S = world.truncate w \<Longrightarrow>
     (sys_step Q sched ord hb)\<^sup>*\<^sup>* S (S\<lparr>s_world := world.truncate (snd (h srv rq w))\<rparr>)) \<Longrightarrow> scheduled sched ord hb h"
  by (simp add: scheduled_def)

lemma client_runs:
  assumes "client_call\<^sup>*\<^sup>* s t" "w_db (s_world S) = s"
  shows "(sys_step Q sched ord hb)\<^sup>*\<^sup>* S (S\<lparr>s_world := (s_world S)\<lparr>w_db := t\<rparr>\<rparr>)"
  using assms(1)
proof (induction rule: rtranclp_induct)
  case base
  have "S\<lparr>s_world := (s_world S)\<lparr>w_db := s\<rparr>\<rparr> = S" by (simp flip: assms(2))
  then show ?case by simp
next
  case (step t u)
  from sys_step.client [of "S\<lparr>s_world := (s_world S)\<lparr>w_db := t\<rparr>\<rparr>" u Q sched ord hb] step
  show ?case by simp
qed

lemma tame_scheduled:
  fixes h :: "('q, 'g) handler"
  shows "tame h \<Longrightarrow> scheduled sched ord hb h"
proof (rule scheduledI)
  fix srv :: "('q, 'g) server" and rq :: request and w :: "('q, 'g) api_world" and S :: "'q sys"
  assume h: "tame h" "harmless_ping srv" "db_script (w_db w) = []" and S: "s_world S = world.truncate w"
  then have c: "client_call\<^sup>*\<^sup>* (w_db w) (w_db (snd (h srv rq w)))" "w_queue (snd (h srv rq w)) = w_queue w"
    by (auto simp: tame_def)
  then have "(s_world S)\<lparr>w_db := w_db (snd (h srv rq w))\<rparr> = world.truncate (snd (h srv rq w))"
    by (simp add: S world.truncate_def)
  moreover have "w_db (s_world S) = w_db w" by (simp add: S world.truncate_def)
  ultimately show "(sys_step Q sched ord hb)\<^sup>*\<^sup>* S (S\<lparr>s_world := world.truncate (snd (h srv rq w))\<rparr>)"
    using client_runs [OF c(1), of S sched ord hb] by simp
qed

lemma scheduled_poll: "scheduled sched ord hb handlePollJob"
proof (rule scheduledI)
  fix srv :: "('q, 'g) server" and rq :: request and w :: "('q, 'g) api_world" and S :: "'q sys"
  assume q: "sv_queue srv = Q" and s: "db_script (w_db w) = []" and u: "up (w_queue w)" and S: "s_world S = world.truncate w"
  let ?r = "q_Receive Q (rq_id rq) (25 * second) (w_queue w)"
  have "world.truncate (snd (handlePollJob srv rq w)) = (world.truncate w)\<lparr>w_queue := snd ?r\<rparr>"
    using s by (auto simp: handlePollJob_def q api_defs world.truncate_def split: api_splits)
  moreover have "on_queue (q_Receive Q (rq_id rq) (25 * second)) (s_world S) = (fst ?r, (world.truncate w)\<lparr>w_queue := snd ?r\<rparr>)"
    by (simp add: S on_queue_eq world.truncate_def)
  ultimately show "(sys_step Q sched ord hb)\<^sup>*\<^sup>* S (S\<lparr>s_world := world.truncate (snd (handlePollJob srv rq w))\<rparr>)"
    by (metis r_into_rtranclp sys_step.received)
qed

lemma webhook_world:
  fixes w :: "('q, 'g) api_world"
  assumes "sv_queue srv = Q" "up (w_queue w)"
  obtains "snd (handleWebhook srv rq w) = w"
  | ev e t where "CreateJob (webhook_job (rq_uuid rq) ev) (w_db w) = (Inl e, t)" "snd (handleWebhook srv rq w) = w\<lparr>w_db := t\<rparr>"
  | ev t q' where "CreateJob (webhook_job (rq_uuid rq) ev) (w_db w) = (Inr (), t)"
      "q_Enqueue Q (j_id (webhook_job (rq_uuid rq) ev)) (w_queue w) = (None, q')"
      "world.truncate (snd (handleWebhook srv rq w)) = (world.truncate w)\<lparr>w_db := t, w_queue := q'\<rparr>"
proof (cases "ReadAll_limited (2 ^ 20) (rq_body rq)")
  case (Some b)
  show thesis
  proof (cases "VerifySignature (sv_hmac srv) (c_GitHubWebhookSecret (sv_cfg srv)) b (rq_header rq ''X-Hub-Signature-256'')")
    case None
    note given = Some None
    show thesis
    proof (cases "ParseEvent (sv_push srv) (sv_pull_request srv) (rq_header rq ''X-GitHub-Event'') b")
      case (Inr ev)
      obtain a t where c: "CreateJob (webhook_job (rq_uuid rq) ev) (w_db w) = (a, t)" by force
      obtain q' where e: "q_Enqueue Q (j_id (webhook_job (rq_uuid rq) ev)) (w_queue w) = (None, q')"
        using queue_up(1) [OF assms(2)] by blast
      show thesis
      proof (cases a)
        case (Inl e)
        from that(2) [OF c [unfolded Inl]] show thesis
          using given Inr c Inl by (simp add: handleWebhook_def on_db_eq Let_def)
      next
        case (Inr u)
        from that(3) [OF c [unfolded Inr unit_eq [of u]] e] show thesis
          using given \<open>ParseEvent _ _ _ _ = _\<close> c e Inr
          by (simp add: handleWebhook_def assms(1) on_defs go_report_def world.truncate_def Let_def)
      qed
    qed (use given that(1) in \<open>simp add: handleWebhook_def\<close>)
  qed (use Some that(1) in \<open>simp add: handleWebhook_def\<close>)
qed (use that(1) in \<open>simp add: handleWebhook_def\<close>)

lemma scheduled_webhook: "scheduled sched ord hb handleWebhook"
proof (rule scheduledI)
  fix srv :: "('q, 'g) server" and rq :: request and w :: "('q, 'g) api_world" and S :: "'q sys"
  assume q: "sv_queue srv = Q" and s: "db_script (w_db w) = []" and u: "up (w_queue w)" and S: "s_world S = world.truncate w"
  let ?W = "world.truncate (snd (handleWebhook srv rq w))"
  show "(sys_step Q sched ord hb)\<^sup>*\<^sup>* S (S\<lparr>s_world := ?W\<rparr>)"
  proof (rule webhook_world [OF q u, of rq])
    assume "snd (handleWebhook srv rq w) = w"
    then show ?thesis by (simp flip: S)
  next
    fix ev e t
    let ?j = "webhook_job (rq_uuid rq) ev"
    assume "CreateJob ?j (w_db w) = (Inl e, t)" "snd (handleWebhook srv rq w) = w\<lparr>w_db := t\<rparr>"
    then have "on_db (CreateJob ?j) (s_world S) = (Inl e, ?W)" by (simp add: S on_db_eq world.truncate_def)
    from sys_step.refused [OF _ this] show ?thesis by (simp add: webhook_job_def r_into_rtranclp)
  next
    fix ev t q'
    let ?j = "webhook_job (rq_uuid rq) ev"
    assume c: "CreateJob ?j (w_db w) = (Inr (), t)" "q_Enqueue Q (j_id ?j) (w_queue w) = (None, q')"
      and W: "?W = (world.truncate w)\<lparr>w_db := t, w_queue := q'\<rparr>"
    let ?T = "S\<lparr>s_world := (world.truncate w)\<lparr>w_db := t\<rparr>, s_hooks := j_id ?j # s_hooks S\<rparr>"
    have "sys_step Q sched ord hb S ?T"
      by (rule sys_step.stored) (simp_all add: webhook_job_def S c(1) [unfolded webhook_job_def] on_db_eq world.truncate_def)
    moreover have "sys_step Q sched ord hb ?T (?T\<lparr>s_world := ?W, s_hooks := remove1 (j_id ?j) (s_hooks ?T)\<rparr>)"
      by (rule sys_step.pushed [where a = None]) (use c W in \<open>simp_all add: on_queue_eq world.truncate_def\<close>)
    ultimately show ?thesis by simp
  qed
qed

lemma scheduled_auth:
  fixes h :: "('q, 'g) handler"
  shows "scheduled sched ord hb h \<Longrightarrow> scheduled sched ord hb (withRunnerAuth h)"
proof (rule scheduledI)
  fix srv :: "('q, 'g) server" and rq :: request and w :: "('q, 'g) api_world" and S :: "'q sys"
  assume h: "scheduled sched ord hb h" "sv_queue srv = Q" "harmless_ping srv" "up (w_queue w)" "s_world S = world.truncate w"
    and s: "db_script (w_db w) = []"
  from auth_quiet [OF s, of h srv rq] show "(sys_step Q sched ord hb)\<^sup>*\<^sup>* S (S\<lparr>s_world := world.truncate (snd (withRunnerAuth h srv rq w))\<rparr>)"
  proof
    assume "snd (withRunnerAuth h srv rq w) = w"
    then show ?thesis by (simp flip: h(5))
  next
    assume "withRunnerAuth h srv rq w = h srv rq w"
    then show ?thesis using h s by (simp add: scheduled_def)
  qed
qed

lemma route_table_scheduled: "(m, p, h) \<in> set route_table \<Longrightarrow> scheduled sched ord hb h"
  by (auto simp: route_table_def intro!: tame_handlers [THEN tame_scheduled] scheduled_poll scheduled_webhook scheduled_auth)

lemma Routes_scheduled:
  fixes w :: "('q, 'g) api_world"
  assumes "sv_queue srv = Q" "harmless_ping srv" "db_script (w_db w) = []" "up (w_queue w)" "s_world S = world.truncate w"
  shows "(sys_step Q sched ord hb)\<^sup>*\<^sup>* S (S\<lparr>s_world := world.truncate (snd (Routes meth path srv rq w))\<rparr>)"
proof -
  have "(sys_step Q sched ord hb)\<^sup>*\<^sup>* S (S\<lparr>s_world := world.truncate (snd (mux meth path srv rq w))\<rparr>)" for rq
  proof (cases "pick meth (matching path :: (string \<times> string \<times> ('q, 'g) handler) list)")
    case None
    then show ?thesis by (simp add: mux_def Let_def flip: assms(5))
  next
    case (Some hit)
    obtain m pat h where hit: "hit = (m, pat, h)" by (cases hit) auto
    then have "scheduled sched ord hb h" using Some pick_matching route_table_scheduled by blast
    with Some hit assms show ?thesis by (simp add: mux_def Let_def scheduled_def)
  qed
  then show ?thesis
    by (cases "mux meth path srv rq w") (simp add: Routes_def withRequestID_def Let_def, metis snd_conv)
qed

end

end
