(* ===== verification/Control_Properties.thy ===== *)
theory Control_Properties
  imports Api_Interleaving Api_Properties
begin

text \<open>
  Properties of the control plane under concurrency: the scheduler loop, the reaper loop and the requests of the
  API take turns call by call (\<open>sys_step\<close>), on any Redis server with the documented behaviour.
\<close>

definition at_rest :: "'q sys \<Rightarrow> bool" where
  "at_rest S \<longleftrightarrow> s_sched S = SIdle \<and> s_reap S = RIdle \<and> s_hooks S = []"

lemma upcoming_rest: "at_rest S \<Longrightarrow> upcoming pending S = set (pending (w_queue (s_world S)))"
  by (simp add: at_rest_def upcoming_def)

definition sample_sys :: "mem sys" where
  "sample_sys = \<lparr>s_world = \<lparr>w_db = pool, w_queue = mem_with [''a'', ''b''] [] []\<rparr>, s_sched = SIdle, s_reap = RIdle, s_hooks = []\<rparr>"

section \<open>No job is lost\<close>

text \<open>C2: No job is lost, however the loops and the requests interleave. Start with both loops at rest and
  every QUEUED job in the queue, and let the scheduler, the reaper, webhooks, polls and the other requests take
  turns, one database or queue call at a time, while PostgreSQL and Redis answer: after any number of
  such steps, every job that is QUEUED is in the queue, or in the hands of the scheduler, of the reaper or of a
  webhook which will push it or place it with its next calls. When they are at rest again, it is in the queue.\<close>

theorem no_job_lost:
  assumes "redis_server R rlists up ttl" and "at_rest S" and "db_script (w_db (s_world S)) = []"
    and "up (w_queue (s_world S))" and "waiting_jobs (w_db (s_world S)) \<subseteq> set (wait_list rlists (w_queue (s_world S)))"
    and "(sys_step (redis_queue R) sched ord hb)\<^sup>*\<^sup>* S T"
  shows "waiting_jobs (w_db (s_world T)) \<subseteq> upcoming (wait_list rlists) T
    \<and> (at_rest T \<longrightarrow> waiting_jobs (w_db (s_world T)) \<subseteq> set (wait_list rlists (w_queue (s_world T))))"
proof -
  note q = redis_server.is_queue [OF assms(1)]
  have "job_queue.nothing_lost (wait_list rlists) up S"
    using assms(2-5) by (simp add: job_queue.nothing_lost_def [OF q] upcoming_rest) (simp add: at_rest_def)
  from job_queue.sys_steps_keep [OF q assms(6) this] show ?thesis
    by (auto simp: job_queue.nothing_lost_def [OF q] upcoming_rest)
qed

lemma sample_step:
  "sys_step (redis_queue mem_redis) Schedule (\<lambda>es. es) hb sample_sys
     (sample_sys\<lparr>s_world := \<lparr>w_db = pool, w_queue = mem_with [''b''] [''a''] []\<rparr>, s_sched := SGot ''a''\<rparr>)"
  by (rule sys_step.scheduler) (simp add: sample_sys_def on_queue_eq redis_queue_def Dequeue_def mem_with_def mem_eval)

theorem no_job_lost_witness:
  "\<exists>T. (sys_step (redis_queue mem_redis) Schedule (\<lambda>es. es) (30 * second))\<^sup>*\<^sup>* sample_sys T \<and> s_sched T = SGot ''a''
     \<and> {''a'', ''b''} \<subseteq> waiting_jobs (w_db (s_world T)) \<and> {''a'', ''b''} \<subseteq> upcoming (wait_list m_lists) T"
proof -
  let ?T = "sample_sys\<lparr>s_world := \<lparr>w_db = pool, w_queue = mem_with [''b''] [''a''] []\<rparr>, s_sched := SGot ''a''\<rparr>"
  have "waiting_jobs pool = {''a'', ''b''}" by (auto simp: waiting_rows pool_eq split: if_splits)
  moreover have run: "(sys_step (redis_queue mem_redis) Schedule (\<lambda>es. es) (30 * second))\<^sup>*\<^sup>* sample_sys ?T"
    by (rule r_into_rtranclp) (rule sample_step)
  ultimately show ?thesis
    using no_job_lost [OF mem.redis_server_axioms _ _ _ _ run]
    by (intro exI [of _ ?T] conjI run) (simp_all add: at_rest_def sample_sys_def)
qed

text \<open>The database has to answer: when the UPDATE of \<open>RequeueJob\<close> succeeds and the release of the runner after it
  fails, the reaper skips the push, and the job is QUEUED with nothing left to push its id.\<close>

theorem failed_release_loses_job:
  "(let w = rescue (redis_queue mem_redis) (''x'', ''a'')
        \<lparr>w_db = busy_pool\<lparr>db_script := [Okay, Okay, Fails ''reset'']\<rparr>, w_queue = mem_with [] [] []\<rparr>
    in map_option j_status (row_at j_id ''a'' (jobs (w_db w))) = Some JobQueued \<and> wait_list m_lists (w_queue w) = [])"
  by code_simp

section \<open>The step relation is the code\<close>


text \<open>Every request is a run of the steps. While PostgreSQL and Redis answer, what any request to any path
  does to the database and the queue is done by steps of the control plane, with the loops of the other goroutines
  left where they stand.\<close>

theorem requests_interleave:
  fixes srv :: "('q, 'g) server" and w :: "('q, 'g) api_world"
  assumes "redis_server R rlists up ttl" and "sv_queue srv = redis_queue R" and "harmless_ping srv"
    and "db_script (w_db w) = []" and "up (w_queue w)" and "s_world S = world.truncate w"
  shows "(sys_step (redis_queue R) sched ord hb)\<^sup>*\<^sup>* S (S\<lparr>s_world := world.truncate (snd (Routes meth path srv rq w))\<rparr>)"
  by (rule job_queue.Routes_scheduled [OF redis_server.is_queue [OF assms(1)] assms(2-6)])

theorem requests_interleave_witness:
  "\<exists>w'. (sys_step (redis_queue mem_redis) Schedule (\<lambda>es. es) (30 * second))\<^sup>*\<^sup>* sample_sys (sample_sys\<lparr>s_world := w'\<rparr>)
     \<and> map_option j_status (job_at (w_db w') ''a'') = Some JobCancelled"
proof -
  let ?w = "sample_state pool [''a'', ''b''] []" and ?rq = "sample_request [] [] [] []" and ?p = "''/api/v1/jobs/a/cancel''"
  have "harmless_ping sample_server" by (simp add: harmless_ping_def sample_server_def)
  from requests_interleave [OF mem.redis_server_axioms _ this, of ?w sample_sys Schedule "\<lambda>es. es" "30 * second" "''POST''" ?p ?rq]
  have "(sys_step (redis_queue mem_redis) Schedule (\<lambda>es. es) (30 * second))\<^sup>*\<^sup>* sample_sys
      (sample_sys\<lparr>s_world := world.truncate (snd (Routes ''POST'' ?p sample_server ?rq ?w))\<rparr>)"
    by (simp add: sample_server_def sample_state_def sample_sys_def world.truncate_def)
  moreover have "map_option j_status (row_at j_id ''a'' (jobs (w_db (snd (Routes ''POST'' ?p sample_server ?rq ?w))))) = Some JobCancelled"
    by code_simp
  ultimately show ?thesis unfolding job_at_def by (metis world.select_convs(1) world.truncate_def)
qed

end
