(* ===== verification/Json.thy ===== *)
theory Json
  imports Store Go_Strings
begin

text \<open>
  What the code uses of Go's \<^verbatim>\<open>encoding/json\<close>, byte by byte. \<open>encode\<close> is \<^verbatim>\<open>json.Marshal\<close> of a value whose members are
  already in order: compact, with \<^verbatim>\<open><\<close>, \<^verbatim>\<open>>\<close>, \<^verbatim>\<open>&\<close>, U+2028 and U+2029 escaped and every byte that is not UTF-8 replaced by U+FFFD.
  \<open>decode_json\<close> is one \<^verbatim>\<open>Decode\<close> of a \<^verbatim>\<open>json.Decoder\<close>: it reads one value and leaves the rest of the stream; nesting is
  limited to 10000, as in the package. Numbers are kept as their text, since the code only reads integers.
\<close>

section \<open>Characters\<close>

definition rune_rest :: "nat \<Rightarrow> (nat \<times> nat) list option" where
  "rune_rest b = (if b = 0 then Some [] else utf8_rest b)"
  \<comment> \<open>as in the store, but the byte 0 is a character\<close>

fun take_ranges :: "(nat \<times> nat) list \<Rightarrow> string \<Rightarrow> (string \<times> string) option" where
  "take_ranges [] s = Some ([], s)"
| "take_ranges (need # needs) [] = None"
| "take_ranges ((lo, hi) # needs) (c # s) =
     (if lo \<le> of_char c \<and> of_char c \<le> hi
      then (case take_ranges needs s of None \<Rightarrow> None | Some (k, r) \<Rightarrow> Some (c # k, r)) else None)"

definition next_rune :: "string \<Rightarrow> (string \<times> string) option" where
  "next_rune s = (case s of [] \<Rightarrow> None
     | c # cs \<Rightarrow> (case rune_rest (of_char c) of None \<Rightarrow> None
         | Some needs \<Rightarrow> (case take_ranges needs cs of None \<Rightarrow> None | Some (k, r) \<Rightarrow> Some (c # k, r))))"
  \<comment> \<open>\<open>utf8.DecodeRune\<close>: the bytes of a valid character and what follows\<close>

lemma take_ranges_split: "take_ranges needs s = Some (k, r) \<Longrightarrow> s = k @ r \<and> length k = length needs"
  by (induction needs s arbitrary: k rule: take_ranges.induct) (auto split: if_splits option.splits)

lemma next_rune_split: "next_rune s = Some (k, r) \<Longrightarrow> s = k @ r \<and> k \<noteq> []"
  by (auto simp: next_rune_def dest: take_ranges_split split: list.splits option.splits)

lemma next_rune_less [simp]: "next_rune s = Some (k, r) \<Longrightarrow> length r < length s"
  using next_rune_split by fastforce

text \<open>The characters of a text, an invalid byte as \<open>None\<close>.\<close>

function runes :: "string \<Rightarrow> string option list" where
  "runes [] = []"
| "runes (c # cs) =
     (case next_rune (c # cs) of None \<Rightarrow> None # runes cs | Some (k, r) \<Rightarrow> Some k # runes r)"
  by pat_completeness auto
termination
  by (relation "measure length") (auto dest: next_rune_less)

definition replacement :: string where
  "replacement = [CHR 0xEF, CHR 0xBF, CHR 0xBD]"

definition rune_bytes :: "string option \<Rightarrow> string" where
  "rune_bytes k = (case k of None \<Rightarrow> replacement | Some b \<Rightarrow> b)"

definition to_valid :: "string \<Rightarrow> string" where
  "to_valid s = concat (map rune_bytes (runes s))"

section \<open>Strings\<close>

abbreviation quote :: char where "quote \<equiv> CHR 0x22"
abbreviation backslash :: char where "backslash \<equiv> CHR 0x5C"

definition hex4 :: "nat \<Rightarrow> string" where
  "hex4 n = [hex_digit (n div 4096 mod 16), hex_digit (n div 256 mod 16), hex_digit (n div 16 mod 16), hex_digit (n mod 16)]"

definition u_escape :: "nat \<Rightarrow> string" where
  "u_escape n = backslash # CHR ''u'' # hex4 n"

definition escape_ascii :: "char \<Rightarrow> string" where
  "escape_ascii c =
     (let n = of_char c :: nat in
      if c = quote \<or> c = backslash then [backslash, c]
      else if n = 8 then [backslash, CHR ''b'']
      else if n = 12 then [backslash, CHR ''f'']
      else if n = 10 then [backslash, CHR ''n'']
      else if n = 13 then [backslash, CHR ''r'']
      else if n = 9 then [backslash, CHR ''t'']
      else if n < 32 \<or> c = CHR ''<'' \<or> c = CHR ''>'' \<or> c = CHR ''&'' then u_escape n
      else [c])"

definition escape_rune :: "string option \<Rightarrow> string" where
  "escape_rune k =
     (case k of
        None \<Rightarrow> u_escape 65533
      | Some b \<Rightarrow>
          if length b = 1 then escape_ascii (hd b)
          else if b = [CHR 0xE2, CHR 0x80, CHR 0xA8] then u_escape 8232
          else if b = [CHR 0xE2, CHR 0x80, CHR 0xA9] then u_escape 8233
          else b)"

definition encode_string :: "string \<Rightarrow> string" where
  "encode_string s = quote # concat (map escape_rune (runes s)) @ [quote]"

definition utf8_encode :: "nat \<Rightarrow> string" where
  "utf8_encode n =
     (if n < 128 then [char_of n]
      else if n < 2048 then [char_of (192 + n div 64), char_of (128 + n mod 64)]
      else if n < 65536 then [char_of (224 + n div 4096), char_of (128 + n div 64 mod 64), char_of (128 + n mod 64)]
      else [char_of (240 + n div 262144), char_of (128 + n div 4096 mod 64), char_of (128 + n div 64 mod 64), char_of (128 + n mod 64)])"

definition getu4 :: "string \<Rightarrow> (nat \<times> string) option" where
  "getu4 s = (case s of
     a # b # c # d # r \<Rightarrow>
       (case (hex_value a, hex_value b, hex_value c, hex_value d) of
          (Some w, Some x, Some y, Some z) \<Rightarrow> Some (w * 4096 + x * 256 + y * 16 + z, r)
        | _ \<Rightarrow> None)
   | _ \<Rightarrow> None)"

text \<open>A surrogate is read together with the one after it, or replaced.\<close>

definition low_surrogate :: "string \<Rightarrow> (nat \<times> string) option" where
  "low_surrogate s = (case s of
     e # u # r \<Rightarrow> if e = backslash \<and> u = CHR ''u''
        then (case getu4 r of Some (n, r') \<Rightarrow> if 56320 \<le> n \<and> n < 57344 then Some (n, r') else None | None \<Rightarrow> None) else None
   | _ \<Rightarrow> None)"

definition code_point :: "nat \<Rightarrow> string \<Rightarrow> string \<times> string" where
  "code_point n r =
     (if n < 55296 \<or> 57344 \<le> n then (utf8_encode n, r)
      else if 56320 \<le> n then (replacement, r)
      else (case low_surrogate r of
              None \<Rightarrow> (replacement, r)
            | Some (m, r') \<Rightarrow> (utf8_encode (65536 + (n - 55296) * 1024 + (m - 56320)), r')))"

definition unescape :: "string \<Rightarrow> (string \<times> string) option" where
  "unescape s = (case s of [] \<Rightarrow> None
     | c # r \<Rightarrow>
         if c = quote \<or> c = backslash \<or> c = CHR ''/'' then Some ([c], r)
         else if c = CHR ''b'' then Some ([CHR 0x08], r)
         else if c = CHR ''f'' then Some ([CHR 0x0C], r)
         else if c = CHR ''n'' then Some ([CHR 0x0A], r)
         else if c = CHR ''r'' then Some ([CHR 0x0D], r)
         else if c = CHR ''t'' then Some ([CHR 0x09], r)
         else if c = CHR ''u'' then map_option (\<lambda>(n, r'). code_point n r') (getu4 r)
         else None)"

lemma getu4_less: "getu4 s = Some (n, r) \<Longrightarrow> length r < length s"
  by (auto simp: getu4_def split: list.splits option.splits)

lemma code_point_le: "length (snd (code_point n r)) \<le> length r"
  by (auto simp: code_point_def low_surrogate_def dest: getu4_less split: list.splits option.splits if_splits)

lemma unescape_less: "unescape s = Some (b, r) \<Longrightarrow> length r < length s"
  using code_point_le
  by (auto simp: unescape_def dest!: getu4_less split: list.splits if_splits)
    (metis le_less_trans less_Suc_eq snd_conv)

text \<open>The text up to the closing quote, which is consumed.\<close>

definition prepend :: "string \<Rightarrow> (string \<times> string) option \<Rightarrow> (string \<times> string) option" where
  "prepend b x = map_option (\<lambda>(t, r). (b @ t, r)) x"

function read_string :: "string \<Rightarrow> (string \<times> string) option" where
  "read_string [] = None"
| "read_string (c # cs) =
     (if c = quote then Some ([], cs)
      else if c = backslash then (case unescape cs of None \<Rightarrow> None | Some (b, r) \<Rightarrow> prepend b (read_string r))
      else if of_char c < (32 :: nat) then None
      else (case next_rune (c # cs) of
              None \<Rightarrow> prepend replacement (read_string cs)
            | Some (k, r) \<Rightarrow> prepend k (read_string r)))"
  by pat_completeness auto
termination
  by (relation "measure length") (auto dest: next_rune_less unescape_less)

section \<open>Values\<close>

datatype json =
    JNull
  | JBool bool
  | JNum string
  | JStr string
  | JArr "json list"
  | JObj "(string \<times> json) list"

definition commas :: "string list \<Rightarrow> string" where
  "commas xs = (case xs of [] \<Rightarrow> [] | y # ys \<Rightarrow> y @ concat (map ((#) CHR '','') ys))"

fun encode :: "json \<Rightarrow> string" where
  "encode JNull = ''null''"
| "encode (JBool b) = (if b then ''true'' else ''false'')"
| "encode (JNum t) = t"
| "encode (JStr s) = encode_string s"
| "encode (JArr vs) = CHR ''['' # commas (map encode vs) @ '']''"
| "encode (JObj ms) = CHR ''{'' # commas (map (\<lambda>(k, v). encode_string k @ CHR '':'' # encode v) ms) @ ''}''"

definition skip :: "string \<Rightarrow> string" where
  "skip = dropWhile (\<lambda>c. c = CHR '' '' \<or> c = CHR 0x09 \<or> c = CHR 0x0A \<or> c = CHR 0x0D)"

definition is_digit :: "char \<Rightarrow> bool" where
  "is_digit c \<longleftrightarrow> digit_value c \<noteq> None"

text \<open>The grammar of numbers: a sign, an integer without leading zeros, a fraction, an exponent.\<close>

definition read_digits :: "string \<Rightarrow> (string \<times> string) option" where
  "read_digits s = (if takeWhile is_digit s = [] then None else Some (takeWhile is_digit s, dropWhile is_digit s))"

definition read_int :: "string \<Rightarrow> (string \<times> string) option" where
  "read_int s = (case s of c # r \<Rightarrow> if c = CHR ''0'' then Some ([c], r) else read_digits s | [] \<Rightarrow> None)"

definition read_fraction :: "string \<Rightarrow> (string \<times> string) option" where
  "read_fraction s = (case s of c # r \<Rightarrow> if c = CHR ''.'' then prepend [c] (read_digits r) else Some ([], s) | [] \<Rightarrow> Some ([], s))"

definition read_exponent :: "string \<Rightarrow> (string \<times> string) option" where
  "read_exponent s = (case s of
     c # r \<Rightarrow>
       if c = CHR ''e'' \<or> c = CHR ''E''
       then (case r of
               d # r' \<Rightarrow> if d = CHR ''+'' \<or> d = CHR ''-'' then prepend [c, d] (read_digits r') else prepend [c] (read_digits r)
             | [] \<Rightarrow> None)
       else Some ([], s)
   | [] \<Rightarrow> Some ([], s))"

definition and_then :: "(string \<times> string) option \<Rightarrow> (string \<Rightarrow> (string \<times> string) option) \<Rightarrow> (string \<times> string) option" where
  "and_then x f = (case x of None \<Rightarrow> None | Some (t, r) \<Rightarrow> prepend t (f r))"

definition read_number :: "string \<Rightarrow> (string \<times> string) option" where
  "read_number s =
     (case s of
        c # r \<Rightarrow> if c = CHR ''-'' then prepend [c] (and_then (and_then (read_int r) read_fraction) read_exponent)
                 else and_then (and_then (read_int s) read_fraction) read_exponent
      | [] \<Rightarrow> None)"

type_synonym value_parser = "string \<Rightarrow> (json \<times> string) option"

text \<open>The rest of an array and of an object after the opening bracket; \<open>n\<close> bounds the number of entries.\<close>

fun parse_elems :: "value_parser \<Rightarrow> nat \<Rightarrow> string \<Rightarrow> (json list \<times> string) option" where
  "parse_elems p 0 s = None"
| "parse_elems p (Suc n) s =
     (case p s of
        None \<Rightarrow> None
      | Some (v, r) \<Rightarrow>
          (case skip r of
             [] \<Rightarrow> None
           | c # r' \<Rightarrow>
               if c = CHR '','' then map_option (\<lambda>(vs, t). (v # vs, t)) (parse_elems p n r')
               else if c = CHR '']'' then Some ([v], r')
               else None))"

definition parse_member :: "value_parser \<Rightarrow> string \<Rightarrow> ((string \<times> json) \<times> string) option" where
  "parse_member p s =
     (case skip s of
        [] \<Rightarrow> None
      | c # r \<Rightarrow>
          if c \<noteq> quote then None
          else (case read_string r of
                  None \<Rightarrow> None
                | Some (k, r1) \<Rightarrow>
                    (case skip r1 of
                       [] \<Rightarrow> None
                     | d # r2 \<Rightarrow>
                         if d \<noteq> CHR '':'' then None
                         else (case p r2 of None \<Rightarrow> None | Some (v, r3) \<Rightarrow> Some ((k, v), r3)))))"

fun parse_members :: "value_parser \<Rightarrow> nat \<Rightarrow> string \<Rightarrow> ((string \<times> json) list \<times> string) option" where
  "parse_members p 0 s = None"
| "parse_members p (Suc n) s =
     (case parse_member p s of
        None \<Rightarrow> None
      | Some (m, r) \<Rightarrow>
          (case skip r of
             [] \<Rightarrow> None
           | c # r' \<Rightarrow>
               if c = CHR '','' then map_option (\<lambda>(ms, t). (m # ms, t)) (parse_members p n r')
               else if c = CHR ''}'' then Some ([m], r')
               else None))"

definition keyword :: "string \<Rightarrow> json \<Rightarrow> value_parser" where
  "keyword w v s = (if take (length w) s = w then Some (v, drop (length w) s) else None)"

definition parse_with :: "value_parser option \<Rightarrow> value_parser" where
  "parse_with sub s =
     (case skip s of
        [] \<Rightarrow> None
      | c # r \<Rightarrow>
          if c = quote then map_option (\<lambda>(t, r'). (JStr t, r')) (read_string r)
          else if c = CHR ''n'' then keyword ''null'' JNull (c # r)
          else if c = CHR ''t'' then keyword ''true'' (JBool True) (c # r)
          else if c = CHR ''f'' then keyword ''false'' (JBool False) (c # r)
          else if c = CHR ''['' then
            (case sub of
               None \<Rightarrow> None
             | Some p \<Rightarrow>
                 (case skip r of
                    [] \<Rightarrow> None
                  | d # r' \<Rightarrow> if d = CHR '']'' then Some (JArr [], r')
                              else map_option (\<lambda>(vs, t). (JArr vs, t)) (parse_elems p (length r) r)))
          else if c = CHR ''{'' then
            (case sub of
               None \<Rightarrow> None
             | Some p \<Rightarrow>
                 (case skip r of
                    [] \<Rightarrow> None
                  | d # r' \<Rightarrow> if d = CHR ''}'' then Some (JObj [], r')
                              else map_option (\<lambda>(ms, t). (JObj ms, t)) (parse_members p (length r) r)))
          else map_option (\<lambda>(t, r'). (JNum t, r')) (read_number (c # r)))"

primrec parse_value :: "nat \<Rightarrow> value_parser" where
  "parse_value 0 = parse_with None"
| "parse_value (Suc d) = parse_with (Some (parse_value d))"

definition decode_json :: value_parser where
  "decode_json s = parse_value 10000 s"

end
