(* ===== verification/Wire.thy ===== *)
theory Wire
  imports Json Agent Api
begin

text \<open>
  The JSON bodies of the protocol between the agents and the control plane, and of the webhooks: how the code writes
  them (\<^verbatim>\<open>json.Marshal\<close> and \<^verbatim>\<open>Encoder.Encode\<close> of its maps and structs) and how \<^verbatim>\<open>encoding/json\<close> fills its structs from
  them. A member goes to the field whose tag is its name up to case, the last one wins, \<^verbatim>\<open>null\<close> leaves a
  field as it is, and a member of the wrong type is an error that does not stop the others from being set. Times are
  written by a parameter, since their text depends on the location of the process.
\<close>

section \<open>Filling structs\<close>

text \<open>
  \<^verbatim>\<open>foldName\<close>: ASCII letters become upper case; two other characters, U+017F and U+212A, fold to ASCII letters. The
  remaining ones fold to characters outside ASCII and match no tag of the code.
\<close>

definition upper_char :: "char \<Rightarrow> char" where
  "upper_char c = (let n = of_char c :: nat in if 97 \<le> n \<and> n \<le> 122 then char_of (n - 32) else c)"

definition fold_rune :: "string option \<Rightarrow> string" where
  "fold_rune k =
     (if k = Some [CHR 0xC5, CHR 0xBF] then ''S''
      else if k = Some [CHR 0xE2, CHR 0x84, CHR 0xAA] then ''K''
      else map upper_char (rune_bytes k))"

definition foldName :: "string \<Rightarrow> string" where
  "foldName s = concat (map fold_rune (runes s))"

text \<open>How a value is stored in a field: the new struct, and whether the type was right.\<close>

type_synonym 'a setter = "json \<Rightarrow> 'a \<Rightarrow> 'a \<times> bool"

definition set_string :: "(string \<Rightarrow> 'a \<Rightarrow> 'a) \<Rightarrow> 'a setter" where
  "set_string put v z = (case v of JStr s \<Rightarrow> (put s z, True) | JNull \<Rightarrow> (z, True) | _ \<Rightarrow> (z, False))"

definition set_bool :: "(bool \<Rightarrow> 'a \<Rightarrow> 'a) \<Rightarrow> 'a setter" where
  "set_bool put v z = (case v of JBool b \<Rightarrow> (put b z, True) | JNull \<Rightarrow> (z, True) | _ \<Rightarrow> (z, False))"

definition set_int :: "(int \<Rightarrow> 'a \<Rightarrow> 'a) \<Rightarrow> 'a setter" where
  "set_int put v z =
     (case v of
        JNum t \<Rightarrow> (case Atoi t of Some n \<Rightarrow> (put n z, True) | None \<Rightarrow> (z, False))
      | JNull \<Rightarrow> (z, True)
      | _ \<Rightarrow> (z, False))"

text \<open>
  A slice of strings is decoded into the array it already has: an element that is \<^verbatim>\<open>null\<close> or of the wrong type keeps what the
  array holds there, the empty string beyond it. \<open>get\<close> and \<open>put\<close> reach the whole array and the length in use; an empty
  list and \<^verbatim>\<open>null\<close> drop the array.
\<close>

definition string_elems :: "string list \<Rightarrow> json list \<Rightarrow> string list" where
  "string_elems old vs = map (\<lambda>(i, v). case v of JStr s \<Rightarrow> s | _ \<Rightarrow> if i < length old then old ! i else []) (enumerate 0 vs)"

definition set_strings :: "('a \<Rightarrow> string list) \<Rightarrow> (string list \<Rightarrow> nat \<Rightarrow> 'a \<Rightarrow> 'a) \<Rightarrow> 'a setter" where
  "set_strings get put v z =
     (case v of
        JArr vs \<Rightarrow>
          (if vs = [] then put [] 0 z else put (string_elems (get z) vs @ drop (length vs) (get z)) (length vs) z,
           list_all (\<lambda>v. case v of JStr _ \<Rightarrow> True | JNull \<Rightarrow> True | _ \<Rightarrow> False) vs)
      | JNull \<Rightarrow> (put [] 0 z, True)
      | _ \<Rightarrow> (z, False))"

definition set_member :: "(string \<times> 'a setter) list \<Rightarrow> string \<times> json \<Rightarrow> 'a \<times> bool \<Rightarrow> 'a \<times> bool" where
  "set_member fs m x =
     (case (m, x) of ((k, v), (z, ok)) \<Rightarrow>
        (case find (\<lambda>(n, _). foldName n = foldName k) fs of
           None \<Rightarrow> (z, ok)
         | Some (_, f) \<Rightarrow> (case f v z of (z', ok') \<Rightarrow> (z', ok \<and> ok'))))"

definition set_struct :: "(string \<times> 'a setter) list \<Rightarrow> 'a setter" where
  "set_struct fs v z =
     (case v of
        JNull \<Rightarrow> (z, True)
      | JObj ms \<Rightarrow> fold (set_member fs) ms (z, True)
      | _ \<Rightarrow> (z, False))"

text \<open>
  \<^verbatim>\<open>Decoder.Decode\<close>: the first value of the stream; anything but an object or an array is only complete once the byte after
  it, or the end, has been read, which a stream that was cut by its limit answers with an error. \<^verbatim>\<open>Unmarshal\<close>: the
  value is the whole text.
\<close>

definition delayed :: "json \<Rightarrow> bool" where
  "delayed v = (case v of JArr _ \<Rightarrow> False | JObj _ \<Rightarrow> False | _ \<Rightarrow> True)"

definition Decode :: "'a setter \<Rightarrow> 'a \<Rightarrow> string \<Rightarrow> bool \<Rightarrow> 'a \<times> bool" where
  "Decode f z b limited =
     (case decode_json b of
        None \<Rightarrow> (z, False)
      | Some (v, r) \<Rightarrow> if limited \<and> r = [] \<and> delayed v then (z, False) else f v z)"

definition Unmarshal :: "'a setter \<Rightarrow> 'a \<Rightarrow> string \<Rightarrow> 'a \<times> bool" where
  "Unmarshal f z b = (case decode_json b of None \<Rightarrow> (z, False) | Some (v, r) \<Rightarrow> if skip r = [] then f v z else (z, False))"

definition or_error :: "'a \<times> bool \<Rightarrow> string + 'a" where
  "or_error x = (if snd x then Inr (fst x) else Inl ''json'')"
  \<comment> \<open>the handlers do not look at the text of the error\<close>

section \<open>What the agents send\<close>

text \<open>\<^verbatim>\<open>json.Marshal\<close> writes the keys of a map in order.\<close>

definition strings :: "string list \<Rightarrow> json" where
  "strings ss = JArr (map JStr ss)"

fun agent_json :: "agent_body \<Rightarrow> json option" where
  "agent_json (AgRegister name labels arch os) =
     Some (JObj [(''architecture'', JStr arch), (''labels'', strings labels), (''name'', JStr name), (''operating_system'', JStr os)])"
| "agent_json (AgHeartbeat i) = Some (JObj [(''job_id'', JStr i)])"
| "agent_json (AgResult st code msg) =
     Some (JObj [(''error'', JStr msg), (''exit_code'', JNum (Itoa code)), (''status'', JStr (string_of_JobStatus st))])"
| "agent_json AgNone = None"
| "agent_json (AgChunk c) = None"

definition agent_bytes :: "agent_body \<Rightarrow> string" where
  "agent_bytes b = (case agent_json b of Some v \<Rightarrow> encode v | None \<Rightarrow> (case b of AgChunk c \<Rightarrow> c | _ \<Rightarrow> []))"

section \<open>What the control plane reads\<close>

definition register_fields :: "(string \<times> (registerRequest \<times> string list) setter) list" where
  "register_fields =
     [(''name'', set_string (\<lambda>s (z, bs). (z\<lparr>rg_Name := s\<rparr>, bs))),
      (''labels'', set_strings snd (\<lambda>bs n (z, _). (z\<lparr>rg_Labels := take n bs\<rparr>, bs))),
      (''architecture'', set_string (\<lambda>s (z, bs). (z\<lparr>rg_Architecture := s\<rparr>, bs))),
      (''operating_system'', set_string (\<lambda>s (z, bs). (z\<lparr>rg_OS := s\<rparr>, bs)))]"

definition decode_register :: "registerRequest decoder" where
  "decode_register b limited =
     map_sum id fst (or_error (Decode (set_struct register_fields)
       (\<lparr>rg_Name = [], rg_Labels = [], rg_Architecture = [], rg_OS = []\<rparr>, []) b limited))"

definition decode_heartbeat :: "string decoder" where
  "decode_heartbeat b limited = Inr (fst (Decode (set_struct [(''job_id'', set_string (\<lambda>s _. s))]) [] b limited))"
  \<comment> \<open>the handler ignores the error and reads what has been set\<close>

definition result_fields :: "(string \<times> resultRequest setter) list" where
  "result_fields =
     [(''status'', set_string (\<lambda>s z. z\<lparr>rr_Status := s\<rparr>)),
      (''exit_code'', set_int (\<lambda>n z. z\<lparr>rr_ExitCode := n\<rparr>)),
      (''error'', set_string (\<lambda>s z. z\<lparr>rr_Error := s\<rparr>))]"

definition decode_result :: "resultRequest decoder" where
  "decode_result b limited =
     or_error (Decode (set_struct result_fields) \<lparr>rr_Status = [], rr_ExitCode = 0, rr_Error = []\<rparr> b limited)"

section \<open>Webhook payloads\<close>

definition push_fields :: "(string \<times> pushPayload setter) list" where
  "push_fields =
     [(''ref'', set_string (\<lambda>s z. z\<lparr>pu_Ref := s\<rparr>)),
      (''after'', set_string (\<lambda>s z. z\<lparr>pu_After := s\<rparr>)),
      (''deleted'', set_bool (\<lambda>b z. z\<lparr>pu_Deleted := b\<rparr>)),
      (''repository'', set_struct
         [(''full_name'', set_string (\<lambda>s z. z\<lparr>pu_FullName := s\<rparr>)),
          (''clone_url'', set_string (\<lambda>s z. z\<lparr>pu_CloneURL := s\<rparr>))])]"

definition decode_push :: "string \<Rightarrow> string + pushPayload" where
  "decode_push b = or_error (Unmarshal (set_struct push_fields)
     \<lparr>pu_Ref = [], pu_After = [], pu_Deleted = False, pu_FullName = [], pu_CloneURL = []\<rparr> b)"

definition pull_request_fields :: "(string \<times> pullRequestPayload setter) list" where
  "pull_request_fields =
     [(''action'', set_string (\<lambda>s z. z\<lparr>pr_Action := s\<rparr>)),
      (''number'', set_int (\<lambda>n z. z\<lparr>pr_Number := n\<rparr>)),
      (''pull_request'', set_struct
         [(''head'', set_struct
             [(''sha'', set_string (\<lambda>s z. z\<lparr>pr_SHA := s\<rparr>)),
              (''ref'', set_string (\<lambda>s z. z\<lparr>pr_Ref := s\<rparr>)),
              (''repo'', set_struct
                 [(''full_name'', set_string (\<lambda>s z. z\<lparr>pr_FullName := s\<rparr>)),
                  (''clone_url'', set_string (\<lambda>s z. z\<lparr>pr_CloneURL := s\<rparr>))])])])]"

definition decode_pull_request :: "string \<Rightarrow> string + pullRequestPayload" where
  "decode_pull_request b = or_error (Unmarshal (set_struct pull_request_fields)
     \<lparr>pr_Action = [], pr_Number = 0, pr_SHA = [], pr_Ref = [], pr_FullName = [], pr_CloneURL = []\<rparr> b)"

section \<open>What the control plane answers\<close>

text \<open>\<^verbatim>\<open>omitempty\<close> leaves out a nil pointer and an empty string.\<close>

definition optional :: "string \<Rightarrow> json option \<Rightarrow> (string \<times> json) list" where
  "optional k v = (case v of None \<Rightarrow> [] | Some v \<Rightarrow> [(k, v)])"

definition nonempty :: "string \<Rightarrow> json option" where
  "nonempty s = (if s = [] then None else Some (JStr s))"

definition job_members :: "(time \<Rightarrow> string) \<Rightarrow> Job \<Rightarrow> (string \<times> json) list" where
  "job_members fmt j =
     [(''id'', JStr (j_id j)), (''repository'', JStr (j_repository j)), (''clone_url'', JStr (j_clone_url j)),
      (''commit_sha'', JStr (j_commit_sha j)), (''branch'', JStr (j_branch j)), (''event_type'', JStr (j_event_type j)),
      (''config_ref'', JStr (j_config_ref j)), (''labels'', strings (j_labels j)), (''status'', JStr (string_of_JobStatus (j_status j)))]
     @ optional ''runner_id'' (map_option JStr (j_runner_id j)) @ [(''attempts'', JNum (Itoa (j_attempts j)))]
     @ optional ''exit_code'' (map_option (JNum \<circ> Itoa) (j_exit_code j)) @ optional ''error'' (nonempty (j_error j))
     @ [(''created_at'', JStr (fmt (j_created_at j)))] @ optional ''started_at'' (map_option (JStr \<circ> fmt) (j_started_at j))
     @ optional ''completed_at'' (map_option (JStr \<circ> fmt) (j_completed_at j))"

definition runner_members :: "(time \<Rightarrow> string) \<Rightarrow> Runner \<Rightarrow> (string \<times> json) list" where
  "runner_members fmt r =
     [(''id'', JStr (r_id r)), (''name'', JStr (r_name r)), (''status'', JStr (string_of_RunnerStatus (r_status r))),
      (''labels'', strings (r_labels r)), (''architecture'', JStr (r_architecture r)), (''operating_system'', JStr (r_os r))]
     @ optional ''current_job_id'' (map_option JStr (r_current_job_id r)) @ [(''last_heartbeat'', JStr (fmt (r_last_heartbeat r)))]
     @ optional ''last_assigned_at'' (map_option (JStr \<circ> fmt) (r_last_assigned_at r)) @ [(''created_at'', JStr (fmt (r_created_at r)))]"

text \<open>The message of a webhook error; \<open>q\<close> is the verb \<^verbatim>\<open>%q\<close>.\<close>

fun event_message :: "(string \<Rightarrow> string) \<Rightarrow> event_error \<Rightarrow> string" where
  "event_message q ErrIgnored = ''event ignored''"
| "event_message q (DecodePush e) = ''decode push payload: '' @ e"
| "event_message q (DecodePullRequest e) = ''decode pull_request payload: '' @ e"
| "event_message q (InvalidRepository s) = ''invalid repository '' @ q s"
| "event_message q (InvalidCommit s) = ''invalid commit sha '' @ q s"
| "event_message q (InvalidCloneURL s) = ''clone url must be https, got '' @ q s"
| "event_message q EmptyBranch = ''empty branch''"

definition registerResponse_members :: "string \<Rightarrow> string \<Rightarrow> (string \<times> json) list" where
  "registerResponse_members i token = [(''runner_id'', JStr i), (''token'', JStr token)]"

definition heartbeatResponse_members :: "string \<Rightarrow> bool \<Rightarrow> (string \<times> json) list" where
  "heartbeatResponse_members st c = [(''status'', JStr st), (''cancel'', JBool c)]"

definition jobDelivery_members :: "(time \<Rightarrow> string) \<Rightarrow> Job \<Rightarrow> string \<Rightarrow> (string \<times> json) list" where
  "jobDelivery_members fmt j token = job_members fmt j @ optional ''clone_token'' (nonempty token)"

fun body_json :: "(time \<Rightarrow> string) \<Rightarrow> (string \<Rightarrow> string) \<Rightarrow> body \<Rightarrow> json option" where
  "body_json fmt q (ErrorMsg m) = Some (JObj [(''error'', JStr m)])"
| "body_json fmt q (EventError e) = Some (JObj [(''error'', JStr (event_message q e))])"
| "body_json fmt q (Fields fs) = Some (JObj (map (\<lambda>(k, v). (k, JStr v)) fs))"
| "body_json fmt q (RegisterResponse i t) = Some (JObj (registerResponse_members i t))"
| "body_json fmt q (HeartbeatResponse st c) = Some (JObj (heartbeatResponse_members st c))"
| "body_json fmt q (JobBody j) = Some (JObj (job_members fmt j))"
| "body_json fmt q (JobList js) = Some (JObj [(''jobs'', JArr (map (JObj \<circ> job_members fmt) js))])"
| "body_json fmt q (RunnerBody r) = Some (JObj (runner_members fmt r))"
| "body_json fmt q (RunnerList rs) = Some (JObj [(''runners'', JArr (map (JObj \<circ> runner_members fmt) rs))])"
| "body_json fmt q (JobDelivery j t) = Some (JObj (jobDelivery_members fmt j t))"
| "body_json fmt q Empty = None"
| "body_json fmt q (PlainText t) = None"

text \<open>\<^verbatim>\<open>Encoder.Encode\<close> ends the value with a newline.\<close>

definition render_json :: "(time \<Rightarrow> string) \<Rightarrow> (string \<Rightarrow> string) \<Rightarrow> body \<Rightarrow> string" where
  "render_json fmt q b = (case body_json fmt q b of None \<Rightarrow> [] | Some v \<Rightarrow> encode v @ ''\<newline>'')"

section \<open>What the agent reads\<close>

definition decode_registered :: "string \<Rightarrow> string + string \<times> string" where
  "decode_registered b = or_error (Decode (set_struct
     [(''runner_id'', set_string (\<lambda>s (_, t). (s, t))), (''token'', set_string (\<lambda>s (i, _). (i, s)))]) ([], []) b False)"

definition decode_cancel :: "string \<Rightarrow> string + bool" where
  "decode_cancel b = or_error (Decode (set_struct [(''cancel'', set_bool (\<lambda>c _. c))]) False b False)"

text \<open>
  A delivered job. A status is any string in the code: \<open>dl_status\<close> is its text, \<open>dl_job\<close> holds it when it is one of the six
  (the agent does not read it). \<open>from\<close> reads a time.
\<close>

record delivered =
  dl_job :: Job
  dl_status :: string
  dl_labels :: "string list"
  dl_token :: string

definition set_pointer :: "('b option \<Rightarrow> 'a \<Rightarrow> 'a) \<Rightarrow> ((('b \<Rightarrow> 'a \<Rightarrow> 'a) \<Rightarrow> 'a setter)) \<Rightarrow> 'a setter" where
  "set_pointer put f v z = (if v = JNull then (put None z, True) else f (\<lambda>x. put (Some x)) v z)"

definition set_time :: "(string \<Rightarrow> time option) \<Rightarrow> (time \<Rightarrow> 'a \<Rightarrow> 'a) \<Rightarrow> 'a setter" where
  "set_time from put v z =
     (case v of
        JStr s \<Rightarrow> (case from s of Some t \<Rightarrow> (put t z, True) | None \<Rightarrow> (z, False))
      | JNull \<Rightarrow> (z, True)
      | _ \<Rightarrow> (z, False))"

definition put_status :: "string \<Rightarrow> delivered \<Rightarrow> delivered" where
  "put_status s d = d\<lparr>dl_status := s, dl_job := (dl_job d)\<lparr>j_status := (case ParseJobStatus s of Inr st \<Rightarrow> st | Inl _ \<Rightarrow> j_status (dl_job d))\<rparr>\<rparr>"

definition in_job :: "('b \<Rightarrow> Job \<Rightarrow> Job) \<Rightarrow> 'b \<Rightarrow> delivered \<Rightarrow> delivered" where
  "in_job put x d = d\<lparr>dl_job := put x (dl_job d)\<rparr>"

definition delivery_fields :: "(string \<Rightarrow> time option) \<Rightarrow> (string \<times> delivered setter) list" where
  "delivery_fields from =
     [(''id'', set_string (in_job (\<lambda>s j. j\<lparr>j_id := s\<rparr>))),
      (''repository'', set_string (in_job (\<lambda>s j. j\<lparr>j_repository := s\<rparr>))),
      (''clone_url'', set_string (in_job (\<lambda>s j. j\<lparr>j_clone_url := s\<rparr>))),
      (''commit_sha'', set_string (in_job (\<lambda>s j. j\<lparr>j_commit_sha := s\<rparr>))),
      (''branch'', set_string (in_job (\<lambda>s j. j\<lparr>j_branch := s\<rparr>))),
      (''event_type'', set_string (in_job (\<lambda>s j. j\<lparr>j_event_type := s\<rparr>))),
      (''config_ref'', set_string (in_job (\<lambda>s j. j\<lparr>j_config_ref := s\<rparr>))),
      (''labels'', set_strings dl_labels (\<lambda>bs n d. in_job (\<lambda>ls j. j\<lparr>j_labels := ls\<rparr>) (take n bs) (d\<lparr>dl_labels := bs\<rparr>))),
      (''status'', set_string put_status),
      (''runner_id'', set_pointer (in_job (\<lambda>x j. j\<lparr>j_runner_id := x\<rparr>)) set_string),
      (''attempts'', set_int (in_job (\<lambda>n j. j\<lparr>j_attempts := n\<rparr>))),
      (''exit_code'', set_pointer (in_job (\<lambda>x j. j\<lparr>j_exit_code := x\<rparr>)) set_int),
      (''error'', set_string (in_job (\<lambda>s j. j\<lparr>j_error := s\<rparr>))),
      (''created_at'', set_time from (in_job (\<lambda>t j. j\<lparr>j_created_at := t\<rparr>))),
      (''started_at'', set_pointer (in_job (\<lambda>x j. j\<lparr>j_started_at := x\<rparr>)) (set_time from)),
      (''completed_at'', set_pointer (in_job (\<lambda>x j. j\<lparr>j_completed_at := x\<rparr>)) (set_time from)),
      (''clone_token'', set_string (\<lambda>s d. d\<lparr>dl_token := s\<rparr>))]"

definition zero_job :: "time \<Rightarrow> Job" where
  "zero_job t0 = \<lparr>j_id = [], j_repository = [], j_clone_url = [], j_commit_sha = [], j_branch = [], j_event_type = [], j_config_ref = [],
     j_labels = [], j_status = JobQueued, j_runner_id = None, j_attempts = 0, j_exit_code = None, j_error = [],
     j_created_at = t0, j_started_at = None, j_completed_at = None\<rparr>"
  \<comment> \<open>\<open>t0\<close>, the zero time\<close>

definition decode_delivery :: "(string \<Rightarrow> time option) \<Rightarrow> time \<Rightarrow> string \<Rightarrow> string + Job \<times> string" where
  "decode_delivery from t0 b =
     map_sum id (\<lambda>d. (dl_job d, dl_token d))
       (or_error (Decode (set_struct (delivery_fields from)) \<lparr>dl_job = zero_job t0, dl_status = [], dl_labels = [], dl_token = []\<rparr> b False))"

section \<open>The two ends\<close>

definition json_server :: "('q, 'g) server \<Rightarrow> bool" where
  "json_server srv \<longleftrightarrow> sv_register srv = decode_register \<and> sv_heartbeat srv = decode_heartbeat \<and> sv_result srv = decode_result
     \<and> sv_push srv = decode_push \<and> sv_pull_request srv = decode_pull_request"

definition json_agent :: "(string \<Rightarrow> time option) \<Rightarrow> time \<Rightarrow> 'n agent_env \<Rightarrow> bool" where
  "json_agent from t0 E \<longleftrightarrow> ae_registered E = decode_registered \<and> ae_cancel E = decode_cancel \<and> ae_delivery E = decode_delivery from t0"

end
