(* ===== verification/Json_Behaviour.thy ===== *)
theory Json_Behaviour
  imports Json Protocol "HOL-Library.Sublist"
begin

text \<open>
  Decoding an encoded value: the value comes back, with invalid bytes of its strings replaced, and what follows it in
  the stream is left alone; and a value that is cut off does not decode.
\<close>

section \<open>Characters\<close>

lemma take_ranges_append: "take_ranges needs s = Some (k, r) \<Longrightarrow> take_ranges needs (k @ t) = Some (k, t)"
  by (induction needs s arbitrary: k rule: take_ranges.induct) (auto split: if_splits option.splits)

lemma next_rune_Some:
  "next_rune s = Some (k, r) \<longleftrightarrow>
     (\<exists>c cs needs ks. s = c # cs \<and> rune_rest (of_char c) = Some needs \<and> take_ranges needs cs = Some (ks, r) \<and> k = c # ks)"
  by (auto simp: next_rune_def split: list.splits option.splits)

lemma next_rune_append: "next_rune s = Some (k, r) \<Longrightarrow> next_rune (k @ t) = Some (k, t)"
  using take_ranges_append by (fastforce simp: next_rune_Some)

definition rune :: "string \<Rightarrow> bool" where
  "rune k \<longleftrightarrow> k \<noteq> [] \<and> (\<forall>t. next_rune (k @ t) = Some (k, t))"

lemma next_rune_rune: "next_rune s = Some (k, r) \<Longrightarrow> rune k"
  unfolding rune_def using next_rune_append next_rune_split by blast

lemma runes_rune: "Some k \<in> set (runes s) \<Longrightarrow> rune k"
  by (induction s rule: runes.induct) (auto dest: next_rune_rune split: option.splits)

lemma rune_rest_ascii [simp]: "b < 128 \<Longrightarrow> rune_rest b = Some []"
  by (simp add: rune_rest_def utf8_rest_def)

lemma rune_rest_Nil: "rune_rest b = Some [] \<Longrightarrow> b < 128"
  by (auto simp: rune_rest_def utf8_rest_def split: if_splits)

lemma rune_rest_high: "rune_rest b = Some needs \<Longrightarrow> needs \<noteq> [] \<Longrightarrow> 128 \<le> b"
  by (auto simp: rune_rest_def utf8_rest_def split: if_splits)

lemma rune_cases:
  assumes "rune k"
  obtains (ascii) c where "k = [c]" "of_char c < (128 :: nat)"
  | (long) c ks where "k = c # ks" "ks \<noteq> []" "128 \<le> (of_char c :: nat)"
proof -
  from assms have "next_rune (k @ []) = Some (k, [])" "k \<noteq> []" by (auto simp: rune_def simp del: append_Nil2)
  then obtain c ks needs where k: "k = c # ks" "rune_rest (of_char c) = Some needs" "take_ranges needs ks = Some (ks, [])"
    by (auto simp: next_rune_def split: list.splits option.splits)
  from take_ranges_split [OF k(3)] have l: "length ks = length needs" by simp
  show thesis
  proof (cases needs)
    case Nil
    with k l rune_rest_Nil [of "of_char c"] show thesis by (intro ascii [of c]) auto
  next
    case (Cons n ns)
    with k l rune_rest_high [of "of_char c" needs] show thesis by (intro long [of c ks]) auto
  qed
qed

lemma next_rune_ascii [simp]: "of_char c < (128 :: nat) \<Longrightarrow> next_rune (c # t) = Some ([c], t)"
  by (simp add: next_rune_def)

section \<open>Strings\<close>

lemma prepend_simps [simp]:
  "prepend b None = None" "prepend b (Some (t, r)) = Some (b @ t, r)" "prepend a (prepend b x) = prepend (a @ b) x" "prepend [] x = x"
  by (simp_all add: prepend_def) (cases x; auto)+

lemma getu4_digits:
  "w < 16 \<Longrightarrow> x < 16 \<Longrightarrow> y < 16 \<Longrightarrow> z < 16 \<Longrightarrow>
   getu4 (hex_digit w # hex_digit x # hex_digit y # hex_digit z # t) = Some (w * 4096 + x * 256 + y * 16 + z, t)"
  by (simp add: getu4_def hex_value_digit)

lemma horner: "n = a * 16 + z \<Longrightarrow> a = b * 16 + y \<Longrightarrow> b = w * 16 + x \<Longrightarrow> w * 4096 + x * 256 + y * 16 + z = n" for n :: nat
  by simp

lemma hex_digits_value: "n div 4096 mod 16 * 4096 + n div 256 mod 16 * 256 + n div 16 mod 16 * 16 + n mod 16 = n"
  if "n < 65536" for n :: nat
proof (rule horner)
  show "n = n div 16 * 16 + n mod 16" by simp
  have "n div 256 = n div 16 div 16" by (simp flip: div_mult2_eq)
  then show "n div 16 = n div 256 * 16 + n div 16 mod 16" by (simp only: div_mult_mod_eq)
  have "n div 4096 mod 16 = n div 256 div 16" using that by (simp flip: div_mult2_eq)
  then show "n div 256 = n div 4096 mod 16 * 16 + n div 256 mod 16" by (simp only: div_mult_mod_eq)
qed

lemma getu4_hex4: "n < 65536 \<Longrightarrow> getu4 (hex4 n @ t) = Some (n, t)"
  unfolding hex4_def append_Cons append_Nil by (subst getu4_digits) (simp_all only: hex_digits_value mod_less_divisor zero_less_numeral)

lemma read_u_escape:
  "n < 55296 \<or> 57344 \<le> n \<and> n < 65536 \<Longrightarrow> read_string (u_escape n @ t) = prepend (utf8_encode n) (read_string t)"
  by (auto simp: u_escape_def unescape_def getu4_hex4 code_point_def)

definition short_escapes :: "(char \<times> char) list" where
  "short_escapes = [(quote, quote), (backslash, backslash), (CHR 0x08, CHR ''b''), (CHR 0x0C, CHR ''f''),
     (CHR 0x0A, CHR ''n''), (CHR 0x0D, CHR ''r''), (CHR 0x09, CHR ''t'')]"

lemma of_char_eqD: "of_char c = n \<Longrightarrow> of_char d = n \<Longrightarrow> c = d" for n :: nat
  by (metis of_char_eq_iff)

lemma escape_ascii_cases:
  obtains (short) e where "(c, e) \<in> set short_escapes" "escape_ascii c = [backslash, e]"
  | (long) "escape_ascii c = u_escape (of_char c)"
  | (plain) "escape_ascii c = [c]" "32 \<le> (of_char c :: nat)" "c \<noteq> quote" "c \<noteq> backslash"
proof -
  show thesis
  proof (cases "c \<in> fst ` set short_escapes")
    case True
    then show thesis by (auto simp: short_escapes_def escape_ascii_def intro: short)
  next
    case False
    then have q: "c \<noteq> quote" "c \<noteq> backslash"
      and d: "c \<noteq> CHR 0x08" "c \<noteq> CHR 0x0C" "c \<noteq> CHR 0x0A" "c \<noteq> CHR 0x0D" "c \<noteq> CHR 0x09"
      by (auto simp: short_escapes_def)
    note n = of_char_eqD [of c 8 "CHR 0x08"] of_char_eqD [of c 12 "CHR 0x0C"] of_char_eqD [of c 10 "CHR 0x0A"]
      of_char_eqD [of c 13 "CHR 0x0D"] of_char_eqD [of c 9 "CHR 0x09"]
    from d n have "of_char c \<noteq> (8 :: nat)" "of_char c \<noteq> (12 :: nat)" "of_char c \<noteq> (10 :: nat)" "of_char c \<noteq> (13 :: nat)"
      "of_char c \<noteq> (9 :: nat)" by auto
    with q show thesis
      by (cases "of_char c < (32 :: nat) \<or> c = CHR ''<'' \<or> c = CHR ''>'' \<or> c = CHR ''&''")
        (auto simp: escape_ascii_def Let_def intro: long plain)
  qed
qed

lemma read_short_escape: "(c, e) \<in> set short_escapes \<Longrightarrow> read_string (backslash # e # t) = prepend [c] (read_string t)"
  by (auto simp: short_escapes_def unescape_def)

lemma read_escape_ascii:
  assumes "of_char c < (128 :: nat)"
  shows "read_string (escape_ascii c @ t) = prepend [c] (read_string t)"
proof (cases c rule: escape_ascii_cases)
  case (short e)
  then show ?thesis by (simp add: read_short_escape del: read_string.simps)
next
  case long
  then show ?thesis using assms read_u_escape [of "of_char c" t] by (simp add: utf8_encode_def)
next
  case plain
  then show ?thesis using assms by simp
qed

lemma separators:
  "utf8_encode 65533 = replacement"
  "utf8_encode 8232 = [CHR 0xE2, CHR 0x80, CHR 0xA8]" "utf8_encode 8233 = [CHR 0xE2, CHR 0x80, CHR 0xA9]"
  by (simp_all add: utf8_encode_def replacement_def) (simp_all add: char_of_def bit_simps)

lemma read_escape_rune:
  assumes "\<And>b. k = Some b \<Longrightarrow> rune b"
  shows "read_string (escape_rune k @ t) = prepend (rune_bytes k) (read_string t)"
proof (cases k)
  case None
  then show ?thesis
    using read_u_escape [of 65533 t] by (simp add: escape_rune_def rune_bytes_def separators)
next
  case (Some b)
  with assms have "rune b" by simp
  then show ?thesis
  proof (cases rule: rune_cases)
    case (ascii c)
    with Some show ?thesis by (simp add: escape_rune_def rune_bytes_def read_escape_ascii)
  next
    case (long c ks)
    from \<open>rune b\<close> have "next_rune (b @ t) = Some (b, t)" by (simp add: rune_def)
    with long have plain: "read_string (b @ t) = prepend b (read_string t)" by auto
    with Some long show ?thesis
      using read_u_escape [of 8232 t] read_u_escape [of 8233 t]
      by (auto simp: escape_rune_def rune_bytes_def separators simp del: read_string.simps)
  qed
qed

lemma read_escaped:
  "(\<And>b. Some b \<in> set ks \<Longrightarrow> rune b) \<Longrightarrow>
   read_string (concat (map escape_rune ks) @ quote # t) = Some (concat (map rune_bytes ks), t)"
  by (induction ks) (simp_all add: read_escape_rune)

theorem read_string_encoded: "read_string (tl (encode_string s) @ t) = Some (to_valid s, t)"
  by (simp add: encode_string_def to_valid_def read_escaped runes_rune)

text \<open>The text itself comes back when it is valid.\<close>

lemma valid_text: "None \<notin> set (runes s) \<Longrightarrow> to_valid s = s"
proof (induction s rule: runes.induct)
  case 1
  then show ?case by (simp add: to_valid_def)
next
  case (2 c cs)
  then obtain k r where n: "next_rune (c # cs) = Some (k, r)" by (auto split: option.splits)
  with 2 have "to_valid r = r" by simp
  then have "to_valid (c # cs) = k @ r" using n by (simp add: to_valid_def rune_bytes_def)
  with next_rune_split [OF n] show ?case by simp
qed

lemma text_from_ranges: "text_from needs s \<Longrightarrow> \<exists>k r. take_ranges needs s = Some (k, r) \<and> pg_text r"
  by (induction needs s rule: take_ranges.induct) fastforce+

lemma pg_text_next: "pg_text (c # cs) \<Longrightarrow> \<exists>k r. next_rune (c # cs) = Some (k, r) \<and> pg_text r"
proof -
  assume "pg_text (c # cs)"
  then obtain need where "utf8_rest (of_char c) = Some need" "text_from need cs" by (auto split: option.splits)
  with text_from_ranges [of need cs] show ?thesis by (auto simp: next_rune_def rune_rest_def utf8_rest_def [of 0])
qed

lemma pg_text_runes: "pg_text s \<Longrightarrow> None \<notin> set (runes s)"
proof (induction s rule: runes.induct)
  case (2 c cs)
  from pg_text_next [OF 2(3)] obtain k r where "next_rune (c # cs) = Some (k, r)" "pg_text r" by blast
  with 2(2) [of "(k, r)" k r] show ?case by simp
qed simp

lemma to_valid_text: "pg_text s \<Longrightarrow> to_valid s = s"
  by (simp add: valid_text pg_text_runes)

text \<open>ASCII characters survive, the character NUL too, which the database does not store.\<close>

lemma to_valid_ascii: "c \<in> set s \<Longrightarrow> of_char c < (128 :: nat) \<Longrightarrow> c \<in> set (to_valid s)"
proof (induction s rule: runes.induct)
  case (2 d cs)
  show ?case
  proof (cases "next_rune (d # cs)")
    case None
    with 2(3,4) have "c \<in> set cs" by auto
    with 2(1) [OF None] 2(4) None show ?thesis by (simp add: to_valid_def)
  next
    case (Some kr)
    obtain k r where kr: "kr = (k, r)" by (cases kr)
    with Some next_rune_split have "d # cs = k @ r" by blast
    with 2(3) have "c \<in> set k \<or> c \<in> set r" by (metis Un_iff set_append)
    with 2(2) [OF Some kr [symmetric]] 2(4) Some kr show ?thesis by (auto simp: to_valid_def rune_bytes_def)
  qed
qed simp

lemma text_no_nul: "text_from needs s \<Longrightarrow> list_all (\<lambda>(lo, hi). 0 < lo) needs \<Longrightarrow> CHR 0x00 \<notin> set s"
proof (induction needs s rule: text_from.induct)
  case (2 c cs)
  then obtain need where n: "utf8_rest (of_char c) = Some need" "text_from need cs" by (auto split: option.splits)
  then have "list_all (\<lambda>(lo, hi). 0 < lo) need" by (auto simp: utf8_rest_def split: if_splits)
  moreover have "c \<noteq> CHR 0x00" using n(1) by (auto simp: utf8_rest_def)
  ultimately show ?case using 2(1) n by auto
qed auto

lemma nul_not_text: "CHR 0x00 \<in> set s \<Longrightarrow> \<not> pg_text (to_valid s)"
  using to_valid_ascii [of "CHR 0x00" s] text_no_nul [of "[]" "to_valid s"] by auto

section \<open>Numbers\<close>

definition stops :: "string \<Rightarrow> bool" where
  "stops r \<longleftrightarrow> (case r of [] \<Rightarrow> True | c # _ \<Rightarrow> \<not> is_digit c \<and> c \<noteq> CHR ''.'' \<and> c \<noteq> CHR ''e'' \<and> c \<noteq> CHR ''E'')"

lemma nat_digits_are_digits: "list_all is_digit (nat_digits n)"
proof (induction n rule: nat_digits.induct)
  case (1 n)
  have "is_digit (char_of (48 + k))" if "k < 10" for k :: nat using that by (simp add: is_digit_def digit_value_char)
  with 1 show ?case by (subst nat_digits.simps) simp
qed

lemma digits_stop: "list_all is_digit ds \<Longrightarrow> stops r \<Longrightarrow> takeWhile is_digit (ds @ r) = ds \<and> dropWhile is_digit (ds @ r) = r"
  by (induction ds) (auto simp: stops_def split: list.splits)

lemma nat_digits_zero: "nat_digits n = CHR ''0'' # ds \<Longrightarrow> n = 0 \<and> ds = []"
proof (induction n arbitrary: ds rule: nat_digits.induct)
  case (1 n)
  show ?case
  proof (cases "n < 10")
    case True
    with "1.prems" show ?thesis
      by (subst (asm) nat_digits.simps) (auto dest: arg_cong [where f = "of_char :: char \<Rightarrow> nat"])
  next
    case False
    obtain e es where e: "nat_digits (n div 10) = e # es" using nat_digits_hd by blast
    with "1.prems" False have "e = CHR ''0''" by (simp add: nat_digits.simps [of n])
    with 1(1) e False show ?thesis by fastforce
  qed
qed

lemma read_int_digits: "stops r \<Longrightarrow> read_int (nat_digits n @ r) = Some (nat_digits n, r)"
proof -
  assume r: "stops r"
  obtain d ds where d: "nat_digits n = d # ds" using nat_digits_hd by blast
  then show ?thesis
    using digits_stop [OF nat_digits_are_digits r, of n] nat_digits_zero [of n ds]
    by (auto simp: read_int_def read_digits_def simp del: takeWhile.simps dropWhile.simps)
qed

lemma read_stops: "stops r \<Longrightarrow> read_fraction r = Some ([], r)" "stops r \<Longrightarrow> read_exponent r = Some ([], r)"
  by (auto simp: stops_def read_fraction_def read_exponent_def split: list.splits)

lemma read_number_Itoa: "stops r \<Longrightarrow> read_number (Itoa n @ r) = Some (Itoa n, r)"
proof -
  assume r: "stops r"
  obtain d ds where d: "nat_digits (nat n) = d # ds" "48 \<le> (of_char d :: nat)" using nat_digits_hd by blast
  then have "d \<noteq> CHR ''-''" by auto
  with r d(1) read_int_digits [OF r, of "nat n"] read_int_digits [OF r, of "nat (- n)"] show ?thesis
    by (auto simp: read_number_def Itoa_def and_then_def read_stops split: list.splits)
qed

lemma Itoa_text: "pg_text (Itoa n)"
proof (rule pg_text_ascii)
  have "0 < (of_char c :: nat) \<and> of_char c < (128 :: nat)" if "is_digit c" for c
    using that by (auto simp: is_digit_def digit_value_def Let_def split: if_splits)
  with nat_digits_are_digits show "list_all (\<lambda>c. 0 < (of_char c :: nat) \<and> of_char c < (128 :: nat)) (Itoa n)"
    by (simp add: Itoa_def list_all_iff)
qed

section \<open>Values\<close>

text \<open>What comes back: the same value, its strings made valid; how deep it is; and that its numbers are integers.\<close>

fun clean :: "json \<Rightarrow> json" where
  "clean JNull = JNull"
| "clean (JBool b) = JBool b"
| "clean (JNum t) = JNum t"
| "clean (JStr s) = JStr (to_valid s)"
| "clean (JArr vs) = JArr (map clean vs)"
| "clean (JObj ms) = JObj (map (\<lambda>(k, v). (to_valid k, clean v)) ms)"

fun integral :: "json \<Rightarrow> bool" where
  "integral (JNum t) \<longleftrightarrow> (\<exists>n. t = Itoa n)"
| "integral (JArr vs) \<longleftrightarrow> (\<forall>v \<in> set vs. integral v)"
| "integral (JObj ms) \<longleftrightarrow> (\<forall>(k, v) \<in> set ms. integral v)"
| "integral v \<longleftrightarrow> True"

fun depth_within :: "nat \<Rightarrow> json \<Rightarrow> bool" where
  "depth_within d (JArr vs) \<longleftrightarrow> 0 < d \<and> (\<forall>v \<in> set vs. depth_within (d - 1) v)"
| "depth_within d (JObj ms) \<longleftrightarrow> 0 < d \<and> (\<forall>(k, v) \<in> set ms. depth_within (d - 1) v)"
| "depth_within d v \<longleftrightarrow> True"

definition solid :: "char \<Rightarrow> bool" where
  "solid c \<longleftrightarrow> c \<notin> {CHR '' '', CHR 0x09, CHR 0x0A, CHR 0x0D, CHR '','', CHR '']'', CHR ''}''}"

lemma Itoa_hd: "\<exists>c cs. Itoa n = c # cs \<and> solid c \<and> (c = CHR ''-'' \<or> is_digit c)"
proof -
  obtain d ds where d: "nat_digits (nat n) = d # ds" using nat_digits_hd by blast
  with nat_digits_are_digits [of "nat n"] have "is_digit d" by simp
  moreover from this have "solid d" by (auto simp: solid_def is_digit_def digit_value_def)
  ultimately show ?thesis using d by (auto simp: Itoa_def solid_def)
qed

lemma encode_hd: "integral v \<Longrightarrow> \<exists>c cs. encode v = c # cs \<and> solid c"
  using Itoa_hd by (cases v) (fastforce simp: solid_def encode_string_def)+

lemma skip_solid: "solid c \<Longrightarrow> skip (c # s) = c # s"
  by (simp add: skip_def solid_def)

lemma skip_punctuation [simp]:
  "skip (CHR '','' # s) = CHR '','' # s" "skip (CHR '']'' # s) = CHR '']'' # s" "skip (CHR ''}'' # s) = CHR ''}'' # s"
  "skip (CHR '':'' # s) = CHR '':'' # s" "skip (quote # s) = quote # s" "skip [] = []"
  "skip (CHR ''['' # s) = CHR ''['' # s" "skip (CHR ''{'' # s) = CHR ''{'' # s"
  by (simp_all add: skip_def)

lemma stops_punctuation [simp]:
  "stops (CHR '','' # s)" "stops (CHR '']'' # s)" "stops (CHR ''}'' # s)" "stops []"
  by (simp_all add: stops_def is_digit_def digit_value_def)

lemma commas_simps [simp]:
  "commas [] = []" "commas [x] = x" "commas (x # y # ys) = x @ CHR '','' # commas (y # ys)"
  by (simp_all add: commas_def)

definition reads :: "value_parser \<Rightarrow> json \<Rightarrow> bool" where
  "reads p v \<longleftrightarrow> (\<forall>r. stops r \<longrightarrow> p (encode v @ r) = Some (clean v, r))"

lemma parse_elems_encoded:
  "vs \<noteq> [] \<Longrightarrow> length vs \<le> n \<Longrightarrow> (\<And>v. v \<in> set vs \<Longrightarrow> reads p v) \<Longrightarrow>
   parse_elems p n (commas (map encode vs) @ CHR '']'' # r) = Some (map clean vs, r)"
proof (induction vs arbitrary: n)
  case (Cons v vs)
  then obtain m where n: "n = Suc m" by (cases n) auto
  from Cons.prems have v: "stops s \<Longrightarrow> p (encode v @ s) = Some (clean v, s)" for s by (simp add: reads_def)
  show ?case
  proof (cases vs)
    case Nil
    then show ?thesis using n v by simp
  next
    case (Cons w ws)
    with Cons.IH [of m] Cons.prems n v show ?thesis by simp
  qed
qed simp

abbreviation member_text :: "string \<times> json \<Rightarrow> string" where
  "member_text \<equiv> \<lambda>(k, v). encode_string k @ CHR '':'' # encode v"

lemma parse_member_encoded:
  "reads p v \<Longrightarrow> stops r \<Longrightarrow> parse_member p (member_text (k, v) @ r) = Some ((to_valid k, clean v), r)"
  using read_string_encoded [of k "CHR '':'' # encode v @ r"]
  by (simp add: parse_member_def encode_string_def reads_def)

lemma parse_members_encoded:
  "ms \<noteq> [] \<Longrightarrow> length ms \<le> n \<Longrightarrow> \<forall>m \<in> set ms. reads p (snd m) \<Longrightarrow>
   parse_members p n (commas (map member_text ms) @ CHR ''}'' # r) = Some (map (\<lambda>(k, v). (to_valid k, clean v)) ms, r)"
proof (induction ms arbitrary: n)
  case (Cons m ms)
  then obtain l where n: "n = Suc l" by (cases n) auto
  obtain k v where m: "m = (k, v)" by (cases m)
  with Cons.prems have v: "stops s \<Longrightarrow> parse_member p (member_text m @ s) = Some ((to_valid k, clean v), s)" for s
    using parse_member_encoded by auto
  show ?case
  proof (cases ms)
    case Nil
    then show ?thesis using n v m by simp
  next
    case (Cons w ws)
    with Cons.IH [of l] Cons.prems n v m show ?thesis by simp
  qed
qed simp

lemma length_commas: "list_all (\<lambda>x. x \<noteq> []) xs \<Longrightarrow> length xs \<le> length (commas xs)"
proof (induction xs rule: induct_list012)
  case (3 x y zs)
  then show ?case by (cases x) simp_all
qed (auto simp: Suc_le_eq)

lemma skip_commas:
  assumes "xs \<noteq> []" "list_all (\<lambda>x. \<exists>c cs. x = c # cs \<and> solid c) xs"
  shows "\<exists>c cs. skip (commas xs @ r) = c # cs \<and> solid c"
proof -
  from assms obtain c cs ys where xs: "xs = (c # cs) # ys" "solid c" by (cases xs) auto
  then obtain t where "commas xs @ r = c # t" by (cases ys) auto
  with xs(2) show ?thesis by (auto simp: skip_solid)
qed

lemma parse_array_encoded:
  assumes "\<And>v. v \<in> set vs \<Longrightarrow> reads p v" "integral (JArr vs)"
  shows "parse_with (Some p) (encode (JArr vs) @ r) = Some (clean (JArr vs), r)"
proof (cases "vs = []")
  case False
  have hd: "list_all (\<lambda>x. \<exists>c cs. x = c # cs \<and> solid c) (map encode vs)"
    using assms(2) encode_hd by (simp add: list_all_iff)
  then have "length vs \<le> length (commas (map encode vs))"
    using length_commas [of "map encode vs"] by (fastforce simp: list_all_iff)
  then have "parse_elems p (length (commas (map encode vs) @ CHR '']'' # r)) (commas (map encode vs) @ CHR '']'' # r) = Some (map clean vs, r)"
    using assms(1) False by (intro parse_elems_encoded) simp_all
  moreover obtain c cs where "skip (commas (map encode vs) @ CHR '']'' # r) = c # cs" "solid c"
    using skip_commas [OF _ hd] False by blast
  ultimately show ?thesis by (auto simp: parse_with_def solid_def simp del: parse_elems.simps parse_members.simps)
qed (simp add: parse_with_def)

lemma parse_object_encoded:
  assumes "\<forall>m \<in> set ms. reads p (snd m)"
  shows "parse_with (Some p) (encode (JObj ms) @ r) = Some (clean (JObj ms), r)"
proof (cases "ms = []")
  case False
  have hd: "list_all (\<lambda>x. \<exists>c cs. x = c # cs \<and> solid c) (map member_text ms)"
    by (auto simp: list_all_iff encode_string_def solid_def)
  then have "length ms \<le> length (commas (map member_text ms))"
    using length_commas [of "map member_text ms"] by (fastforce simp: list_all_iff)
  then have "parse_members p (length (commas (map member_text ms) @ CHR ''}'' # r)) (commas (map member_text ms) @ CHR ''}'' # r)
      = Some (map (\<lambda>(k, v). (to_valid k, clean v)) ms, r)"
    using assms False by (intro parse_members_encoded) simp_all
  moreover obtain c cs where "skip (commas (map member_text ms) @ CHR ''}'' # r) = c # cs" "solid c"
    using skip_commas [OF _ hd] False by blast
  ultimately show ?thesis by (auto simp: parse_with_def solid_def simp del: parse_elems.simps parse_members.simps)
qed (simp add: parse_with_def)

lemma parse_scalar_encoded: "integral v \<Longrightarrow> depth_within 0 v \<Longrightarrow> reads (parse_with sub) v"
proof (cases v)
  case (JNum t)
  moreover assume "integral v"
  ultimately obtain n where t: "t = Itoa n" by auto
  obtain c cs where c: "Itoa n = c # cs" "solid c" "c = CHR ''-'' \<or> is_digit c" using Itoa_hd by blast
  then have "c \<notin> {quote, CHR ''n'', CHR ''t'', CHR ''f'', CHR ''['', CHR ''{''}" by (auto simp: is_digit_def digit_value_def)
  with JNum t c read_number_Itoa [of _ n] show ?thesis by (auto simp: reads_def parse_with_def skip_solid)
next
  case (JStr s)
  then show ?thesis using read_string_encoded [of s] by (simp add: reads_def parse_with_def encode_string_def)
qed (auto simp: reads_def parse_with_def keyword_def skip_def)

lemma parse_scalar_value: "integral v \<Longrightarrow> depth_within 0 v \<Longrightarrow> reads (parse_value d) v"
  by (cases d) (simp_all add: parse_scalar_encoded)

theorem parse_value_encoded: "integral v \<Longrightarrow> depth_within d v \<Longrightarrow> reads (parse_value d) v"
proof (induction v arbitrary: d)
  case (JArr vs)
  then obtain e where d: "d = Suc e" by (cases d) auto
  with JArr have "reads (parse_value e) v" if "v \<in> set vs" for v using that by auto
  with parse_array_encoded JArr.prems(1) d show ?case by (simp add: reads_def)
next
  case (JObj ms)
  then obtain e where d: "d = Suc e" by (cases d) auto
  have "reads (parse_value e) (snd m)" if "m \<in> set ms" for m
    using JObj.IH [OF that, of "snd m" e] JObj.prems that d by (cases m) auto
  with parse_object_encoded d show ?case by (simp add: reads_def)
qed (simp_all add: parse_scalar_value)

section \<open>Truncated values\<close>

text \<open>A string without its closing quote is not read, wherever it is cut.\<close>

lemma read_string_high: "\<forall>c \<in> set s. 128 \<le> (of_char c :: nat) \<Longrightarrow> read_string s = None"
proof (induction s rule: read_string.induct)
  case (2 c cs)
  have c: "c \<noteq> quote" "c \<noteq> backslash" "\<not> of_char c < (32 :: nat)" using 2(4) by auto
  show ?case
  proof (cases "next_rune (c # cs)")
    case None
    with 2(2) [OF c None] 2(4) c show ?thesis by simp
  next
    case (Some kr)
    obtain k r where kr: "kr = (k, r)" by (cases kr)
    with next_rune_split Some have "c # cs = k @ r" by blast
    then have "set r \<subseteq> set (c # cs)" by (metis Un_upper2 set_append)
    with 2(3) [OF c Some kr [symmetric]] 2(4) have "read_string r = None" by blast
    with Some kr c show ?thesis by simp
  qed
qed simp

lemma rune_high: "rune (c # ks) \<Longrightarrow> 128 \<le> (of_char c :: nat) \<Longrightarrow> \<forall>x \<in> set ks. 128 \<le> (of_char x :: nat)"
proof -
  assume "rune (c # ks)"
  then have "next_rune ((c # ks) @ []) = Some (c # ks, [])" by (simp add: rune_def del: append_Nil2)
  then obtain needs where n: "rune_rest (of_char c) = Some needs" "take_ranges needs ks = Some (ks, [])"
    by (auto simp: next_rune_def split: option.splits)
  have "list_all (\<lambda>(lo, hi). 128 \<le> lo) needs" using n(1) by (auto simp: rune_rest_def utf8_rest_def split: if_splits)
  moreover have "list_all (\<lambda>(lo, hi). 128 \<le> lo) needs \<Longrightarrow> take_ranges needs s = Some (k, r) \<Longrightarrow> \<forall>x \<in> set k. 128 \<le> (of_char x :: nat)" for s k r
    by (induction needs s arbitrary: k rule: take_ranges.induct) (fastforce split: if_splits option.splits)+
  ultimately show ?thesis using n(2) by blast
qed

lemma read_u_escape_cut: "prefix p (u_escape n) \<Longrightarrow> p \<noteq> u_escape n \<Longrightarrow> read_string p = None"
  by (auto simp: u_escape_def hex4_def prefix_Cons unescape_def getu4_def)

lemma read_escape_cut:
  assumes "\<And>b. k = Some b \<Longrightarrow> rune b" "prefix p (escape_rune k)" "p \<noteq> escape_rune k"
  shows "read_string p = None"
proof (cases k)
  case None
  with assms read_u_escape_cut show ?thesis by (simp add: escape_rune_def)
next
  case (Some b)
  with assms(1) have "rune b" by simp
  then show ?thesis
  proof (cases rule: rune_cases)
    case (ascii c)
    with Some assms(2,3) have p: "prefix p (escape_ascii c)" "p \<noteq> escape_ascii c" by (simp_all add: escape_rune_def)
    show ?thesis
      by (cases c rule: escape_ascii_cases)
        (use p read_u_escape_cut in \<open>auto simp: prefix_Cons unescape_def\<close>)
  next
    case (long c ks)
    then have "\<forall>x \<in> set b. 128 \<le> (of_char x :: nat)" using rune_high \<open>rune b\<close> by auto
    then have "read_string p = None" if "prefix p b" using that set_mono_prefix read_string_high by blast
    with Some long assms(2,3) read_u_escape_cut show ?thesis by (auto simp: escape_rune_def split: if_splits)
  qed
qed

lemma read_escaped_cut:
  "(\<And>b. Some b \<in> set ks \<Longrightarrow> rune b) \<Longrightarrow> prefix p (concat (map escape_rune ks)) \<Longrightarrow> read_string p = None"
proof (induction ks arbitrary: p)
  case (Cons k ks)
  from Cons.prems have k: "\<And>b. k = Some b \<Longrightarrow> rune b" by simp
  from Cons.prems(2) consider "prefix p (escape_rune k)" "p \<noteq> escape_rune k"
    | q where "p = escape_rune k @ q" "prefix q (concat (map escape_rune ks))"
    by (cases "p = escape_rune k") (auto simp: prefix_append)
  then show ?case
  proof cases
    case 1
    with read_escape_cut k show ?thesis by blast
  next
    case 2
    with Cons.IH Cons.prems(1) k show ?thesis by (simp add: read_escape_rune)
  qed
qed simp

lemma encode_string_cut: "strict_prefix p (encode_string s) \<Longrightarrow> p = [] \<or> (\<exists>q. p = quote # q \<and> read_string q = None)"
  using read_escaped_cut [of "runes s"] runes_rune
  by (auto simp: encode_string_def strict_prefix_def prefix_Cons)

text \<open>A cut value does not decode either; only a number that loses digits is another number, and then nothing follows.\<close>

definition cuts :: "value_parser \<Rightarrow> json \<Rightarrow> bool" where
  "cuts p v \<longleftrightarrow> (\<forall>q. strict_prefix q (encode v) \<longrightarrow> p q = None \<or> (\<exists>t. p q = Some (JNum t, [])))"

lemma parse_empty [simp]: "parse_with sub [] = None"
  by (simp add: parse_with_def)

lemma prefix_between:
  "prefix q (x @ y # ys) \<Longrightarrow> strict_prefix q x \<or> q = x \<or> (\<exists>q'. q = x @ y # q' \<and> prefix q' ys)"
  by (auto simp: prefix_append prefix_Cons strict_prefix_def)

lemma prefix_commas:
  assumes "prefix q (commas (x # xs))"
  obtains "strict_prefix q x" | "q = x" | q' where "q = x @ CHR '','' # q'" "prefix q' (commas xs)"
proof (cases xs)
  case Nil
  with assms that(1,2) show thesis by (auto simp: strict_prefix_def)
next
  case (Cons y ys)
  with assms that prefix_between [of q x "CHR '',''" "commas xs"] show thesis by auto
qed

lemma prefix_solid:
  "prefix q (commas xs) \<Longrightarrow> list_all (\<lambda>x. \<exists>c cs. x = c # cs \<and> solid c) xs \<Longrightarrow> q = [] \<or> (\<exists>c cs. q = c # cs \<and> solid c)"
  by (cases xs rule: remdups_adj.cases) (auto simp: prefix_Cons)

lemma parse_elems_cut:
  "(\<And>v. v \<in> set vs \<Longrightarrow> reads p v \<and> cuts p v) \<Longrightarrow> p [] = None \<Longrightarrow> prefix q (commas (map encode vs)) \<Longrightarrow> parse_elems p n q = None"
proof (induction vs arbitrary: n q)
  case Nil
  then show ?case by (cases n) auto
next
  case (Cons v vs)
  from Cons.prems have v: "reads p v" "cuts p v" by simp_all
  from Cons.prems(3) have "prefix q (commas (encode v # map encode vs))" by simp
  then show ?case
  proof (cases rule: prefix_commas)
    case 1
    with v(2) show ?thesis by (cases n) (auto simp: cuts_def)
  next
    case 2
    with v(1) [unfolded reads_def, rule_format, of "[]"] show ?thesis by (cases n) auto
  next
    case (3 q')
    with Cons.IH [of q'] Cons.prems v(1) [unfolded reads_def, rule_format, of "CHR '','' # q'"] show ?thesis by (cases n) auto
  qed
qed

lemma parse_member_cut:
  assumes "cuts p v" "p [] = None" "strict_prefix q (member_text (k, v))"
  shows "parse_member p q = None \<or> (\<exists>m. parse_member p q = Some (m, []))"
proof -
  from assms(3) consider "strict_prefix q (encode_string k)" | "q = encode_string k"
    | q' where "q = encode_string k @ CHR '':'' # q'" "strict_prefix q' (encode v)"
    using prefix_between [of q "encode_string k" "CHR '':''" "encode v"] by (auto simp: strict_prefix_def)
  then show ?thesis
  proof cases
    case 1
    from encode_string_cut [OF this] show ?thesis by (auto simp: parse_member_def)
  next
    case 2
    then show ?thesis using read_string_encoded [of k "[]"] by (simp add: parse_member_def encode_string_def)
  next
    case 3
    then show ?thesis using read_string_encoded [of k "CHR '':'' # q'"] assms(1)
      by (auto simp: parse_member_def encode_string_def cuts_def)
  qed
qed

lemma parse_members_cut:
  "\<forall>m \<in> set ms. reads p (snd m) \<and> cuts p (snd m) \<Longrightarrow> p [] = None \<Longrightarrow> prefix q (commas (map member_text ms)) \<Longrightarrow> parse_members p n q = None"
proof (induction ms arbitrary: n q)
  case Nil
  then show ?case by (cases n) (auto simp: parse_member_def)
next
  case (Cons m ms)
  obtain k v where m: "m = (k, v)" by (cases m)
  with Cons.prems have v: "reads p v" "cuts p v" by simp_all
  from Cons.prems(3) m have "prefix q (commas (member_text (k, v) # map member_text ms))" by simp
  then show ?case
  proof (cases rule: prefix_commas)
    case 1
    from parse_member_cut [OF v(2) Cons.prems(2) this] show ?thesis by (cases n) auto
  next
    case 2
    with parse_member_encoded [OF v(1), of "[]" k] show ?thesis by (cases n) auto
  next
    case (3 q')
    with Cons.IH [of q'] Cons.prems parse_member_encoded [OF v(1), of "CHR '','' # q'" k] show ?thesis by (cases n) auto
  qed
qed

lemma parse_array_cut:
  assumes "\<And>v. v \<in> set vs \<Longrightarrow> reads p v \<and> cuts p v" "p [] = None" "integral (JArr vs)" "strict_prefix q (encode (JArr vs))"
  shows "parse_with (Some p) q = None"
proof (cases q)
  case (Cons c q')
  with assms(4) have q: "c = CHR ''[''" "prefix q' (commas (map encode vs))" by (auto simp: strict_prefix_def)
  moreover have "q' = [] \<or> (\<exists>d ds. q' = d # ds \<and> solid d)"
    using assms(3) encode_hd by (intro prefix_solid [OF q(2)]) (auto simp: list_all_iff)
  ultimately show ?thesis using parse_elems_cut [OF assms(1,2) q(2), of "length q'"] Cons
    by (auto simp: parse_with_def skip_solid solid_def simp del: parse_elems.simps)
qed simp

lemma parse_object_cut:
  assumes "\<forall>m \<in> set ms. reads p (snd m) \<and> cuts p (snd m)" "p [] = None" "strict_prefix q (encode (JObj ms))"
  shows "parse_with (Some p) q = None"
proof (cases q)
  case (Cons c q')
  with assms(3) have q: "c = CHR ''{''" "prefix q' (commas (map member_text ms))" by (auto simp: strict_prefix_def)
  moreover have "q' = [] \<or> (\<exists>d ds. q' = d # ds \<and> solid d)"
    by (intro prefix_solid [OF q(2)]) (auto simp: list_all_iff encode_string_def solid_def)
  ultimately show ?thesis using parse_members_cut [OF assms(1,2) q(2), of "length q'"] Cons
    by (auto simp: parse_with_def skip_solid solid_def simp del: parse_members.simps)
qed simp

lemma read_int_all_digits:
  assumes "list_all is_digit q" "q = [] \<or> hd q \<noteq> CHR ''0'' \<or> q = ''0''"
  shows "read_int q = None \<or> read_int q = Some (q, [])"
  using assms digits_stop [of q "[]"] by (cases q) (auto simp: read_int_def read_digits_def simp del: takeWhile.simps dropWhile.simps)

lemma nat_digits_prefix: "prefix q (nat_digits n) \<Longrightarrow> list_all is_digit q \<and> (q = [] \<or> hd q \<noteq> CHR ''0'' \<or> q = ''0'')"
  using nat_digits_are_digits [of n] nat_digits_zero [of n]
  by (cases q) (auto simp: prefix_def)

lemma read_number_cut: "prefix q (Itoa n) \<Longrightarrow> read_number q = None \<or> (\<exists>t. read_number q = Some (t, []))"
proof -
  assume q: "prefix q (Itoa n)"
  have digits: "and_then (and_then (read_int d) read_fraction) read_exponent = None
      \<or> and_then (and_then (read_int d) read_fraction) read_exponent = Some (d, [])" if "prefix d (nat_digits m)" for d m
    using read_int_all_digits [of d] nat_digits_prefix [OF that] by (auto simp: and_then_def read_stops)
  show ?thesis
  proof (cases "n < 0")
    case True
    with q digits show ?thesis by (cases q) (auto simp: read_number_def Itoa_def dest!: digits)
  next
    case False
    obtain e es where "nat_digits (nat n) = e # es" "48 \<le> (of_char e :: nat)" using nat_digits_hd by blast
    with False q digits [of q "nat n"] show ?thesis by (cases q) (auto simp: read_number_def Itoa_def)
  qed
qed

lemma scalar_cut: "integral v \<Longrightarrow> depth_within 0 v \<Longrightarrow> cuts (parse_with sub) v"
proof (cases v)
  case (JNum t)
  moreover assume "integral v"
  ultimately obtain n where t: "t = Itoa n" by auto
  obtain c cs where c: "Itoa n = c # cs" "solid c" "c = CHR ''-'' \<or> is_digit c" using Itoa_hd by blast
  then have d: "c \<notin> {quote, CHR ''n'', CHR ''t'', CHR ''f'', CHR ''['', CHR ''{''}" by (auto simp: is_digit_def digit_value_def)
  have "parse_with sub q = None \<or> (\<exists>t. parse_with sub q = Some (JNum t, []))" if "strict_prefix q (Itoa n)" for q
    using that c d read_number_cut [of q n] by (cases q) (auto simp: strict_prefix_def parse_with_def skip_solid)
  with JNum t show ?thesis by (simp add: cuts_def)
next
  case (JStr s)
  then show ?thesis using encode_string_cut by (fastforce simp: cuts_def parse_with_def)
qed (auto simp: cuts_def parse_with_def keyword_def skip_def strict_prefix_def prefix_Cons)

lemma parse_value_empty [simp]: "parse_value d [] = None"
  by (cases d) simp_all

lemma scalar_value_cut: "integral v \<Longrightarrow> depth_within 0 v \<Longrightarrow> cuts (parse_value d) v"
  by (cases d) (simp_all add: scalar_cut)

theorem parse_value_cut: "integral v \<Longrightarrow> depth_within d v \<Longrightarrow> cuts (parse_value d) v"
proof (induction v arbitrary: d)
  case (JArr vs)
  then obtain e where d: "d = Suc e" by (cases d) auto
  with JArr have "reads (parse_value e) v \<and> cuts (parse_value e) v" if "v \<in> set vs" for v
    using that by (auto intro: parse_value_encoded)
  then have "parse_with (Some (parse_value e)) q = None" if "strict_prefix q (encode (JArr vs))" for q
    using parse_array_cut [of vs "parse_value e" q] that JArr.prems(1) by simp
  with d show ?case by (simp add: cuts_def)
next
  case (JObj ms)
  then obtain e where d: "d = Suc e" by (cases d) auto
  have "reads (parse_value e) (snd m) \<and> cuts (parse_value e) (snd m)" if "m \<in> set ms" for m
    using JObj.IH [OF that, of "snd m" e] JObj.prems that d by (cases m) (auto intro: parse_value_encoded)
  then have "parse_with (Some (parse_value e)) q = None" if "strict_prefix q (encode (JObj ms))" for q
    using parse_object_cut [of ms "parse_value e" q] that by simp
  with d show ?case by (simp add: cuts_def)
qed (simp_all add: scalar_value_cut)

text \<open>One \<^verbatim>\<open>Decode\<close> of an encoded object, and of one that was cut off.\<close>

theorem decode_encoded:
  "integral v \<Longrightarrow> depth_within 10000 v \<Longrightarrow> stops r \<Longrightarrow> decode_json (encode v @ r) = Some (clean v, r)"
  using parse_value_encoded [of v 10000] by (simp add: decode_json_def reads_def)

theorem decode_cut_object:
  assumes "integral (JObj ms)" "depth_within 10000 (JObj ms)" "strict_prefix q (encode (JObj ms))"
  shows "decode_json q = None"
proof (cases q)
  case (Cons c q')
  with assms(3) have "c = CHR ''{''" by (auto simp: strict_prefix_def)
  moreover have "decode_json q = None \<or> (\<exists>t. decode_json q = Some (JNum t, []))"
    using parse_value_cut [OF assms(1,2)] assms(3) unfolding cuts_def decode_json_def by blast
  moreover have "parse_value (Suc d) (CHR ''{'' # s) \<noteq> Some (JNum t, [])" for d s t
    by (auto simp: parse_with_def split: list.splits)
  ultimately show ?thesis using Cons by (simp add: decode_json_def numeral_eq_Suc del: parse_value.simps)
qed (simp add: decode_json_def)

section \<open>Lengths\<close>

text \<open>Escaping makes a string at most six times as long, and never shorter.\<close>

definition rune_length :: "string option \<Rightarrow> nat" where
  "rune_length k = (case k of None \<Rightarrow> 1 | Some b \<Rightarrow> length b)"

lemma length_runes: "sum_list (map rune_length (runes s)) = length s"
proof (induction s rule: runes.induct)
  case (2 c cs)
  then show ?case
    by (cases "next_rune (c # cs)") (auto simp: rune_length_def dest!: next_rune_split dest: arg_cong [where f = length])
qed simp

lemma length_escape:
  assumes "\<And>b. k = Some b \<Longrightarrow> rune b"
  shows "rune_length k \<le> length (escape_rune k) \<and> length (escape_rune k) \<le> 6 * rune_length k"
proof (cases k)
  case None
  then show ?thesis by (simp add: rune_length_def escape_rune_def u_escape_def hex4_def)
next
  case (Some b)
  with assms have "rune b" by simp
  then show ?thesis
  proof (cases rule: rune_cases)
    case (ascii c)
    show ?thesis by (cases c rule: escape_ascii_cases)
        (simp_all add: Some ascii rune_length_def escape_rune_def u_escape_def hex4_def)
  next
    case (long c ks)
    with Some show ?thesis by (auto simp: rune_length_def escape_rune_def u_escape_def hex4_def)
  qed
qed

lemma length_encode_string: "length s + 2 \<le> length (encode_string s) \<and> length (encode_string s) \<le> 6 * length s + 2"
proof -
  have "(\<And>b. Some b \<in> set ks \<Longrightarrow> rune b) \<Longrightarrow> sum_list (map rune_length ks) \<le> length (concat (map escape_rune ks))
      \<and> length (concat (map escape_rune ks)) \<le> 6 * sum_list (map rune_length ks)" for ks
  proof (induction ks)
    case (Cons k ks)
    with length_escape [of k] show ?case by fastforce
  qed simp
  from this [of "runes s"] show ?thesis by (simp add: encode_string_def length_runes runes_rune)
qed

end
