(* ===== verification/Wire_Behaviour.thy ===== *)
theory Wire_Behaviour
  imports Wire Json_Behaviour
begin

text \<open>
  The bodies come back: filling a struct from an encoded object sets each tagged field from the member with its name,
  whatever follows the object in the stream, and an object that was cut by the limit of the reader is refused.
\<close>

section \<open>Tags\<close>

definition tag_char :: "char \<Rightarrow> bool" where
  "tag_char c \<longleftrightarrow> c = CHR ''_'' \<or> 97 \<le> (of_char c :: nat) \<and> of_char c \<le> (122 :: nat)"

definition tag :: "string \<Rightarrow> bool" where
  "tag s \<longleftrightarrow> list_all tag_char s"

lemma tag_char_ascii: "tag_char c \<Longrightarrow> 0 < (of_char c :: nat) \<and> of_char c < (128 :: nat)"
  by (auto simp: tag_char_def)

lemma tag_text [simp]: "tag s \<Longrightarrow> pg_text s"
  by (rule pg_text_ascii) (auto simp: tag_def list_all_iff dest: tag_char_ascii)

lemma tag_valid [simp]: "tag s \<Longrightarrow> to_valid s = s"
  by (simp add: to_valid_text)

lemma runes_ascii: "list_all (\<lambda>c. of_char c < (128 :: nat)) s \<Longrightarrow> runes s = map (\<lambda>c. Some [c]) s"
  by (induction s) simp_all

lemma foldName_tag: "tag s \<Longrightarrow> foldName s = map upper_char s"
proof -
  assume "tag s"
  then have "runes s = map (\<lambda>c. Some [c]) s" using tag_char_ascii by (intro runes_ascii) (auto simp: tag_def list_all_iff)
  moreover have "fold_rune (Some [c]) = [upper_char c]" for c by (simp add: fold_rune_def rune_bytes_def)
  ultimately show ?thesis by (simp add: foldName_def comp_def)
qed

lemma upper_char_tag:
  "tag_char c \<Longrightarrow> of_char (upper_char c) = (if of_char c = (95 :: nat) then 95 else of_char c - (32 :: nat))"
  by (auto simp: upper_char_def tag_char_def Let_def)

lemma upper_char_inj: "tag_char a \<Longrightarrow> tag_char b \<Longrightarrow> upper_char a = upper_char b \<longleftrightarrow> a = b"
proof -
  assume t: "tag_char a" "tag_char b"
  then have r: "of_char c = (95 :: nat) \<or> 97 \<le> (of_char c :: nat) \<and> of_char c \<le> (122 :: nat)" if "c = a \<or> c = b" for c using that by (auto simp: tag_char_def)
  have "of_char a = (of_char b :: nat)" if "upper_char a = upper_char b"
    using arg_cong [OF that, of "of_char :: char \<Rightarrow> nat"] upper_char_tag [OF t(1)] upper_char_tag [OF t(2)] r [of a] r [of b]
    by (auto split: if_splits simp del: of_char_eq_iff)
  then show ?thesis by (metis of_char_eq_iff)
qed

lemma foldName_inj: "tag a \<Longrightarrow> tag b \<Longrightarrow> foldName a = foldName b \<longleftrightarrow> a = b"
proof -
  assume t: "tag a" "tag b"
  then have "inj_on upper_char (set a \<union> set b)" by (auto simp: tag_def list_all_iff upper_char_inj intro!: inj_onI)
  then show ?thesis using t by (simp add: foldName_tag inj_on_map_eq_map)
qed

lemma tag_literals [simp]:
  "tag ''name''" "tag ''labels''" "tag ''architecture''" "tag ''operating_system''" "tag ''job_id''" "tag ''status''"
  "tag ''exit_code''" "tag ''error''" "tag ''runner_id''" "tag ''token''" "tag ''cancel''" "tag ''clone_token''"
  "tag ''id''" "tag ''repository''" "tag ''clone_url''" "tag ''commit_sha''" "tag ''branch''" "tag ''event_type''"
  "tag ''config_ref''" "tag ''attempts''" "tag ''created_at''" "tag ''started_at''" "tag ''completed_at''"
  "tag ''ref''" "tag ''after''" "tag ''deleted''" "tag ''full_name''"
  by (simp_all add: tag_def tag_char_def)

lemma set_member_tag:
  assumes "tag k" "list_all (\<lambda>(n, _). tag n) fs"
  shows "set_member fs (k, v) (z, ok) =
    (case map_of fs k of None \<Rightarrow> (z, ok) | Some f \<Rightarrow> (case f v z of (z', ok') \<Rightarrow> (z', ok \<and> ok')))"
proof -
  have "map_option snd (find (\<lambda>(n, _). foldName n = foldName k) fs) = map_of fs k"
    using assms(2)
  proof (induction fs)
    case (Cons p fs)
    obtain n f where "p = (n, f)" by (cases p)
    with Cons assms(1) foldName_inj [of n k] show ?case by simp
  qed simp
  then show ?thesis by (auto simp: set_member_def split: option.splits)
qed

section \<open>Streams\<close>

lemma Decode_object:
  "integral (JObj ms) \<Longrightarrow> depth_within 10000 (JObj ms) \<Longrightarrow> stops r \<Longrightarrow>
   Decode f z (encode (JObj ms) @ r) limited = f (clean (JObj ms)) z"
  using decode_encoded [of "JObj ms" r] by (simp add: Decode_def delayed_def)

lemma Decode_cut:
  "integral (JObj ms) \<Longrightarrow> depth_within 10000 (JObj ms) \<Longrightarrow> n < length (encode (JObj ms)) \<Longrightarrow>
   Decode f z (take n (encode (JObj ms))) limited = (z, False)"
  using decode_cut_object [of ms "take n (encode (JObj ms))"]
  by (simp add: Decode_def strict_prefix_def take_is_prefix del: encode.simps)

lemma newline_stops [simp]: "stops ''\<newline>''"
  by (simp add: stops_def is_digit_def digit_value_def)

lemma Atoi_Itoa_int: "in_int64 n \<Longrightarrow> Atoi (Itoa n) = Some n"
proof (cases "n < 0")
  case True
  assume "in_int64 n"
  moreover obtain d ds where d: "nat_digits (nat (- n)) = d # ds" using nat_digits_hd by blast
  moreover from this True have "digits_value 0 (d # ds) = Some (- n)" using digits_value_nat [of "nat (- n)"] by simp
  ultimately show ?thesis using True by (simp add: Atoi_def Itoa_def Let_def del: digits_value.simps)
qed (simp add: Atoi_Itoa in_int64_def)

lemma integral_Itoa [simp]: "integral (JNum (Itoa n))"
  by auto

declare integral.simps(1) [simp del]

lemma integral_strings [simp]: "integral (strings ss)" "depth_within (Suc d) (strings ss)" "clean (strings ss) = strings (map to_valid ss)"
  by (simp_all add: strings_def)

section \<open>The messages\<close>

lemmas filling = set_struct_def set_member_tag set_string_def set_bool_def set_int_def tag_literals Atoi_Itoa_int

lemma string_elems_all: "string_elems old (map JStr ss) = ss"
  by (rule nth_equalityI) (simp_all add: string_elems_def nth_enumerate_eq)

lemma set_strings_all:
  "set_strings get put (strings ss) z = (if ss = [] then put [] 0 z else put (ss @ drop (length ss) (get z)) (length ss) z, True)"
  by (simp add: set_strings_def strings_def string_elems_all list_all_iff)

lemma status_text [simp]: "to_valid (string_of_JobStatus st) = string_of_JobStatus st"
  by (rule to_valid_text) (cases st; simp add: utf8_rest_def)

lemma agent_json_read:
  "agent_json b = Some (JObj ms) \<Longrightarrow> integral (JObj ms) \<and> depth_within 10000 (JObj ms)"
  by (cases b) (auto simp: numeral_eq_Suc)

lemma agent_bytes_read:
  assumes "agent_json b = Some (JObj ms)" "stops r"
  shows "Decode f z (agent_bytes b @ r) limited = f (clean (JObj ms)) z"
  using assms Decode_object [of ms r] agent_json_read [OF assms(1)] by (simp add: agent_bytes_def del: encode.simps clean.simps)

lemma agent_bytes_cut:
  assumes "agent_json b = Some (JObj ms)" "n < length (agent_bytes b)"
  shows "Decode f z (take n (agent_bytes b)) limited = (z, False)"
  using assms Decode_cut [of ms n] agent_json_read [OF assms(1)] by (simp add: agent_bytes_def del: encode.simps)

lemma result_read:
  "in_int64 code \<Longrightarrow> stops r \<Longrightarrow> decode_result (agent_bytes (AgResult st code msg) @ r) limited
     = Inr \<lparr>rr_Status = string_of_JobStatus st, rr_ExitCode = code, rr_Error = to_valid msg\<rparr>"
  unfolding decode_result_def
  by (subst agent_bytes_read [OF agent_json.simps(3)]) (simp_all add: result_fields_def or_error_def filling)

lemma heartbeat_read: "stops r \<Longrightarrow> decode_heartbeat (agent_bytes (AgHeartbeat i) @ r) limited = Inr (to_valid i)"
  unfolding decode_heartbeat_def by (subst agent_bytes_read [OF agent_json.simps(2)]) (simp_all add: filling)

lemma register_read:
  "stops r \<Longrightarrow> decode_register (agent_bytes (AgRegister name labels arch os) @ r) limited
     = Inr \<lparr>rg_Name = to_valid name, rg_Labels = map to_valid labels, rg_Architecture = to_valid arch, rg_OS = to_valid os\<rparr>"
  unfolding decode_register_def
  by (subst agent_bytes_read [OF agent_json.simps(1)]) (simp_all add: register_fields_def or_error_def filling set_strings_all)

text \<open>The lengths of the bodies, for the limits of the handlers.\<close>

lemma result_length:
  "length msg < length (agent_bytes (AgResult st code msg))"
  "length (agent_bytes (AgResult st code msg)) \<le> 6 * length msg + length (Itoa code) + 200"
proof -
  note bounds = length_encode_string [of "''error''"] length_encode_string [of "''exit_code''"] length_encode_string [of "''status''"]
    length_encode_string [of msg] length_encode_string [of "string_of_JobStatus st"]
  have "length (string_of_JobStatus st) \<le> 9" by (cases st) simp_all
  with bounds show "length msg < length (agent_bytes (AgResult st code msg))"
    "length (agent_bytes (AgResult st code msg)) \<le> 6 * length msg + length (Itoa code) + 200" by (simp_all add: agent_bytes_def)
qed

lemma heartbeat_length:
  "length i < length (agent_bytes (AgHeartbeat i))" "length (agent_bytes (AgHeartbeat i)) \<le> 6 * length i + 50"
  using length_encode_string [of "''job_id''"] length_encode_string [of i] by (simp_all add: agent_bytes_def)

section \<open>The answers\<close>

lemma render_read:
  assumes "body_json fmt q b = Some (JObj ms)" "integral (JObj ms)" "depth_within 10000 (JObj ms)"
  shows "Decode f z (render_json fmt q b) limited = f (clean (JObj ms)) z"
  using assms Decode_object [of ms "''\<newline>''"] by (simp add: render_json_def del: encode.simps clean.simps)

lemma registered_read: "decode_registered (render_json fmt q (RegisterResponse i t)) = Inr (to_valid i, to_valid t)"
  unfolding decode_registered_def
  by (subst render_read [OF body_json.simps(4)]) (simp_all add: registerResponse_members_def or_error_def filling)

lemma cancel_read: "decode_cancel (render_json fmt q (HeartbeatResponse st c)) = Inr c"
  unfolding decode_cancel_def
  by (subst render_read [OF body_json.simps(5)]) (simp_all add: heartbeatResponse_members_def or_error_def filling)

definition clean_job :: "Job \<Rightarrow> Job" where
  "clean_job j = j\<lparr>j_id := to_valid (j_id j), j_repository := to_valid (j_repository j), j_clone_url := to_valid (j_clone_url j),
     j_commit_sha := to_valid (j_commit_sha j), j_branch := to_valid (j_branch j), j_event_type := to_valid (j_event_type j),
     j_config_ref := to_valid (j_config_ref j), j_labels := map to_valid (j_labels j),
     j_runner_id := map_option to_valid (j_runner_id j), j_error := to_valid (j_error j)\<rparr>"

lemma integral_members: "integral (JObj (jobDelivery_members fmt j t))" "depth_within 10000 (JObj (jobDelivery_members fmt j t))"
  by (auto simp: jobDelivery_members_def job_members_def optional_def nonempty_def numeral_eq_Suc split: option.splits)

lemma ParseJobStatus_text [simp]: "ParseJobStatus (string_of_JobStatus st) = Inr st"
  by (cases st) (simp_all add: ParseJobStatus_def)

lemma to_valid_Nil [simp]: "to_valid [] = []"
  by (simp add: to_valid_def)

lemma delivery_tags: "list_all (\<lambda>(n, _). tag n) (delivery_fields from)"
  by (simp add: delivery_fields_def)

abbreviation clean_members :: "(string \<times> json) list \<Rightarrow> (string \<times> json) list" where
  "clean_members \<equiv> map (\<lambda>(k, v). (to_valid k, clean v))"

text \<open>One member at a time; the optional ones leave the zero value when they are absent.\<close>

lemma delivery_field:
  "map_of (delivery_fields from) ''id'' = Some (set_string (in_job (\<lambda>s j. j\<lparr>j_id := s\<rparr>)))"
  "map_of (delivery_fields from) ''repository'' = Some (set_string (in_job (\<lambda>s j. j\<lparr>j_repository := s\<rparr>)))"
  "map_of (delivery_fields from) ''clone_url'' = Some (set_string (in_job (\<lambda>s j. j\<lparr>j_clone_url := s\<rparr>)))"
  "map_of (delivery_fields from) ''commit_sha'' = Some (set_string (in_job (\<lambda>s j. j\<lparr>j_commit_sha := s\<rparr>)))"
  "map_of (delivery_fields from) ''branch'' = Some (set_string (in_job (\<lambda>s j. j\<lparr>j_branch := s\<rparr>)))"
  "map_of (delivery_fields from) ''event_type'' = Some (set_string (in_job (\<lambda>s j. j\<lparr>j_event_type := s\<rparr>)))"
  "map_of (delivery_fields from) ''config_ref'' = Some (set_string (in_job (\<lambda>s j. j\<lparr>j_config_ref := s\<rparr>)))"
  "map_of (delivery_fields from) ''labels'' = Some (set_strings dl_labels (\<lambda>bs n d. in_job (\<lambda>ls j. j\<lparr>j_labels := ls\<rparr>) (take n bs) (d\<lparr>dl_labels := bs\<rparr>)))"
  "map_of (delivery_fields from) ''status'' = Some (set_string put_status)"
  "map_of (delivery_fields from) ''runner_id'' = Some (set_pointer (in_job (\<lambda>x j. j\<lparr>j_runner_id := x\<rparr>)) set_string)"
  "map_of (delivery_fields from) ''attempts'' = Some (set_int (in_job (\<lambda>n j. j\<lparr>j_attempts := n\<rparr>)))"
  "map_of (delivery_fields from) ''exit_code'' = Some (set_pointer (in_job (\<lambda>x j. j\<lparr>j_exit_code := x\<rparr>)) set_int)"
  "map_of (delivery_fields from) ''error'' = Some (set_string (in_job (\<lambda>s j. j\<lparr>j_error := s\<rparr>)))"
  "map_of (delivery_fields from) ''created_at'' = Some (set_time from (in_job (\<lambda>t j. j\<lparr>j_created_at := t\<rparr>)))"
  "map_of (delivery_fields from) ''started_at'' = Some (set_pointer (in_job (\<lambda>x j. j\<lparr>j_started_at := x\<rparr>)) (set_time from))"
  "map_of (delivery_fields from) ''completed_at'' = Some (set_pointer (in_job (\<lambda>x j. j\<lparr>j_completed_at := x\<rparr>)) (set_time from))"
  "map_of (delivery_fields from) ''clone_token'' = Some (set_string (\<lambda>s d. d\<lparr>dl_token := s\<rparr>))"
  by (simp_all add: delivery_fields_def)

lemmas put_delivered = set_member_tag [OF _ delivery_tags] delivery_field set_string_def set_int_def set_time_def set_pointer_def in_job_def

abbreviation fill_delivered :: "(string \<Rightarrow> time option) \<Rightarrow> (string \<times> json) list \<Rightarrow> delivered \<times> bool \<Rightarrow> delivered \<times> bool" where
  "fill_delivered from ms \<equiv> fold (set_member (delivery_fields from)) (clean_members ms)"

lemma fill_optional:
  "j_runner_id (dl_job d) = None \<Longrightarrow> fill_delivered from (optional ''runner_id'' (map_option JStr x)) (d, True)
     = (d\<lparr>dl_job := (dl_job d)\<lparr>j_runner_id := map_option to_valid x\<rparr>\<rparr>, True)"
  "j_exit_code (dl_job d) = None \<Longrightarrow> pred_option in_int64 c \<Longrightarrow>
     fill_delivered from (optional ''exit_code'' (map_option (\<lambda>n. JNum (Itoa n)) c)) (d, True) = (d\<lparr>dl_job := (dl_job d)\<lparr>j_exit_code := c\<rparr>\<rparr>, True)"
  "j_error (dl_job d) = [] \<Longrightarrow> fill_delivered from (optional ''error'' (nonempty e)) (d, True)
     = (d\<lparr>dl_job := (dl_job d)\<lparr>j_error := to_valid e\<rparr>\<rparr>, True)"
  "j_started_at (dl_job d) = None \<Longrightarrow> pred_option (\<lambda>t. from (to_valid (fmt t)) = Some t) u \<Longrightarrow>
     fill_delivered from (optional ''started_at'' (map_option (\<lambda>t. JStr (fmt t)) u)) (d, True) = (d\<lparr>dl_job := (dl_job d)\<lparr>j_started_at := u\<rparr>\<rparr>, True)"
  "j_completed_at (dl_job d) = None \<Longrightarrow> pred_option (\<lambda>t. from (to_valid (fmt t)) = Some t) u \<Longrightarrow>
     fill_delivered from (optional ''completed_at'' (map_option (\<lambda>t. JStr (fmt t)) u)) (d, True) = (d\<lparr>dl_job := (dl_job d)\<lparr>j_completed_at := u\<rparr>\<rparr>, True)"
  "dl_token d = [] \<Longrightarrow> fill_delivered from (optional ''clone_token'' (nonempty e)) (d, True) = (d\<lparr>dl_token := to_valid e\<rparr>, True)"
  subgoal by (cases x) (simp_all add: optional_def put_delivered)
  subgoal by (cases c) (simp_all add: optional_def put_delivered Atoi_Itoa_int)
  subgoal by (simp add: optional_def nonempty_def put_delivered)
  subgoal by (cases u) (simp_all add: optional_def put_delivered)
  subgoal by (cases u) (simp_all add: optional_def put_delivered)
  subgoal by (simp add: optional_def nonempty_def put_delivered)
  done

text \<open>The numbers of a job are Go integers, and its times read back.\<close>

definition job_readable :: "(string \<Rightarrow> time option) \<Rightarrow> (time \<Rightarrow> string) \<Rightarrow> Job \<Rightarrow> bool" where
  "job_readable from fmt j \<longleftrightarrow> in_int64 (j_attempts j) \<and> pred_option in_int64 (j_exit_code j)
     \<and> from (to_valid (fmt (j_created_at j))) = Some (j_created_at j)
     \<and> pred_option (\<lambda>t. from (to_valid (fmt t)) = Some t) (j_started_at j)
     \<and> pred_option (\<lambda>t. from (to_valid (fmt t)) = Some t) (j_completed_at j)"

lemma delivery_read:
  assumes "job_readable from fmt j"
  shows "decode_delivery from t0 (render_json fmt q (JobDelivery j t)) = Inr (clean_job j, to_valid t)"
proof -
  let ?z = "\<lparr>dl_job = zero_job t0, dl_status = [], dl_labels = [], dl_token = []\<rparr>"
  obtain d where d: "fill_delivered from (jobDelivery_members fmt j t) (?z, True) = (d, True)"
    "dl_job d = clean_job j" "dl_token d = to_valid t"
    using assms unfolding jobDelivery_members_def job_members_def comp_def job_readable_def
    by (simp add: put_delivered set_strings_all put_status_def fill_optional Atoi_Itoa_int zero_job_def clean_job_def)
  have "Decode (set_struct (delivery_fields from)) ?z (render_json fmt q (JobDelivery j t)) False = (d, True)"
    by (subst render_read [OF body_json.simps(10) integral_members]) (simp add: set_struct_def d(1) del: map_append)
  with d(2,3) show ?thesis by (simp add: decode_delivery_def or_error_def)
qed

section \<open>Objects with other members\<close>

text \<open>
  A struct filled from an object whose keys are distinct: each field gets the member with its name, in whatever order they
  come and whatever else is there. \<open>get\<close> is the part of the struct that the field \<open>k\<close> sets.
\<close>

definition plain_keys :: "(string \<times> json) list \<Rightarrow> bool" where
  "plain_keys ms \<longleftrightarrow> distinct (map fst ms) \<and> list_all (\<lambda>(k, _). tag k) ms"

definition keeps :: "(string \<times> 'a setter) list \<Rightarrow> string \<Rightarrow> ('a \<Rightarrow> 'b) \<Rightarrow> bool" where
  "keeps fs k get \<longleftrightarrow> (\<forall>n g v z. n \<noteq> k \<longrightarrow> map_of fs n = Some g \<longrightarrow> get (fst (g v z)) = get z)"

lemma fold_keeps:
  "list_all (\<lambda>(n, _). tag n) fs \<Longrightarrow> plain_keys ms \<Longrightarrow> k \<notin> fst ` set ms \<Longrightarrow> keeps fs k get \<Longrightarrow>
   get (fst (fold (set_member fs) ms (z, ok))) = get z"
proof (induction ms arbitrary: z ok)
  case (Cons m ms)
  obtain n v where m: "m = (n, v)" by (cases m)
  then have n: "tag n" "n \<noteq> k" using Cons.prems by (auto simp: plain_keys_def)
  obtain z' ok' where s: "set_member fs m (z, ok) = (z', ok')" by (cases "set_member fs m (z, ok)")
  then have "get z' = get z"
    using n Cons.prems(4) unfolding m set_member_tag [OF n(1) Cons.prems(1)]
    by (auto simp: keeps_def split: option.splits prod.splits) (metis fst_conv)+
  moreover have "get (fst (fold (set_member fs) ms (z', ok'))) = get z'"
    using Cons.prems by (intro Cons.IH) (auto simp: plain_keys_def)
  ultimately show ?case using s by simp
qed simp

lemma fold_field:
  assumes "list_all (\<lambda>(n, _). tag n) fs" "plain_keys ms" "keeps fs k get" "map_of fs k = Some f" "map_of ms k = Some v"
    and "\<And>z. get (fst (f v z)) = x"
  shows "get (fst (fold (set_member fs) ms (z, ok))) = x"
proof -
  obtain as bs where ms: "ms = as @ (k, v) # bs" using assms(5) by (metis map_of_SomeD split_list)
  then have k: "tag k" "plain_keys bs" "k \<notin> fst ` set bs" using assms(2) by (auto simp: plain_keys_def)
  obtain z1 ok1 where a: "fold (set_member fs) as (z, ok) = (z1, ok1)" by (cases "fold (set_member fs) as (z, ok)")
  obtain z2 ok2 where b: "set_member fs (k, v) (z1, ok1) = (z2, ok2)" by (cases "set_member fs (k, v) (z1, ok1)")
  then have "get z2 = x"
    using assms(6) [of z1] unfolding set_member_tag [OF k(1) assms(1)] assms(4) by (auto split: prod.splits)
  with fold_keeps [OF assms(1) k(2,3) assms(3), of z2 ok2] a b show ?thesis by (simp add: ms)
qed

lemma fold_ok:
  assumes "list_all (\<lambda>(n, _). tag n) fs" "plain_keys ms"
    and "\<And>k v f z. map_of ms k = Some v \<Longrightarrow> map_of fs k = Some f \<Longrightarrow> snd (f v z)"
  shows "snd (fold (set_member fs) ms (z, True))"
proof -
  have "snd (f v z)" if "(k, v) \<in> set ms" "map_of fs k = Some f" for k v f z
    using that assms(2,3) by (simp add: plain_keys_def)
  then show ?thesis using assms(2)
  proof (induction ms arbitrary: z)
    case (Cons m ms)
    obtain n v where m: "m = (n, v)" by (cases m)
    then have n: "tag n" using Cons.prems by (auto simp: plain_keys_def)
    obtain z' ok' where s: "set_member fs m (z, True) = (z', ok')" by (cases "set_member fs m (z, True)")
    then have "ok'" using Cons.prems(1) [of n v] unfolding m set_member_tag [OF n assms(1)]
      by (auto split: option.splits prod.splits) (metis snd_conv)
    moreover have "snd (fold (set_member fs) ms (z', True))"
      using Cons.prems by (intro Cons.IH) (auto simp: plain_keys_def)
    ultimately show ?case using s by simp
  qed simp
qed

lemma struct_keeps:
  assumes "\<And>n g v z. (n, g) \<in> set fs \<Longrightarrow> get (fst (g v z)) = get z"
  shows "get (fst (set_struct fs v z)) = get z"
proof -
  have "get (fst (set_member fs (k, v) (z, ok))) = get z" for k v z ok
  proof (cases "find (\<lambda>(n, _). foldName n = foldName k) fs")
    case (Some p)
    then have "p \<in> set fs" by (metis find_Some_iff nth_mem)
    with assms [of "fst p" "snd p" v z] Some show ?thesis by (cases p; cases "snd p v z") (simp add: set_member_def)
  qed (simp add: set_member_def)
  then have "get (fst (fold (set_member fs) ms x)) = get (fst x)" for ms x
    by (induction ms arbitrary: x) (simp_all, metis prod.collapse)
  then show ?thesis by (cases v) (simp_all add: set_struct_def)
qed

lemma clean_keys:
  assumes "plain_keys ms"
  shows "plain_keys (clean_members ms)" "map_of (clean_members ms) k = map_option clean (map_of ms k)"
proof -
  have c: "clean_members ms = map (\<lambda>(k, v). (k, clean v)) ms" using assms by (auto simp: plain_keys_def list_all_iff)
  show "plain_keys (clean_members ms)" using assms unfolding c by (simp add: plain_keys_def comp_def case_prod_beta list_all_iff)
  show "map_of (clean_members ms) k = map_option clean (map_of ms k)" unfolding c by (simp add: map_of_map)
qed

section \<open>Push payloads\<close>

definition repository_fields :: "(string \<times> pushPayload setter) list" where
  "repository_fields = [(''full_name'', set_string (\<lambda>s z. z\<lparr>pu_FullName := s\<rparr>)), (''clone_url'', set_string (\<lambda>s z. z\<lparr>pu_CloneURL := s\<rparr>))]"

lemma string_keeps: "(\<And>s z. get (put s z) = get z) \<Longrightarrow> get (fst (set_string put v z)) = get z"
  by (cases v) (simp_all add: set_string_def)

lemma bool_keeps: "(\<And>s z. get (put s z) = get z) \<Longrightarrow> get (fst (set_bool put v z)) = get z"
  by (cases v) (simp_all add: set_bool_def)

lemma push_keeps:
  "keeps push_fields ''ref'' pu_Ref" "keeps push_fields ''after'' pu_After" "keeps push_fields ''deleted'' pu_Deleted"
  "keeps push_fields ''repository'' pu_FullName" "keeps push_fields ''repository'' pu_CloneURL"
  "keeps repository_fields ''full_name'' pu_FullName" "keeps repository_fields ''clone_url'' pu_CloneURL"
  by (auto simp: keeps_def push_fields_def repository_fields_def string_keeps bool_keeps intro!: struct_keeps split: if_splits)

lemma push_tags: "list_all (\<lambda>(n, _). tag n) push_fields" "list_all (\<lambda>(n, _). tag n) repository_fields"
  by (simp_all add: push_fields_def repository_fields_def)

definition push_object :: "string \<Rightarrow> string \<Rightarrow> bool \<Rightarrow> string \<Rightarrow> string \<Rightarrow> (string \<times> json) list \<Rightarrow> bool" where
  "push_object ref sha deleted name url ms \<longleftrightarrow> plain_keys ms
     \<and> map_of ms ''ref'' = Some (JStr ref) \<and> map_of ms ''after'' = Some (JStr sha) \<and> map_of ms ''deleted'' = Some (JBool deleted)
     \<and> (\<exists>rs. map_of ms ''repository'' = Some (JObj rs) \<and> plain_keys rs
          \<and> map_of rs ''full_name'' = Some (JStr name) \<and> map_of rs ''clone_url'' = Some (JStr url))"

lemma push_filled:
  assumes "push_object ref sha deleted name url ms"
  shows "set_struct push_fields (JObj ms) z = (\<lparr>pu_Ref = ref, pu_After = sha, pu_Deleted = deleted, pu_FullName = name, pu_CloneURL = url\<rparr>, True)"
proof -
  obtain rs where m: "plain_keys ms" "map_of ms ''ref'' = Some (JStr ref)" "map_of ms ''after'' = Some (JStr sha)"
    "map_of ms ''deleted'' = Some (JBool deleted)" "map_of ms ''repository'' = Some (JObj rs)"
    and r: "plain_keys rs" "map_of rs ''full_name'' = Some (JStr name)" "map_of rs ''clone_url'' = Some (JStr url)"
    using assms by (auto simp: push_object_def)
  have f: "map_of push_fields ''ref'' = Some (set_string (\<lambda>s z. z\<lparr>pu_Ref := s\<rparr>))"
    "map_of push_fields ''after'' = Some (set_string (\<lambda>s z. z\<lparr>pu_After := s\<rparr>))"
    "map_of push_fields ''deleted'' = Some (set_bool (\<lambda>b z. z\<lparr>pu_Deleted := b\<rparr>))"
    "map_of push_fields ''repository'' = Some (set_struct repository_fields)"
    "map_of repository_fields ''full_name'' = Some (set_string (\<lambda>s z. z\<lparr>pu_FullName := s\<rparr>))"
    "map_of repository_fields ''clone_url'' = Some (set_string (\<lambda>s z. z\<lparr>pu_CloneURL := s\<rparr>))"
    by (simp_all add: push_fields_def repository_fields_def)
  have n: "pu_FullName (fst (set_struct repository_fields (JObj rs) z)) = name" "pu_CloneURL (fst (set_struct repository_fields (JObj rs) z)) = url" for z
    unfolding set_struct_def json.case
    by (rule fold_field [OF push_tags(2) r(1) push_keeps(6) f(5) r(2)], simp add: set_string_def)
      (rule fold_field [OF push_tags(2) r(1) push_keeps(7) f(6) r(3)], simp add: set_string_def)
  note field = fold_field [OF push_tags(1) m(1)]
  obtain p ok where p: "fold (set_member push_fields) ms (z, True) = (p, ok)" by (cases "fold (set_member push_fields) ms (z, True)")
  have "pu_Ref p = ref" using field [OF push_keeps(1) f(1) m(2), of ref z True] p by (simp add: set_string_def)
  moreover have "pu_After p = sha" using field [OF push_keeps(2) f(2) m(3), of sha z True] p by (simp add: set_string_def)
  moreover have "pu_Deleted p = deleted" using field [OF push_keeps(3) f(3) m(4), of deleted z True] p by (simp add: set_bool_def)
  moreover have "pu_FullName p = name" using field [OF push_keeps(4) f(4) m(5) n(1), of z True] p by simp
  moreover have "pu_CloneURL p = url" using field [OF push_keeps(5) f(4) m(5) n(2), of z True] p by simp
  moreover have ok
  proof -
    have "snd (fold (set_member repository_fields) rs (z, True))" for z
      using r by (intro fold_ok [OF push_tags(2) r(1)]) (auto simp: repository_fields_def set_string_def split: if_splits)
    then have "snd (fold (set_member push_fields) ms (z, True))"
      using m by (intro fold_ok [OF push_tags(1) m(1)])
        (auto simp: push_fields_def set_string_def set_bool_def set_struct_def repository_fields_def split: if_splits)
    with p show ?thesis by simp
  qed
  ultimately show ?thesis using p by (cases p) (simp add: set_struct_def)
qed

end
