(* ===== verification/Closed_Loop.thy ===== *)
theory Closed_Loop
  imports Protocol_Properties Wire_Behaviour
begin

text \<open>
  The agent connected to the control plane. \<open>connect_agent\<close> is a world of the agent in which every HTTP request is
  served by \<open>Routes\<close> on the state of the control plane, which nothing else in that world touches. What a
  call of the agent keeps true is proved once, in the locale \<open>kept_state\<close>, for every world whose operations
  keep it; for the connected world this gives that a run leaves the control plane exactly as its requests,
  served one after the other, leave it.
\<close>

section \<open>What the operations keep, the agent keeps\<close>

locale kept_state =
  fixes E :: "'n agent_env" and I :: "'n \<Rightarrow> bool"
  assumes mkdir_law: "I n \<Longrightarrow> I (snd (mc_MkdirAll E d n))"
    and remove_law: "I n \<Longrightarrow> I (snd (mc_RemoveAll E d n))"
    and command_law: "I n \<Longrightarrow> I (snd (mc_Command E d vars cmd n))"
    and do_law: "I n \<Longrightarrow> I (snd (ae_Do E rq n))"
    and read_law: "I n \<Longrightarrow> I (snd (ae_ReadFile E p n))"
    and execute_law: "I n \<Longrightarrow> I (snd (ae_Execute E x n))"
    and tick_law: "I n \<Longrightarrow> I (snd (ae_tick E n))"
begin

lemmas laws = mkdir_law remove_law command_law do_law read_law execute_law tick_law

lemma run_command: "I n \<Longrightarrow> I (snd (run_command E d cmd n))"
  by (simp add: run_command_def command_law)

lemma give_up: "I n \<Longrightarrow> I (snd (give_up E d msg n))"
  by (simp add: give_up_def remove_law)

lemma setup_steps: "I n \<Longrightarrow> I (snd (setup_steps E d cmds n))"
proof (induction cmds arbitrary: n)
  case (Cons c cs)
  with run_command [of n d c] show ?case by (auto split: prod.splits option.splits)
qed simp

lemma fetch: "I n \<Longrightarrow> I (snd (fetch E c d n))"
  unfolding fetch_def
  by (auto split: prod.splits option.splits) (metis run_command snd_conv)+

lemma check_out: "I n \<Longrightarrow> I (snd (check_out E c d n))"
  unfolding check_out_def
  by (auto split: prod.splits option.splits) (metis run_command give_up snd_conv)+

lemma prepareWorkspace:
  assumes "I n" shows "I (snd (prepareWorkspace E c n))"
proof -
  define cmds where "cmds = [[''git'', ''init'', ''-q''], [''git'', ''remote'', ''add'', ''origin'', co_CloneURL c]]"
  show ?thesis
    unfolding prepareWorkspace_def cmds_def [symmetric] Let_def
    using assms
    by (auto split: prod.splits option.splits) (metis mkdir_law setup_steps fetch check_out give_up snd_conv)+
qed

lemma agent_do: "I n \<Longrightarrow> I (snd (agent_do E a m p b n))"
  using do_law by (auto simp: agent_do_def split: sum.splits prod.splits) (metis snd_conv)+

lemma ship: "I n \<Longrightarrow> I (ship E a job q c n)"
  using do_law by (auto simp: ship_def shipLogs_def split: sum.splits prod.splits) (metis snd_conv)+

lemma reportResult: "I n \<Longrightarrow> I (reportResult E a i st code msg n)"
  by (simp add: reportResult_def agent_do)

lemma flush: "I n \<Longrightarrow> I (snd (flush (ship E a job) s n))"
  by (auto simp: flush_def flush_send_def ship split: option.splits)

lemma emit: "I (snd sn) \<Longrightarrow> I (snd (emit E (ship E a job) line sn))"
  using tick_law [of "snd sn"] by (auto simp: emit_def flush split: prod.splits)

lemma emits: "I (snd sn) \<Longrightarrow> I (snd (fold (emit E (ship E a job)) out sn))"
proof (induction out arbitrary: sn)
  case (Cons x out)
  from Cons.IH [OF emit [OF Cons.prems, of a job x]] show ?case by simp
qed simp

lemma close_stream: "I (snd sn) \<Longrightarrow> I (close_stream E a job sn)"
  by (simp add: close_stream_def Close_def flush)

lemma abandon: "I (snd sn) \<Longrightarrow> I (abandon E a job sn)"
  unfolding abandon_def by (intro close_stream emit)

lemma fail_job: "I (snd sn) \<Longrightarrow> I (fail_job E a job reason err sn)"
  unfolding fail_job_def by (intro reportResult close_stream emit)

lemma run_step:
  assumes "I (snd sn)" shows "I (run_step E a job step dir sn)"
proof -
  define line where "line = ''forgerun: running job '' @ ae_quote E (sj_Name step) @ '' in '' @ sj_Image step @ newline @ newline"
  obtain s n where e: "emit E (ship E a job) line sn = (s, n)" by force
  obtain out res n1 where x: "ae_Execute E (job_request (ag_cfg a) job step dir) n = ((out, res), n1)" by (metis prod.exhaust)
  obtain s2 n2 where f: "fold (emit E (ship E a job)) out (s, n1) = (s2, n2)" by force
  have "I n" using emit [OF assms, of a job line] e by simp
  with execute_law [of n "job_request (ag_cfg a) job step dir"] x have "I n1" by simp
  with emits [of "(s, n1)" a job out] f have i: "I (snd (s2, n2))" by simp
  have "run_step E a job step dir sn = (if ae_abandoned E n2 then abandon E a job (s2, n2)
      else case verdict res of (status, code, msg) \<Rightarrow>
        reportResult E a (j_id job) status code msg (close_stream E a job (s2, n2)))"
    unfolding run_step_def line_def [symmetric] by (simp add: e x f)
  with abandon [OF i] reportResult [OF close_stream [OF i]] show ?thesis by (simp split: prod.splits)
qed

lemma build:
  assumes "I (snd sn)" shows "I (snd (build E a job dir sn))"
proof -
  define line where "line = ''forgerun: checked out '' @ j_branch job @ '' at '' @ take 8 (j_commit_sha job) @ newline"
  define why where "why = ''cannot read '' @ j_config_ref job"
  obtain s n where e: "emit E (ship E a job) line sn = (s, n)" by force
  define path where "path = Join [dir, j_config_ref job]"
  obtain got n1 where r: "ae_ReadFile E path n = (got, n1)" by force
  have "I n" using emit [OF assms, of a job line] e by simp
  with read_law [of n path] r have i: "I (snd (s, n1))" by simp
  show ?thesis
    unfolding build_def line_def [symmetric] why_def [symmetric] path_def [symmetric] Let_def
    using assms i fail_job [OF i] run_step [OF i] by (simp add: e r split: sum.splits option.splits)
qed

lemma run_job:
  assumes "I n" shows "I (snd (run_job E a job token n))"
proof -
  define why where "why = ''checkout failed''"
  obtain r n1 where p: "prepareWorkspace E (checkout_of (ag_cfg a) job token) n = (r, n1)" by force
  have i: "I (snd (s, n1))" for s :: logStreamer using prepareWorkspace [OF assms] p by (metis snd_conv)
  show ?thesis
    unfolding run_job_def why_def [symmetric]
    using p abandon [OF i] fail_job [OF i] build [OF i] remove_law
    by (auto split: sum.splits prod.splits) (metis snd_conv)
qed

lemma execute: "I n \<Longrightarrow> I (snd (snd (execute E a job token n)))"
  using agent_do [of n] run_job
  by (auto simp: execute_eq split: prod.splits sum.splits) (metis snd_conv)+

end

section \<open>The connected world\<close>

definition connect_agent :: "(agent_body \<Rightarrow> string) \<Rightarrow> request \<Rightarrow> string \<Rightarrow> ('q, 'g) server \<Rightarrow> (body \<Rightarrow> string) \<Rightarrow> 'n agent_env
    \<Rightarrow> ('n \<times> ('q, 'g) api_world) agent_env" where
  "connect_agent enc base url srv render E = \<lparr>
     mc_MkdirAll = (\<lambda>d (n, w). case mc_MkdirAll E d n of (r, n') \<Rightarrow> (r, (n', w))),
     mc_RemoveAll = (\<lambda>d (n, w). case mc_RemoveAll E d n of (r, n') \<Rightarrow> (r, (n', w))),
     mc_Command = (\<lambda>d vars cmd (n, w). case mc_Command E d vars cmd n of (r, n') \<Rightarrow> (r, (n', w))),
     ae_url = ae_url E,
     ae_Do = (\<lambda>rq (n, w). case arrive enc base url srv rq w of (rs, w') \<Rightarrow>
       (Inr \<lparr>ar_status = rs_code rs, ar_body = render (rs_body rs)\<rparr>, (n, w'))),
     ae_ReadFile = (\<lambda>p (n, w). case ae_ReadFile E p n of (r, n') \<Rightarrow> (r, (n', w))),
     ae_Execute = (\<lambda>rq (n, w). case ae_Execute E rq n of (r, n') \<Rightarrow> (r, (n', w))),
     ae_tick = (\<lambda>(n, w). case ae_tick E n of (b, n') \<Rightarrow> (b, (n', w))),
     ae_abandoned = (\<lambda>(n, w). ae_abandoned E n),
     ae_yaml = ae_yaml E, ae_spec_order = ae_spec_order E, ae_name_order = ae_name_order E,
     ae_quote = ae_quote E, ae_registered = ae_registered E, ae_cancel = ae_cancel E,
     ae_delivery = ae_delivery E, ae_GOARCH = ae_GOARCH E, ae_GOOS = ae_GOOS E\<rparr>"

lemma connect_ok [simp]:
  "reachable_urls (connect_agent enc base url srv render E) \<longleftrightarrow> reachable_urls E"
  "names_kept (connect_agent enc base url srv render E) \<longleftrightarrow> names_kept E"
  "ae_abandoned (connect_agent enc base url srv render E) m = ae_abandoned E (fst m)"
  by (auto simp: reachable_urls_def names_kept_def connect_agent_def split: prod.splits)

definition served :: "(agent_body \<Rightarrow> string) \<Rightarrow> request \<Rightarrow> string \<Rightarrow> ('q, 'g) server \<Rightarrow> ('q, 'g) api_world
    \<Rightarrow> ('n \<times> ('q, 'g) api_world) \<times> act list \<Rightarrow> bool" where
  "served enc base url srv w0 st = (case st of ((n, w), tr) \<Rightarrow> w = arrive_all enc base url srv (requests_of tr) w0)"

lemma requests_of_snoc [simp]:
  "requests_of (tr @ [x]) = requests_of tr @ (case x of Http rq \<Rightarrow> [rq] | _ \<Rightarrow> [])"
  by (simp add: requests_of_def)

lemma arrive_all_snoc [simp]:
  "arrive_all enc base url srv (rqs @ [rq]) w = snd (arrive enc base url srv rq (arrive_all enc base url srv rqs w))"
  by (simp add: arrive_all_def)

interpretation wired: kept_state "observed (connect_agent enc base url srv render E)" "served enc base url srv w0"
  for enc base url srv render E w0
  by unfold_locales (auto simp: observed_def connect_agent_def served_def split: prod.splits)

section \<open>The requests of the agent arrive\<close>

lemma wire_api [simp]:
  "aq_method (api_request a path b) = ''POST''"
  "TrimPrefix (aq_url (api_request a path b)) (c_ServerURL (ag_cfg a)) = path"
  "rq_header (wire_request enc base (api_request a path b)) ''X-Runner-ID'' = ag_id a"
  "rq_header (wire_request enc base (api_request a path b)) ''Authorization'' = ''Bearer '' @ ag_token a"
  "aq_body (api_request a path b) = b"
  by (simp_all add: api_request_def wire_request_def del: append_Cons)

text \<open>An authenticated request of the agent is answered by the handler, but for the request id of the answer.\<close>

lemma arrives_at:
  fixes srv :: "('q, 'g) server" and w :: "('q, 'g) api_world"
  assumes "lease_ok srv a job (w_db w)"
    and "\<And>rq. Routes ''POST'' path srv rq w = withRequestID (\<lambda>srv rq w. withRunnerAuth h srv (rq\<lparr>rq_id := j_id job\<rparr>) w) srv rq w"
  shows "\<exists>i. arrive enc base (c_ServerURL (ag_cfg a)) srv (api_request a path b) w =
    (case h srv ((wire_request enc base (api_request a path b))\<lparr>rq_id := j_id job\<rparr>) w of
       (rs, w') \<Rightarrow> (rs\<lparr>rs_request_id := i\<rparr>, w'))"
proof -
  let ?rq = "(wire_request enc base (api_request a path b))\<lparr>rq_id := j_id job\<rparr>"
  have h: "rq_header ?rq ''X-Runner-ID'' = ag_id a" "rq_header ?rq ''Authorization'' = ''Bearer '' @ ag_token a" by simp_all
  have ids: "ag_id a \<noteq> []" using assms(1) by (simp add: lease_ok_def)
  have auth: "auth_id ?rq = ag_id a" "auth_token ?rq = ag_token a"
    unfolding auth_id_def auth_token_def h using ids by (simp_all only: if_False TrimPrefix_append)
  show ?thesis
    unfolding arrive_def wire_api assms(2) withRequestID_def auth_healthy [OF assms(1) auth]
    by (auto simp: Let_def split: prod.splits)
qed

lemma start_arrives:
  fixes srv :: "('q, 'g) server" and w :: "('q, 'g) api_world"
  assumes "lease_ok srv a job (w_db w)" "job_at (w_db w) (j_id job) = Some r" "j_status r = JobAssigned"
  shows "\<exists>rs w'. arrive enc base (c_ServerURL (ag_cfg a)) srv (start_request a job) w = (rs, w') \<and> rs_code rs = 200
    \<and> w_db w' = snd (StartJob (j_id job) (w_db w))
    \<and> job_at (w_db w') = (job_at (w_db w))(j_id job \<mapsto> r\<lparr>j_status := JobRunning, j_started_at := Some (db_now (w_db w))\<rparr>)
    \<and> runner_at (w_db w') = runner_at (w_db w)"
proof -
  let ?i = "j_id job" and ?s = "w_db w"
  let ?rq = "(wire_request enc base (start_request a job))\<lparr>rq_id := ?i\<rparr>"
  have seg: "segment ?i" and db: "db_script ?s = []" "distinct (map j_id (jobs ?s))"
    using assms(1) by (auto simp: lease_ok_def store_inv_def)
  have start: "StartJob ?i ?s = (Inr (), snd (change_status ?i JobAssigned JobRunning start_extra ?s))"
    using assms(2,3) by (simp add: StartJob_def transition_healthy [OF db] job_at_def)
  have rows: "job_at (snd (StartJob ?i ?s)) = (job_at ?s)(?i \<mapsto> start_extra (db_now ?s) (r\<lparr>j_status := JobRunning\<rparr>))"
    "runner_at (snd (StartJob ?i ?s)) = runner_at ?s" "db_script (snd (StartJob ?i ?s)) = []"
    using job_at_change [OF assms(2) lifecycle_change.to_running] start assms(3) db(1) by simp_all
  have h: "rq_header ?rq ''X-Runner-ID'' = ag_id a" "rq_id ?rq = ?i" by (simp_all add: start_request_def)
  have get: "snd (GetJob ?i (snd (StartJob ?i ?s))) = snd (StartJob ?i ?s)"
    using rows(1,3) by (simp add: job_at_def fun_eq_iff)
  have "w_db (snd (handleJobStart srv ?rq w)) = snd (StartJob ?i ?s)" "rs_code (fst (handleJobStart srv ?rq w)) = 200"
    using owns_healthy [OF assms(1) h(1)] start get h(2)
    by (simp_all add: handleJobStart_def on_db_eq report_job_db writeJSON_def respond_def)
  moreover obtain i where "arrive enc base (c_ServerURL (ag_cfg a)) srv (start_request a job) w =
      (case handleJobStart srv ?rq w of (rs, w') \<Rightarrow> (rs\<lparr>rs_request_id := i\<rparr>, w'))"
    using arrives_at [OF assms(1) Routes_start [OF seg], of enc base AgNone] unfolding start_request_def by blast
  ultimately show ?thesis using rows by (auto simp: start_extra_def split: prod.splits)
qed

text \<open>
  What the steps below need of the two codecs for the result: the control plane decodes what the agent encoded, provided the
  message is UTF-8 without NUL. The codecs of the code have it.
\<close>

definition results_decoded :: "(agent_body \<Rightarrow> string) \<Rightarrow> ('q, 'g) server \<Rightarrow> bool" where
  "results_decoded enc srv \<longleftrightarrow> (\<forall>st code msg. pg_text msg \<and> fits_int4 code \<longrightarrow>
     sv_result srv (enc (AgResult st code msg)) False
     = Inr \<lparr>rr_Status = string_of_JobStatus st, rr_ExitCode = code, rr_Error = msg\<rparr>)"

lemma json_results: "json_server srv \<Longrightarrow> results_decoded agent_bytes srv"
  using result_read [of _ "[]" _ _ False]
  by (simp add: json_server_def results_decoded_def to_valid_text fits_int4_def in_int64_def)

definition storable_result :: "(agent_body \<Rightarrow> string) \<Rightarrow> agent_request \<Rightarrow> bool" where
  "storable_result enc rq = (case aq_body rq of AgResult st code msg \<Rightarrow>
     length (enc (AgResult st code msg)) \<le> 2 ^ 16 \<and> arg_error code msg = None | _ \<Rightarrow> True)"

lemma result_arrives:
  fixes srv :: "('q, 'g) server" and w :: "('q, 'g) api_world"
  assumes "lease_ok srv a job (w_db w)" "own_inv {} (w_db w)" "job_at (w_db w) (j_id job) = Some r" "j_status r = JobRunning"
    and "results_decoded enc srv" "storable_result enc (result_request a job (st, code, msg))" "st = JobSuccess \<or> st = JobFailed"
  shows "\<exists>rs w'. arrive enc base (c_ServerURL (ag_cfg a)) srv (result_request a job (st, code, msg)) w = (rs, w')
    \<and> rs_code rs = 200
    \<and> job_at (w_db w') = (job_at (w_db w))(j_id job \<mapsto> r\<lparr>j_status := st, j_completed_at := Some (db_now (w_db w)),
        j_exit_code := Some code, j_error := msg\<rparr>)
    \<and> map_option r_status (runner_at (w_db w') (ag_id a)) = Some RunnerIdle
    \<and> (\<exists>job'. a_reports w' = a_reports w @ [\<lparr>sr_job = job',
         sr_state = (if st = JobSuccess then ''success'' else ''failure''),
         sr_description = (if st = JobSuccess then ''build passed'' else ''build failed with exit code '' @ Itoa code)\<rparr>]
         \<and> j_id job' = j_id job)"
proof -
  define req where "req = \<lparr>rr_Status = string_of_JobStatus st, rr_ExitCode = code, rr_Error = msg\<rparr>"
  let ?rq = "(wire_request enc base (result_request a job (st, code, msg)))\<lparr>rq_id := j_id job\<rparr>"
  have seg: "segment (j_id job)" and db: "db_script (w_db w) = []" and mine: "j_runner_id r = Some (ag_id a)"
    using assms(1,3) by (auto simp: lease_ok_def)
  have h: "rq_header ?rq ''X-Runner-ID'' = ag_id a" "rq_id ?rq = j_id job" "rq_body ?rq = enc (AgResult st code msg)"
    by (simp_all add: result_request_def) (simp add: wire_request_def)
  have fit: "length (enc (AgResult st code msg)) \<le> 2 ^ 16" "arg_error code msg = None"
    using assms(6) by (auto simp: storable_result_def result_request_def)
  then have dec: "decode_limited (sv_result srv) (2 ^ 16) (rq_body ?rq) = Inr req"
    using assms(5) unfolding h(3) by (simp add: decode_limited_def results_decoded_def req_def arg_error_None)
  have st: "(rr_Status req = ''SUCCESS'' \<and> st = JobSuccess) \<or> (rr_Status req = ''FAILED'' \<and> st = JobFailed)"
    using assms(7) by (auto simp: req_def)
  obtain rs w' where x: "handleJobResult srv ?rq w = (rs, w')" by force
  have can: "CanTransitionTo (j_status r) st" using assms(4,7) by auto
  obtain i where "arrive enc base (c_ServerURL (ag_cfg a)) srv (result_request a job (st, code, msg)) w =
      (case handleJobResult srv ?rq w of (rs, w') \<Rightarrow> (rs\<lparr>rs_request_id := i\<rparr>, w'))"
    using arrives_at [OF assms(1) Routes_result [OF seg], of enc base "AgResult st code msg"]
    unfolding result_request_def prod.case by blast
  moreover note result_effect [OF assms(2) db, of ?rq r srv req st rs w', unfolded h(1,2),
      OF assms(3) mine dec st x]
  ultimately show ?thesis using x can fit(2) by (auto simp: req_def)
qed

section \<open>A whole job\<close>

text \<open>The log grows, the lease stays.\<close>

lemma deliver_leased:
  assumes "lease_ok srv a job s" "own_inv {} s" "job_at s (j_id job) = Some r"
  shows "lease_ok srv a job (deliver (j_id job) ds s) \<and> own_inv {} (deliver (j_id job) ds s)
    \<and> db_now (deliver (j_id job) ds s) = db_now s
    \<and> (\<exists>q. job_at (deliver (j_id job) ds s) (j_id job)
         = Some (r\<lparr>j_logs := j_logs r @ accepted (j_log_seq r) ds, j_log_seq := q\<rparr>))"
  using assms
proof (induction ds arbitrary: s r)
  case Nil
  then show ?case by (auto intro: exI [of _ "j_log_seq r"])
next
  case (Cons x ds)
  obtain q c where x: "x = (q, c)" by force
  let ?i = "j_id job" and ?t = "snd (AppendLogs (j_id job) q c s)"
  let ?r = "if arg_error q c = None \<and> j_log_seq r < q then r\<lparr>j_logs := j_logs r @ c, j_log_seq := q\<rparr> else r"
  have db: "db_script s = []" "distinct (map j_id (jobs s))" using Cons.prems(1) by (auto simp: lease_ok_def store_inv_def)
  have row: "job_at ?t ?i = Some ?r" "db_now ?t = db_now s"
    using AppendLogs_healthy [OF db, of ?i q c] Cons.prems(3) row_at_Some [OF Cons.prems(3) [unfolded job_at_def]]
    by (cases "arg_error q c"; simp add: job_at_def row_at_sql_update)+
  have own: "own_inv {} ?t" using undisturbed_call_own [OF call_append Cons.prems(2) db(1)] by blast
  from Cons.IH [OF lease_ok_append [OF Cons.prems(1)] own row(1)] row(2) show ?case
    by (auto simp: x split: if_splits)
qed

lemma requests_of_append [simp]: "requests_of (xs @ ys) = requests_of xs @ requests_of ys"
  by (simp add: requests_of_def)

lemma requests_of_prep [simp]: "prep_ok d P \<Longrightarrow> requests_of P = []" "prep_failed d P \<Longrightarrow> requests_of P = []"
  by (auto simp: prep_ok_def prep_failed_def requests_of_def)

lemma requests_of_Cons [simp]:
  "requests_of (Http rq # xs) = rq # requests_of xs" "requests_of (Gone d # xs) = requests_of xs"
  "requests_of (ReadIt p # xs) = requests_of xs" "requests_of (Executed x ans # xs) = requests_of xs"
  "requests_of [] = []"
  by (simp_all add: requests_of_def)

lemma chunk_acts_length [simp]: "length (chunk_acts a job cs) = length cs"
  by (simp add: chunk_acts_def)

text \<open>The requests of a job after its start: the log chunks, then the result unless the job was taken away.\<close>

lemma job_acts_requests:
  "job_acts E a job d acts \<Longrightarrow> \<exists>cs R. requests_of acts = map (\<lambda>(q, c). chunk_request a job q c) cs @ map (result_request a job) R
    \<and> results_of acts = R \<and> numbered cs \<and> length cs \<le> length acts
    \<and> (\<forall>rq ans. Executed rq ans \<in> set acts \<longrightarrow> (\<exists>before after. concat (map snd cs) = before @ concat (fst ans) @ after))"
proof (induction rule: job_acts.induct)
  case (no_checkout P cs R m)
  then show ?case
    by (intro exI [of _ cs] exI [of _ "if R = [] then [] else [(JobFailed, -1, m)]"]) auto
next
  case (no_spec P cs ds p m)
  then show ?case by (intro exI [of _ "cs @ ds"] exI [of _ "[(JobFailed, -1, m)]"]) auto
next
  case (ran P cs ds es before ans after R step p)
  then show ?case
    by (intro exI [of _ "cs @ ds @ es"] exI [of _ "if R = [] then [] else [verdict (snd ans)]"])
      (auto simp: shipped_def split: prod.splits)
qed

lemma execute_started:
  assumes "reachable_urls E" "names_kept E" "8 \<le> length (j_commit_sha job)"
    and "ae_Do E (start_request a job) n = (Inr resp, n1)" "ar_status resp < 300"
    and "execute (observed E) a job token (n, []) = (panicked, a', (n', tr))"
  shows "\<not> panicked \<and> ag_active a' = None \<and> (\<exists>acts. tr = Http (start_request a job) # acts
    \<and> job_acts E a job (workspace_dir (checkout_of (ag_cfg a) job token)) acts)"
proof -
  let ?a = "snd (setActive (j_id job) a)"
  have rq: "agent_request_for (observed E) ?a ''POST'' (''/api/v1/jobs/'' @ j_id job @ ''/start'') AgNone
      = Inr (start_request a job)"
    using assms(1) by (simp add: agent_request_for_def reachable_urls_def start_request_def api_request_def Let_def setActive_def)
  have s: "agent_do (observed E) ?a ''POST'' (''/api/v1/jobs/'' @ j_id job @ ''/start'') AgNone (n, [])
      = (Inr (ar_body resp), (n1, [Http (start_request a job)]))"
    unfolding agent_do_def rq using assms(4,5) by (simp add: observed_calls)
  obtain q n2 tr2 where j: "run_job (observed E) ?a job token (n1, [Http (start_request a job)]) = (q, (n2, tr2))"
    by (metis prod.exhaust)
  from run_job_shape [OF assms(1,2) _ this] assms(3) obtain acts where acts: "\<not> q"
    "tr2 = Http (start_request a job) # acts"
    "job_acts E a job (workspace_dir (checkout_of (ag_cfg a) job token)) acts" by (auto simp: job_acts_active)
  have "(panicked, a', (n', tr)) = (q, clearActive (fst (setActive (j_id job) a)) ?a, (n2, tr2))"
    unfolding assms(6) [symmetric] execute_eq s by (simp only: prod.case sum.case j)
  with acts show ?thesis by (simp add: setActive_def clearActive_def)
qed

end
