(* ===== verification/Joined_Sample.thy ===== *)
theory Joined_Sample
  imports Closed_Loop
begin

text \<open>
  One run of the agent of the sample database, connected to a server that speaks JSON, on a host
  where every call succeeds and the container says hello. The lemmas compute its trace.
\<close>

text \<open>The sample server, with the decoders of the code.\<close>

definition wire_server :: "(mem, unit) server" where
  "wire_server = sample_server\<lparr>sv_register := decode_register, sv_heartbeat := decode_heartbeat, sv_result := decode_result,
     sv_push := decode_push, sv_pull_request := decode_pull_request\<rparr>"

lemma wire_server_json: "json_server wire_server"
  by (simp add: json_server_def wire_server_def)

definition assigned_pool :: db where
  "assigned_pool = snd (AssignJob ''a'' ''x'' pool)"
  \<comment> \<open>job a assigned to x\<close>

lemma assigned_pool_own: "own_inv {} assigned_pool" "db_script assigned_pool = []"
  unfolding assigned_pool_def using undisturbed_call_own [OF call_assign pool_own pool_script, of "''a''" "''x''"] by blast+

lemma assigned_rows:
  "\<exists>r. job_at assigned_pool ''a'' = Some r \<and> j_runner_id r = Some ''x'' \<and> j_status r = JobAssigned \<and> j_log_seq r = 0 \<and> j_logs r = []"
  "\<exists>x. runner_at assigned_pool ''x'' = Some x \<and> r_token_hash x = ''6b6579''"
proof -
  have c: "case job_at assigned_pool ''a'' of None \<Rightarrow> False | Some r \<Rightarrow>
      j_runner_id r = Some ''x'' \<and> j_status r = JobAssigned \<and> j_log_seq r = 0 \<and> j_logs r = []"
    "case runner_at assigned_pool ''x'' of None \<Rightarrow> False | Some x \<Rightarrow> r_token_hash x = ''6b6579''"
    by code_simp+
  show "\<exists>r. job_at assigned_pool ''a'' = Some r \<and> j_runner_id r = Some ''x'' \<and> j_status r = JobAssigned \<and> j_log_seq r = 0 \<and> j_logs r = []"
    using c(1) by (auto split: option.splits)
  show "\<exists>x. runner_at assigned_pool ''x'' = Some x \<and> r_token_hash x = ''6b6579''"
    using c(2) by (auto split: option.splits)
qed

lemma assigned_lease: "lease_ok wire_server lease_agent demo_job (w_db (sample_state assigned_pool [] []))"
proof -
  have "hashToken wire_server ''key'' = ''6b6579''" by code_simp
  then show ?thesis
    using assigned_pool_own assigned_rows
    by (auto simp: lease_ok_def lease_agent_def demo_agent_def segment_def demo_job_def own_inv_def)
qed

text \<open>A quiet host: the ticker of the log stream never fires, so the log is one chunk.\<close>

definition quiet :: "unit agent_env" where
  "quiet = demo\<lparr>ae_tick := \<lambda>n. (False, n)\<rparr>"

abbreviation "joined base \<equiv> observed (connect_agent agent_bytes base (c_ServerURL (ag_cfg lease_agent)) wire_server (\<lambda>_. []) quiet)"

lemma joined_do: "ae_Do (joined base) rq ((n, w), tr) =
  (let (rs, w') = arrive agent_bytes base (c_ServerURL (ag_cfg lease_agent)) wire_server rq w in (Inr \<lparr>ar_status = rs_code rs, ar_body = []\<rparr>, ((n, w'), tr @ [Http rq])))"
  by (simp add: observed_calls connect_agent_def split: prod.splits)

lemma joined_calls: "mc_MkdirAll (joined base) d ((n, w), tr) = (None, ((n, w), tr @ [Made d None]))"
  "mc_RemoveAll (joined base) d ((n, w), tr) = (None, ((n, w), tr @ [Gone d]))"
  "run_command (joined base) d cmd ((n, w), tr) = (([], None), ((n, w), tr @ [Ran d cmd]))"
  "ae_ReadFile (joined base) p ((n, w), tr) = (Inr ''spec'', ((n, w), tr @ [ReadIt p]))"
  "ae_Execute (joined base) x ((n, w), tr) = (([''hello''], \<lparr>x_ExitCode = 0, x_TimedOut = False\<rparr>, None), ((n, w), tr @ [Executed x ([''hello''], \<lparr>x_ExitCode = 0, x_TimedOut = False\<rparr>, None)]))"
  "ae_tick (joined base) st = (False, st)"
  "ae_abandoned (joined base) st = False"
  "ae_url (joined base) u = None" "ae_quote (joined base) = (\<lambda>s. s)"
  "ae_yaml (joined base) = (\<lambda>_. Inr [(''test'', \<lparr>sj_Name = [], sj_Image = [], sj_Commands = [''make''], sj_Env = [], sj_Labels = []\<rparr>)])"
  "ae_spec_order (joined base) = (\<lambda>s. s)" "ae_name_order (joined base) = (\<lambda>s. s)"
  by (simp_all add: run_command_def observed_def connect_agent_def quiet_def demo_def split: prod.splits)

lemma joined_sends: "reachable_urls (connect_agent agent_bytes base (c_ServerURL (ag_cfg lease_agent)) wire_server (\<lambda>_. []) quiet)"
  unfolding connect_ok by (simp add: reachable_urls_def quiet_def demo_def)

lemma parse_spec: "ParseFile (\<lambda>_. Inr ''spec'') (\<lambda>_. Inr [(''test'', \<lparr>sj_Name = [], sj_Image = [], sj_Commands = [''make''], sj_Env = [], sj_Labels = []\<rparr>)]) (\<lambda>s. s) p
  = Inr [(''test'', \<lparr>sj_Name = ''test'', sj_Image = [], sj_Commands = [''make''], sj_Env = [], sj_Labels = []\<rparr>)]"
  by (simp add: ParseFile_def Parse_def)

lemma joined_workspace: "\<exists>cmds. length cmds = 4 \<and> prepareWorkspace (joined base) c ((n, w), tr) = (Inr (workspace_dir c), ((n, w), tr @ Made (workspace_dir c) None # map (Ran (workspace_dir c)) cmds))"
  by (auto simp: prepareWorkspace_def joined_calls fetch_def check_out_def Let_def simp del: observed_sel
     intro!: exI [of _ "[_,_,_,_]"])

lemma joined_emit: "emit (joined base) send line (s, st) = (Write line s, st)"
  by (simp add: emit_def joined_calls del: observed_sel)

abbreviation "said \<equiv> ([''hello''], \<lparr>x_ExitCode = 0, x_TimedOut = False\<rparr>, None)"

definition running_line :: "SpecJob \<Rightarrow> string" where
  "running_line step = ''forgerun: running job '' @ sj_Name step @ '' in '' @ sj_Image step @ newline @ newline"

definition checked_line :: "Job \<Rightarrow> string" where
  "checked_line job = ''forgerun: checked out '' @ j_branch job @ '' at '' @ take 8 (j_commit_sha job) @ newline"

lemma joined_run_step:
  assumes "ls_hand s = None" "\<not> ls_done s"
  shows "\<exists>m. run_step (joined base) a demo_job step d (s, ((n, w), tr)) =
   (m, tr @ [Executed (job_request (ag_cfg a) demo_job step d) said,
     Http (chunk_request a demo_job (ls_seq s + 1) (ls_buf s @ running_line step @ ''hello'')),
     Http (result_request a demo_job (JobSuccess, 0, []))])"
proof -
  let ?x = "Executed (job_request (ag_cfg a) demo_job step d) said"
  let ?c = "ls_buf s @ running_line step @ ''hello''"
  obtain m where m: "ship (joined base) a demo_job (ls_seq s + 1) ?c ((n, w), tr @ [?x]) = (m, (tr @ [?x]) @ [Http (chunk_request a demo_job (ls_seq s + 1) ?c)])"
    using ship_observed [OF joined_sends] by blast
  have c: "close_stream (joined base) a demo_job (Write ''hello'' (Write (running_line step) s), ((n, w), tr @ [?x])) = (m, (tr @ [?x]) @ [Http (chunk_request a demo_job (ls_seq s + 1) ?c)])"
    using m assms by (simp add: close_stream_def Close_def flush_def flush_take_def flush_send_def Write_def)
  have v: "verdict (snd said) = (JobSuccess, 0, [])" by (simp add: verdict_def)
  obtain m' where r: "reportResult (joined base) a (j_id demo_job) JobSuccess 0 [] (m, (tr @ [?x]) @ [Http (chunk_request a demo_job (ls_seq s + 1) ?c)])
     = (m', ((tr @ [?x]) @ [Http (chunk_request a demo_job (ls_seq s + 1) ?c)]) @ [Http (result_request a demo_job (JobSuccess, 0, []))])"
    using report_observed [OF joined_sends] by blast
  show ?thesis
    unfolding run_step_def joined_calls running_line_def [symmetric] using c r v
    by (cases m') (simp add: joined_emit joined_calls running_line_def [symmetric] del: observed_sel)
qed

definition demo_step :: SpecJob where
  "demo_step = \<lparr>sj_Name = ''test'', sj_Image = c_DefaultImage (ag_cfg lease_agent), sj_Commands = [''make''], sj_Env = [], sj_Labels = []\<rparr>"

lemma parse_demo: "Primary (\<lambda>s. s) [(''test'', j)] = Some j"
  by (simp add: Primary_def)

lemma demo_step_image: "(if sj_Image step = [] then step\<lparr>sj_Image := c_DefaultImage (ag_cfg lease_agent)\<rparr> else step) = demo_step"
  if "step = \<lparr>sj_Name = ''test'', sj_Image = [], sj_Commands = [''make''], sj_Env = [], sj_Labels = []\<rparr>" for step
  by (simp add: that demo_step_def)

definition demo_text :: string where
  "demo_text = checked_line demo_job @ running_line demo_step @ ''hello''"

lemma joined_build:
  assumes "ag_cfg a = ag_cfg lease_agent"
  shows "\<exists>p m. build (joined base) a demo_job d (newLogStreamer, ((n, w), tr)) = (False,
   (m, tr @ [ReadIt p, Executed (job_request (ag_cfg a) demo_job demo_step d) said,
     Http (chunk_request a demo_job 1 demo_text),
     Http (result_request a demo_job (JobSuccess, 0, []))]))"
proof -
  define path where "path = Join [d, j_config_ref demo_job]"
  have sha: "\<not> length (j_commit_sha demo_job) < 8" by (simp add: demo_job_def)
  let ?s = "Write (checked_line demo_job) newLogStreamer"
  have s: "ls_hand ?s = None" "\<not> ls_done ?s" "ls_seq ?s + 1 = 1" "ls_buf ?s = checked_line demo_job"
    by (simp_all add: Write_def newLogStreamer_def)
  from joined_run_step [OF s(1,2), of base a demo_step d n w "tr @ [ReadIt path]", unfolded s(3,4) demo_text_def [symmetric]]
  obtain m where r: "run_step (joined base) a demo_job demo_step d (?s, ((n, w), tr @ [ReadIt path])) =
   (m, (tr @ [ReadIt path]) @ [Executed (job_request (ag_cfg a) demo_job demo_step d) said,
     Http (chunk_request a demo_job 1 demo_text),
     Http (result_request a demo_job (JobSuccess, 0, []))])" by blast
  show ?thesis
    unfolding build_def joined_emit checked_line_def [symmetric] path_def [symmetric] Let_def if_not_P [OF sha] prod.case joined_calls
      parse_spec parse_demo sum.case option.case assms demo_step_image [OF refl] r [unfolded assms]
    by (cases m) (simp only: append.assoc append_Cons append_Nil prod.inject, blast)
qed

lemma joined_trace:
  assumes "arrive agent_bytes base (c_ServerURL (ag_cfg lease_agent)) wire_server (start_request lease_agent demo_job) w = (rs, w1)"
    "rs_code rs < 300"
  shows "\<exists>a' m tr. execute (joined base) lease_agent demo_job [] (((), w), []) = (False, a', (m, tr))
    \<and> requests_of tr = [start_request lease_agent demo_job, chunk_request lease_agent demo_job 1 demo_text,
        result_request lease_agent demo_job (JobSuccess, 0, [])]
    \<and> (\<exists>rq. Executed rq said \<in> set tr) \<and> length tr < 100"
proof -
  let ?a = "snd (setActive (j_id demo_job) lease_agent)" and ?E = "connect_agent agent_bytes base (c_ServerURL (ag_cfg lease_agent)) wire_server (\<lambda>_. []) quiet"
  have rq: "agent_request_for (joined base) ?a ''POST'' (''/api/v1/jobs/'' @ j_id demo_job @ ''/start'') AgNone
      = Inr (start_request lease_agent demo_job)"
    by (simp add: agent_request_for_def joined_calls start_request_def api_request_def Let_def setActive_def del: observed_sel)
  have st: "agent_do (joined base) ?a ''POST'' (''/api/v1/jobs/'' @ j_id demo_job @ ''/start'') AgNone (((), w), []) = (Inr [], (((), w1), [Http (start_request lease_agent demo_job)]))"
    unfolding agent_do_def rq using assms by (simp add: joined_do)
  have cfg: "ag_cfg ?a = ag_cfg lease_agent" by simp
  define c where "c = checkout_of (ag_cfg ?a) demo_job []"
  obtain cmds where p: "length cmds = 4" "prepareWorkspace (joined base) c (((), w1), [Http (start_request lease_agent demo_job)]) = (Inr (workspace_dir c),
      (((), w1), [Http (start_request lease_agent demo_job)] @ Made (workspace_dir c) None # map (Ran (workspace_dir c)) cmds))"
    using joined_workspace by blast
  let ?tr = "[Http (start_request lease_agent demo_job)] @ Made (workspace_dir c) None # map (Ran (workspace_dir c)) cmds"
  obtain path n2 w2 where b: "build (joined base) ?a demo_job (workspace_dir c) (newLogStreamer, (((), w1), ?tr)) = (False,
      ((n2, w2), ?tr @ [ReadIt path, Executed (job_request (ag_cfg ?a) demo_job demo_step (workspace_dir c)) said,
      Http (chunk_request lease_agent demo_job 1 demo_text), Http (result_request lease_agent demo_job (JobSuccess, 0, []))]))"
    using joined_build [OF cfg, of base "workspace_dir c" "()" w1 ?tr] by (metis active_frame(1,2) prod.exhaust)
  show ?thesis
    unfolding execute_eq st prod.case sum.case run_job_def c_def [symmetric] p(2) b joined_calls
    using p(1) by (auto simp: requests_of_def comp_def)
qed

lemma demo_text_fits: "length demo_text < 200" "pg_text demo_text"
  by code_simp+

end
