(* ===== verification/System_Properties.thy ===== *)
theory System_Properties
  imports Joined_Sample
begin

text \<open>
  Properties of the system as a whole: a job from its assignment to its verdict, with the agent and the
  control plane connected.
\<close>

section \<open>A job is carried out\<close>

lemma chunk_body [simp]: "aq_body (chunk_request a job q c) = AgChunk c"
  by (simp add: chunk_request_def)









section \<open>A result that cannot be stored\<close>






end
