(* ===== verification/Heartbeat_Properties.thy ===== *)
theory Heartbeat_Properties
  imports Joined_Sample
begin

text \<open>
  The heartbeat goroutine of the agent. First its round against the control plane: what makes the agent stop its job.
  Then the two goroutines of the agent side by side, \<open>execute\<close> and \<open>heartbeatLoop\<close>, which share the pointer to the
  active job (under \<open>a.mu\<close>) and the atomic flag of each job, while the control plane changes as it likes.
\<close>

section \<open>A round against the control plane\<close>

lemma runner_path_split:
  assumes "segment x"
  shows "split_on CHR ''/'' (''/api/v1/runners/'' @ x @ ''/heartbeat'') = [[], ''api'', ''v1'', ''runners'', x, ''heartbeat'']"
proof -
  have "split_on CHR ''/'' (''/api/v1/runners/'' @ x @ ''/heartbeat'')
      = [[], ''api'', ''v1'', ''runners'', x] @ split_on CHR ''/'' ''heartbeat''"
    using split_on_append [of "CHR ''/''" "''/api/v1/runners''" "x @ CHR ''/'' # ''heartbeat''"]
      split_on_append [of "CHR ''/''" x "''heartbeat''"] split_on_single [of "CHR ''/''" x] assms
    by (simp add: segment_def)
  then show ?thesis by simp
qed

lemma Routes_heartbeat:
  fixes srv :: "('q, 'g) server"
  assumes "segment x"
  shows "Routes ''POST'' (''/api/v1/runners/'' @ x @ ''/heartbeat'') srv rq w =
    withRequestID (\<lambda>srv rq w. withRunnerAuth handleHeartbeat srv (rq\<lparr>rq_id := x\<rparr>) w) srv rq w"
proof (rule Routes_at)
  show "(matching (''/api/v1/runners/'' @ x @ ''/heartbeat'') :: (string \<times> string \<times> ('q, 'g) handler) list) =
      [(''POST'', ''/api/v1/runners/{id}/heartbeat'', withRunnerAuth handleHeartbeat)]"
    unfolding matching_def path_id_def runner_path_split [OF assms] route_table_def
    using assms by (simp add: segment_def)
  show "path_id ''/api/v1/runners/{id}/heartbeat'' (''/api/v1/runners/'' @ x @ ''/heartbeat'') = Some x"
    unfolding path_id_def runner_path_split [OF assms] using assms by (simp add: segment_def)
qed (simp add: pick_def)

text \<open>The agent is registered; the codecs of the heartbeat give back the job id one way and the flag the other way, as those of the code do.\<close>

definition registered :: "('q, 'g) server \<Rightarrow> agent \<Rightarrow> db \<Rightarrow> bool" where
  "registered srv a s \<longleftrightarrow> segment (ag_id a) \<and> ag_token a \<noteq> []
     \<and> (\<exists>b. runner_at s (ag_id a) = Some b \<and> r_token_hash b = hashToken srv (ag_token a))"

definition beats_decoded :: "(agent_body \<Rightarrow> string) \<Rightarrow> (body \<Rightarrow> string) \<Rightarrow> ('q, 'g) server \<Rightarrow> 'n agent_env \<Rightarrow> string \<Rightarrow> bool" where
  "beats_decoded enc render srv E i \<longleftrightarrow>
     decode_limited (sv_heartbeat srv) (4 * 2 ^ 10) (enc (AgHeartbeat i)) = Inr i
     \<and> (\<forall>st c. ae_cancel E (render (HeartbeatResponse st c)) = Inr c)"

lemma json_beats:
  "json_server srv \<Longrightarrow> json_agent from t0 E \<Longrightarrow> pg_text i \<Longrightarrow> length (agent_bytes (AgHeartbeat i)) \<le> 4 * 2 ^ 10 \<Longrightarrow>
   beats_decoded agent_bytes (render_json fmt q) srv E i"
  using heartbeat_read [of "[]" i False]
  by (simp add: beats_decoded_def json_server_def json_agent_def decode_limited_def to_valid_text cancel_read)

definition lease_gone :: "db \<Rightarrow> string \<Rightarrow> string \<Rightarrow> bool" where
  "lease_gone s x i = (case job_at s i of None \<Rightarrow> True
     | Some r \<Rightarrow> j_status r \<in> {JobSuccess, JobFailed, JobCancelled} \<or> j_runner_id r \<noteq> Some x)"

text \<open>The database answers throughout, or its third call of the request fails: the read of the job.\<close>

lemma beat_handled:
  assumes "registered srv a (w_db w)" "rq_header rq ''X-Runner-ID'' = ag_id a" "auth_token rq = ag_token a" "rq_id rq = ag_id a"
    and "decode_limited (sv_heartbeat srv) (4 * 2 ^ 10) (rq_body rq) = Inr i" "i \<noteq> []"
    and "db_script (w_db w) = [] \<and> c = lease_gone (w_db w) (ag_id a) i \<or> db_script (w_db w) = [Okay, Okay, Fails e] \<and> c"
  shows "\<exists>w'. withRunnerAuth handleHeartbeat srv rq w = (writeJSON 200 (HeartbeatResponse ''ok'' c), w') \<and> jobs (w_db w') = jobs (w_db w)
    \<and> db_script (w_db w') = []"
proof -
  from assms(1) obtain b where b: "segment (ag_id a)" "ag_token a \<noteq> []" "row_at r_id (ag_id a) (runners (w_db w)) = Some b"
    "r_token_hash b = hashToken srv (ag_token a)" by (auto simp: registered_def runner_at_def)
  have x: "auth_id rq = ag_id a" "ag_id a \<noteq> []" using b(1) assms(2) by (auto simp: auth_id_def segment_def)
  have m: "rows_matching (\<lambda>r. r_id r = ag_id a) (runners (w_db w)) \<noteq> 0"
    using b(3) rows_matching_key_0 [of r_id "ag_id a" "runners (w_db w)"] by simp
  from assms(7) show ?thesis
  proof (elim disjE conjE)
    assume s: "db_script (w_db w) = []" "c = lease_gone (w_db w) (ag_id a) i"
    then show ?thesis
      using b x m assms(3-6)
      by (auto simp: withRunnerAuth_def RunnerTokenHash_def handleHeartbeat_def Heartbeat_def refresh_heartbeat_def update_runners_def
          leaseLost_def lease_gone_def job_at_def on_db_eq select_def Terminal_iff scanJob_def Let_def split: option.splits)
  next
    assume s: "db_script (w_db w) = [Okay, Okay, Fails e]" "c"
    then show ?thesis
      using b x m assms(3-6)
      by (auto simp: withRunnerAuth_def RunnerTokenHash_def handleHeartbeat_def Heartbeat_def refresh_heartbeat_def update_runners_def
          leaseLost_def GetJob_def on_db_eq db_exec_def select_def Let_def split: option.splits)
  qed
qed

lemma round_answered:
  fixes srv :: "('q, 'g) server" and w :: "('q, 'g) api_world"
  assumes "registered srv a (w_db w)" "reachable_urls E" "beats_decoded enc render srv E i" "ag_active a = Some (p, i)" "i \<noteq> []"
    and "db_script (w_db w) = [] \<and> c = lease_gone (w_db w) (ag_id a) i \<or> db_script (w_db w) = [Okay, Okay, Fails e] \<and> c"
  shows "\<exists>w'. heartbeat_round (connect_agent enc base (c_ServerURL (ag_cfg a)) srv render E) a (n, w)
      = (if c then Some p else None, (n, w')) \<and> jobs (w_db w') = jobs (w_db w) \<and> db_script (w_db w') = []"
proof -
  let ?E = "connect_agent enc base (c_ServerURL (ag_cfg a)) srv render E" and ?path = "''/api/v1/runners/'' @ ag_id a @ ''/heartbeat''"
  define rq where "rq = api_request a ?path (AgHeartbeat i)"
  let ?wr = "(wire_request enc base rq)\<lparr>rq_id := ag_id a\<rparr>"
  have seg: "segment (ag_id a)" using assms(1) by (simp add: registered_def)
  have sent: "agent_request_for ?E a ''POST'' ?path (AgHeartbeat i) = Inr rq"
    using assms(2) by (simp add: agent_request_for_def reachable_urls_def connect_agent_def rq_def api_request_def Let_def)
  have h: "rq_header ?wr ''X-Runner-ID'' = ag_id a" "rq_header ?wr ''Authorization'' = ''Bearer '' @ ag_token a"
    "rq_id ?wr = ag_id a" "rq_body ?wr = enc (AgHeartbeat i)"
    by (simp_all add: rq_def) (simp add: wire_request_def)
  have t: "auth_token ?wr = ag_token a" unfolding auth_token_def h by (simp only: TrimPrefix_append)
  have d: "decode_limited (sv_heartbeat srv) (4 * 2 ^ 10) (rq_body ?wr) = Inr i" unfolding h using assms(3) by (simp add: beats_decoded_def)
  from beat_handled [OF assms(1) h(1) t h(3) d assms(5,6)] obtain w' where
    w': "withRunnerAuth handleHeartbeat srv ?wr w = (writeJSON 200 (HeartbeatResponse ''ok'' c), w')" "jobs (w_db w') = jobs (w_db w)"
      "db_script (w_db w') = []" by blast
  have p: "TrimPrefix (aq_url rq) (c_ServerURL (ag_cfg a)) = ?path" "aq_method rq = ''POST''" by (simp_all only: rq_def wire_api)
  obtain k where "arrive enc base (c_ServerURL (ag_cfg a)) srv rq w = ((writeJSON 200 (HeartbeatResponse ''ok'' c))\<lparr>rs_request_id := k\<rparr>, w')"
    unfolding arrive_def p Routes_heartbeat [OF seg] withRequestID_def w'(1) by (simp add: Let_def)
  then have "ae_Do ?E rq (n, w) = (Inr \<lparr>ar_status = 200, ar_body = render (HeartbeatResponse ''ok'' c)\<rparr>, (n, w'))"
    by (simp add: connect_agent_def writeJSON_def respond_def)
  then have "agent_do ?E a ''POST'' ?path (AgHeartbeat i) (n, w) = (Inr (render (HeartbeatResponse ''ok'' c)), (n, w'))"
    unfolding agent_do_def sent by simp
  moreover have "ae_cancel ?E = ae_cancel E" by (simp add: connect_agent_def)
  ultimately have "heartbeat_round ?E a (n, w) = (if c then Some p else None, (n, w'))"
    using assms(3,4) by (simp add: heartbeat_round_def beats_decoded_def)
  with w'(2,3) show ?thesis by blast
qed

section \<open>The two goroutines\<close>











lemma clearActive_fields [simp]:
  "ag_jobs (clearActive p a) = ag_jobs a" "ag_id (clearActive p a) = ag_id a"
  "ag_active (clearActive p a) = (if map_option fst (ag_active a) = Some p then None else ag_active a)"
  by (simp_all add: clearActive_def)






section \<open>Properties of the heartbeat\<close>

text \<open>C26: A cancellation reaches the agent. Let the heartbeat goroutine of a registered agent run one round against the
  control plane while it answers: the agent is told to stop its active job exactly when the control plane
  does not know the job any more, when the job is finished or cancelled, or when it is not assigned to this agent.\<close>

theorem cancellation_reaches_agent:
  fixes srv :: "('q, 'g) server" and w :: "('q, 'g) api_world"
  assumes "registered srv a (w_db w)" "reachable_urls E" "json_server srv" "json_agent from t0 E" "ag_active a = Some (p, i)" "i \<noteq> []"
    and "pg_text i" "length (agent_bytes (AgHeartbeat i)) \<le> 4 * 2 ^ 10"
    and "db_script (w_db w) = []"
  shows "\<exists>w'. heartbeat_round (connect_agent agent_bytes base (c_ServerURL (ag_cfg a)) srv (render_json fmt q) E) a (n, w)
      = (if lease_gone (w_db w) (ag_id a) i then Some p else None, (n, w')) \<and> jobs (w_db w') = jobs (w_db w)"
  using round_answered [OF assms(1,2) json_beats [OF assms(3,4,7,8), of fmt q] assms(5,6), of "lease_gone (w_db w) (ag_id a) i" "[]" base n] assms(9) by auto

definition beat_env :: "unit agent_env" where
  "beat_env = quiet\<lparr>ae_registered := decode_registered, ae_cancel := decode_cancel, ae_delivery := decode_delivery Atoi 0\<rparr>"

abbreviation beat_text :: "body \<Rightarrow> string" where
  "beat_text \<equiv> render_json Itoa id"

definition beat_agent :: agent where
  "beat_agent = lease_agent\<lparr>ag_active := Some (0, ''a'')\<rparr>"

lemma beat_agent_sel [simp]: "ag_id beat_agent = ''x''" "ag_token beat_agent = ''key''" "ag_active beat_agent = Some (0, ''a'')"
  by (simp_all add: beat_agent_def lease_agent_def)

lemma beat_sample:
  "reachable_urls beat_env" "json_agent Atoi 0 beat_env" "pg_text ''a''" "length (agent_bytes (AgHeartbeat ''a'')) \<le> 4 * 2 ^ 10"
  "runners s = runners pool \<or> runners s = runners busy_pool \<Longrightarrow> registered wire_server beat_agent s"
proof -
  show "reachable_urls beat_env" by (simp add: reachable_urls_def beat_env_def quiet_def demo_def)
  show "json_agent Atoi 0 beat_env" by (simp add: json_agent_def beat_env_def)
  show "pg_text ''a''" by (simp add: utf8_rest_def)
  show "length (agent_bytes (AgHeartbeat ''a'')) \<le> 4 * 2 ^ 10" using heartbeat_length(2) [of "''a''"] by simp
  have "hashToken wire_server ''key'' = ''6b6579''" by code_simp
  then show "registered wire_server beat_agent s" if "runners s = runners pool \<or> runners s = runners busy_pool"
    using that by (auto simp: registered_def segment_def runner_at_def pool_eq busy_pool_eq)
qed

theorem cancellation_reaches_agent_witness:
  "fst (heartbeat_round (connect_agent agent_bytes (sample_request [] [] [] []) (c_ServerURL (ag_cfg beat_agent)) wire_server beat_text beat_env)
     beat_agent ((), sample_state pool [] [])) = Some 0"
proof -
  have "lease_gone pool ''x'' ''a''" by (simp add: lease_gone_def job_at_def pool_eq)
  moreover have "registered wire_server beat_agent (w_db (sample_state pool [] []))" by (rule beat_sample) simp
  ultimately show ?thesis
    using cancellation_reaches_agent [OF _ beat_sample(1) wire_server_json beat_sample(2) beat_agent_sel(3) _ beat_sample(3,4), where w = "sample_state pool [] []" and fmt = Itoa and q = id and base = "sample_request [] [] [] []" and n = "()"]
    by auto
qed

text \<open>C39: A database error stops a healthy build. When the read of the job fails while the control plane serves a
  heartbeat, the answer is the one for a lost lease: the agent is told to stop the job although it
  is RUNNING and assigned to it, and nothing changes in the jobs table, so it stays RUNNING.\<close>

theorem failed_read_stops_build:
  fixes srv :: "('q, 'g) server" and w :: "('q, 'g) api_world"
  assumes "registered srv a (w_db w)" "reachable_urls E" "json_server srv" "json_agent from t0 E" "ag_active a = Some (p, i)" "i \<noteq> []"
    and "pg_text i" "length (agent_bytes (AgHeartbeat i)) \<le> 4 * 2 ^ 10"
    and "db_script (w_db w) = [Okay, Okay, Fails e]" and "job_at (w_db w) i = Some r" "j_status r = JobRunning" "j_runner_id r = Some (ag_id a)"
  shows "\<not> lease_gone (w_db w) (ag_id a) i
    \<and> (\<exists>w'. heartbeat_round (connect_agent agent_bytes base (c_ServerURL (ag_cfg a)) srv (render_json fmt q) E) a (n, w) = (Some p, (n, w'))
        \<and> job_at (w_db w') i = Some r)"
proof -
  have "\<not> lease_gone (w_db w) (ag_id a) i" using assms(10-12) by (simp add: lease_gone_def)
  moreover from round_answered [OF assms(1,2) json_beats [OF assms(3,4,7,8), of fmt q] assms(5,6), of True e base n] assms(9) obtain w' where
    "heartbeat_round (connect_agent agent_bytes base (c_ServerURL (ag_cfg a)) srv (render_json fmt q) E) a (n, w) = (Some p, (n, w'))"
    "jobs (w_db w') = jobs (w_db w)" by auto
  ultimately show ?thesis using assms(10) by (simp add: job_at_def)
qed

theorem failed_read_stops_build_witness:
  "\<not> lease_gone busy_pool ''x'' ''a'' \<and>
   fst (heartbeat_round (connect_agent agent_bytes (sample_request [] [] [] []) (c_ServerURL (ag_cfg beat_agent)) wire_server beat_text beat_env)
     beat_agent ((), sample_state (busy_pool\<lparr>db_script := [Okay, Okay, Fails ''reset'']\<rparr>) [] [])) = Some 0"
proof -
  let ?s = "busy_pool\<lparr>db_script := [Okay, Okay, Fails ''reset'']\<rparr>"
  have r: "registered wire_server beat_agent (w_db (sample_state ?s [] []))" by (rule beat_sample) simp
  have j: "job_at (w_db (sample_state ?s [] [])) ''a'' = Some (hd (jobs busy_pool))" "j_runner_id (hd (jobs busy_pool)) = Some (ag_id beat_agent)"
    using busy_pool_at(1) by (simp_all add: job_at_def)
  from failed_read_stops_build [OF r beat_sample(1) wire_server_json beat_sample(2) beat_agent_sel(3) _ beat_sample(3,4) _ j(1) busy_pool_a(1) j(2), where e = "''reset''" and fmt = Itoa and q = id and base = "sample_request [] [] [] []" and n = "()"]
  show ?thesis by (auto simp: lease_gone_def job_at_def)
qed






end
