(* ===== verification/Fairness.thy ===== *)
theory Fairness
  imports Service_Properties
begin

text \<open>
  The scheduler and the order of the queue: every turn takes the head and puts back at most that id, at the end. So
  a waiting job moves up one place per turn, and its turn comes after as many turns as there are ids before it.
\<close>

lemma run_turns_snoc: "run_turns (Suc n) Q sched hb w = run_turn Q sched hb (run_turns n Q sched hb w)"
  by (induction n arbitrary: w) simp_all

context scheduler_service
begin

definition serving :: "'q world \<Rightarrow> bool" where
  "serving w \<longleftrightarrow> db_script (w_db w) = [] \<and> store_inv (w_db w) \<and> up (w_queue w)"

lemma turn_moves_up:
  assumes "serving w" "pending (w_queue w) = k # rest"
  shows "\<exists>tail w'. run_turn Q sched hb w = w' \<and> serving w' \<and> pending (w_queue w') = rest @ tail \<and> set tail \<subseteq> {k}
    \<and> (\<forall>i. i \<noteq> k \<longrightarrow> job_at (w_db w') i = job_at (w_db w) i)"
proof -
  have ok: "db_script (w_db w) = []" "store_inv (w_db w)" "up (w_queue w)" using assms(1) by (simp_all add: serving_def)
  obtain q where q: "run_turn Q sched hb w = assign Q sched hb k (w\<lparr>w_queue := q\<rparr>)" "up q" "pending q = rest"
    using run_turn_head [OF ok(3) assms(2)] by metis
  let ?w = "w\<lparr>w_queue := q\<rparr>"
  have h: "db_script (w_db ?w) = []" "store_inv (w_db ?w)" "up (w_queue ?w)" using ok q(2) by simp_all
  have script: "store_inv (w_db (assign Q sched hb k ?w))" using store_inv.steps [OF assign_steps h(2)] .
  show ?thesis
  proof (cases "\<exists>r. job_at (w_db ?w) k = Some r \<and> j_status r = JobQueued")
    case False
    then obtain q' where "assign Q sched hb k ?w = ?w\<lparr>w_queue := q'\<rparr>" "up q'" "pending q' = pending (w_queue ?w)"
      using assign_drops [OF h(1,3), of k hb] by blast
    with q ok show ?thesis by (intro exI [of _ "[]"] exI [of _ "assign Q sched hb k ?w"]) (auto simp: serving_def)
  next
    case True
    then obtain r where r: "job_at (w_db ?w) k = Some r" "j_status r = JobQueued" by blast
    show ?thesis
    proof (cases "\<exists>a. suits hb (w_db ?w) r a")
      case False
      then obtain q' where "assign Q sched hb k ?w = ?w\<lparr>w_queue := q'\<rparr>" "up q'" "pending q' = pending (w_queue ?w) @ [k]"
        using assign_waits [OF h(1,3) r] by blast
      with q ok show ?thesis by (intro exI [of _ "[k]"] exI [of _ "assign Q sched hb k ?w"]) (auto simp: serving_def)
    next
      case True
      then obtain a0 where "suits hb (w_db ?w) r a0" by blast
      from assign_places [OF h r this] obtain a :: runner_row and q' where a: "assign Q sched hb k ?w = ?w\<lparr>w_db := assign_effect k (r_id a) JobQueued (w_db ?w), w_queue := q'\<rparr>"
        "up q'" "pending q' = pending (w_queue ?w)" by blast
      have "job_at (assign_effect k (r_id a) JobQueued (w_db w)) i = job_at (w_db w) i" if "i \<noteq> k" for i
        using job_at_assign [of "w_db w" k r JobQueued "r_id a"] r that by simp
      moreover have "db_script (assign_effect k (r_id a) JobQueued (w_db w)) = []"
        using ok(1) by (simp add: assign_effect_def mark_assigned_def mark_busy_def update_jobs_def update_runners_def)
      ultimately show ?thesis using a q ok script
        by (intro exI [of _ "[]"] exI [of _ "assign Q sched hb k ?w"]) (auto simp: serving_def)
    qed
  qed
qed

lemma turns_move_up:
  assumes "serving w" "pending (w_queue w) = pre @ i # post" "i \<notin> set pre"
  shows "\<exists>tail w'. run_turns (length pre) Q sched hb w = w' \<and> serving w' \<and> pending (w_queue w') = i # post @ tail
    \<and> set tail \<subseteq> set pre \<and> job_at (w_db w') i = job_at (w_db w) i"
  using assms
proof (induction pre arbitrary: w post)
  case (Cons k pre)
  obtain t1 w1 where w1: "run_turn Q sched hb w = w1" "serving w1" "pending (w_queue w1) = (pre @ i # post) @ t1" "set t1 \<subseteq> {k}"
    "job_at (w_db w1) i = job_at (w_db w) i"
    using turn_moves_up [OF Cons.prems(1), of k "pre @ i # post" hb] Cons.prems by auto
  from Cons.IH [OF w1(2), of "post @ t1"] Cons.prems(3) w1(3) obtain t2 w2 where
    w2: "run_turns (length pre) Q sched hb w1 = w2" "serving w2" "pending (w_queue w2) = i # post @ t1 @ t2" "set t2 \<subseteq> set pre"
      "job_at (w_db w2) i = job_at (w_db w1) i" by auto
  show ?case using w1 w2 by (intro exI [of _ "t1 @ t2"] exI [of _ w2]) auto
qed simp

end

text \<open>C30: Every waiting job gets its turn. While the database and Redis answer, a QUEUED job with n ids before it in the
  queue is considered by turn n + 1 of \<open>Run\<close>, whatever becomes of the jobs before it: when a live IDLE
  runner has its labels at that moment, the job is ASSIGNED and in the runner's mailbox; otherwise it is QUEUED
  as before and at the end of the queue, behind ids that were there before and nothing else.\<close>

theorem every_job_gets_its_turn:
  assumes "redis_server R rlists up ttl" and "db_script (w_db w) = []" and "store_inv (w_db w)" and "up (w_queue w)"
    and "wait_list rlists (w_queue w) = pre @ i # post" and "i \<notin> set pre"
    and "job_at (w_db w) i = Some r" and "j_status r = JobQueued"
    and "run_turns (length pre) (redis_queue R) Schedule hb w = v" and "run_turns (Suc (length pre)) (redis_queue R) Schedule hb w = w'"
  shows "if \<exists>a. suits hb (w_db v) r a
    then \<exists>x r'. job_at (w_db w') i = Some r' \<and> j_status r' = JobAssigned \<and> j_runner_id r' = Some x \<and> i \<in> set (box rlists (w_queue w') x)
    else job_at (w_db w') i = Some r \<and> (\<exists>rest. wait_list rlists (w_queue w') = rest @ [i] \<and> set rest \<subseteq> set pre \<union> set post)"
proof -
  note svc = redis_server.is_service [OF assms(1)]
  have "scheduler_service.serving up w" using assms(2-4) by (simp add: scheduler_service.serving_def [OF svc])
  from scheduler_service.turns_move_up [OF svc this assms(5,6), of hb] assms(7,9) obtain tail where
    v: "db_script (w_db v) = []" "store_inv (w_db v)" "up (w_queue v)" "wait_list rlists (w_queue v) = i # post @ tail"
      "set tail \<subseteq> set pre" "job_at (w_db v) i = Some r" by (auto simp: scheduler_service.serving_def [OF svc])
  have w': "w' = run_turn (redis_queue R) Schedule hb v" unfolding assms(10) [symmetric] run_turns_snoc assms(9) ..
  obtain q where q: "w' = assign (redis_queue R) Schedule hb i (v\<lparr>w_queue := q\<rparr>)" "up q" "wait_list rlists q = post @ tail"
    using scheduler_service.run_turn_head [OF svc v(3,4)] w' by metis
  let ?v = "v\<lparr>w_queue := q\<rparr>"
  have h: "db_script (w_db ?v) = []" "store_inv (w_db ?v)" "up (w_queue ?v)" "job_at (w_db ?v) i = Some r" using v q(2) by simp_all
  show ?thesis
  proof (cases "\<exists>a. suits hb (w_db v) r a")
    case True
    then obtain a0 where "suits hb (w_db ?v) r a0" by auto
    from scheduler_service.assign_places [OF svc h assms(8) this] q(1) obtain a :: runner_row and q' where a: "w' = ?v\<lparr>w_db := assign_effect i (r_id a) JobQueued (w_db ?v), w_queue := q'\<rparr>"
      "box rlists q' = (box rlists (w_queue ?v))(r_id a := box rlists (w_queue ?v) (r_id a) @ [i])"
      by blast
    have "job_at (assign_effect i (r_id a) JobQueued (w_db v)) i =
        Some (r\<lparr>j_status := JobAssigned, j_runner_id := Some (r_id a), j_attempts := j_attempts r + 1\<rparr>)"
      using job_at_assign [OF v(6) assms(8)] by simp
    with True a show ?thesis by auto
  next
    case False
    then have "\<not> suits hb (w_db ?v) r a" for a by simp
    from scheduler_service.assign_waits [OF svc h(1,3,4) assms(8) this] q(1,3) obtain q' where
      "w' = ?v\<lparr>w_queue := q'\<rparr>" "wait_list rlists q' = (post @ tail) @ [i]" by auto
    with False v(5,6) show ?thesis by auto
  qed
qed

theorem every_job_gets_its_turn_witness:
  "job_at (w_db (run_turns 2 (redis_queue mem_redis) Schedule (30 * second) (sample_world pool [''a'', ''b''] []))) ''b''
     = Some (jobs pool ! 1)
   \<and> (\<exists>rest. wait_list m_lists (w_queue (run_turns 2 (redis_queue mem_redis) Schedule (30 * second) (sample_world pool [''a'', ''b''] [])))
        = rest @ [''b''])"
proof -
  let ?w = "sample_world pool [''a'', ''b''] []" and ?run = "\<lambda>n. run_turns n (redis_queue mem_redis) Schedule (30 * second)"
  define v where "v = ?run (length [''a'']) ?w"
  have w: "db_script (w_db ?w) = []" "store_inv (w_db ?w)" "m_script (w_queue ?w) = []"
    "wait_list m_lists (w_queue ?w) = [''a''] @ ''b'' # []" "''b'' \<notin> set [''a'']"
    "job_at (w_db ?w) ''b'' = Some (jobs pool ! 1)" "j_status (jobs pool ! 1) = JobQueued"
    using pool_inv by (simp_all add: pool_eq job_at_def)
  have "list_all (\<lambda>a. r_status a = RunnerBusy) (runners (w_db v))" unfolding v_def by code_simp
  then have no: "\<not> (\<exists>a. suits (30 * second) (w_db v) (jobs pool ! 1) a)"
    by (auto simp: suits_def live_idle_def list_all_iff)
  have two: "?run 2 ?w = ?run (Suc (length [''a''])) ?w" by (simp add: numeral_2_eq_2)
  from every_job_gets_its_turn [OF mem.redis_server_axioms w v_def [symmetric] refl] no
  show ?thesis unfolding two if_not_P [OF no] by blast
qed

end
