(* ===== verification/Wire_Properties.thy ===== *)
theory Wire_Properties
  imports Wire_Behaviour
begin

text \<open>
  What the two programs understand of each other's messages, byte by byte, and what the control plane reads of a push
  webhook.
\<close>

text \<open>C13: What an agent sends is what the control plane reads. The three JSON requests of the agent, written by
  \<^verbatim>\<open>json.Marshal\<close> and read under the limit of their handler, fill the structs of the handlers with the agent's values:
  the name, labels, architecture and operating system of a registration, the job of a heartbeat, the status, exit code and
  message of a result. Bytes that are not UTF-8 arrive as U+FFFD, everything else is unchanged, control characters,
  quotes and markup included.\<close>

theorem requests_understood:
  assumes "length (agent_bytes (AgRegister name labels arch os)) \<le> 2 ^ 16" "length (agent_bytes (AgHeartbeat i)) \<le> 4 * 2 ^ 10"
    and "length (agent_bytes (AgResult st code msg)) \<le> 2 ^ 16" "in_int64 code"
  shows "decode_limited decode_register (2 ^ 16) (agent_bytes (AgRegister name labels arch os))
      = Inr \<lparr>rg_Name = to_valid name, rg_Labels = map to_valid labels, rg_Architecture = to_valid arch, rg_OS = to_valid os\<rparr>
    \<and> decode_limited decode_heartbeat (4 * 2 ^ 10) (agent_bytes (AgHeartbeat i)) = Inr (to_valid i)
    \<and> decode_limited decode_result (2 ^ 16) (agent_bytes (AgResult st code msg))
      = Inr \<lparr>rr_Status = string_of_JobStatus st, rr_ExitCode = code, rr_Error = to_valid msg\<rparr>
    \<and> (pg_text msg \<longrightarrow> to_valid msg = msg)"
  using assms register_read [of "[]" name labels arch os False] heartbeat_read [of "[]" i False] result_read [of code "[]" st msg False]
  by (simp add: decode_limited_def to_valid_text)

text \<open>A name with a quote, a tab and markup, and a message that holds a lone byte 0xFF.\<close>

theorem requests_understood_witness:
  "decode_limited decode_register (2 ^ 16) (agent_bytes (AgRegister (CHR 0x22 # CHR 0x09 # ''<r>'') [''linux'', ''gpu''] ''arm64'' ''linux''))
      = Inr \<lparr>rg_Name = CHR 0x22 # CHR 0x09 # ''<r>'', rg_Labels = [''linux'', ''gpu''], rg_Architecture = ''arm64'', rg_OS = ''linux''\<rparr>
    \<and> decode_limited decode_heartbeat (4 * 2 ^ 10) (agent_bytes (AgHeartbeat ''a'')) = Inr ''a''
    \<and> decode_limited decode_result (2 ^ 16) (agent_bytes (AgResult JobFailed (-1) [CHR 0xFF]))
      = Inr \<lparr>rr_Status = ''FAILED'', rr_ExitCode = -1, rr_Error = [CHR 0xEF, CHR 0xBF, CHR 0xBD]\<rparr>"
proof -
  have l: "length (agent_bytes (AgRegister (CHR 0x22 # CHR 0x09 # ''<r>'') [''linux'', ''gpu''] ''arm64'' ''linux'')) \<le> 2 ^ 16"
    "length (agent_bytes (AgHeartbeat ''a'')) \<le> 4 * 2 ^ 10" "length (agent_bytes (AgResult JobFailed (-1) [CHR 0xFF])) \<le> 2 ^ 16"
    using length_encode_string [of "''architecture''"] length_encode_string [of "''arm64''"] length_encode_string [of "''labels''"]
      length_encode_string [of "''linux''"] length_encode_string [of "''gpu''"] length_encode_string [of "''name''"]
      length_encode_string [of "CHR 0x22 # CHR 0x09 # ''<r>''"] length_encode_string [of "''operating_system''"]
    apply (simp add: agent_bytes_def strings_def)
    using heartbeat_length(2) [of "''a''"] apply simp
    using result_length(2) [of JobFailed "-1" "[CHR 0xFF]"] apply (simp add: Itoa_def nat_digits.simps [of "Suc 0"])
    done
  have v: "to_valid (CHR 0x22 # CHR 0x09 # ''<r>'') = CHR 0x22 # CHR 0x09 # ''<r>''" "map to_valid [''linux'', ''gpu''] = [''linux'', ''gpu'']"
    "to_valid ''arm64'' = ''arm64''" "to_valid ''linux'' = ''linux''" "to_valid ''a'' = ''a''" "to_valid [CHR 0xFF] = [CHR 0xEF, CHR 0xBF, CHR 0xBD]"
    by code_simp+
  show ?thesis
    using requests_understood [of "CHR 0x22 # CHR 0x09 # ''<r>''" "[''linux'', ''gpu'']" "''arm64''" "''linux''" "''a''" JobFailed "-1" "[CHR 0xFF]"]
    using l unfolding v by (simp add: in_int64_def)
qed

text \<open>A body over its limit is refused, not misread. When the encoded registration or result exceeds the 64 KiB its
  handler reads, what is left of it does not decode, whatever its fields hold: the struct is never filled from a
  part of the message. A heartbeat over 4 KiB counts as one without a job.\<close>

theorem oversized_requests_refused:
  "(2 ^ 16 < length (agent_bytes (AgRegister name labels arch os))
     \<longrightarrow> isl (decode_limited decode_register (2 ^ 16) (agent_bytes (AgRegister name labels arch os))))
   \<and> (2 ^ 16 < length (agent_bytes (AgResult st code msg))
     \<longrightarrow> isl (decode_limited decode_result (2 ^ 16) (agent_bytes (AgResult st code msg))))
   \<and> (4 * 2 ^ 10 < length (agent_bytes (AgHeartbeat i))
     \<longrightarrow> decode_limited decode_heartbeat (4 * 2 ^ 10) (agent_bytes (AgHeartbeat i)) = Inr [])"
  by (simp add: decode_limited_def decode_register_def decode_result_def decode_heartbeat_def or_error_def
    agent_bytes_cut [OF agent_json.simps(1)] agent_bytes_cut [OF agent_json.simps(2)] agent_bytes_cut [OF agent_json.simps(3)])

text \<open>A message of 65536 letters, and a job id of 4096.\<close>

theorem oversized_requests_refused_witness:
  "isl (decode_limited decode_result (2 ^ 16) (agent_bytes (AgResult JobFailed 1 (replicate (2 ^ 16) CHR ''a''))))
   \<and> decode_limited decode_heartbeat (4 * 2 ^ 10) (agent_bytes (AgHeartbeat (replicate (4 * 2 ^ 10) CHR ''a''))) = Inr []"
proof -
  have "2 ^ 16 < length (agent_bytes (AgResult JobFailed 1 (replicate (2 ^ 16) CHR ''a'')))"
    "4 * 2 ^ 10 < length (agent_bytes (AgHeartbeat (replicate (4 * 2 ^ 10) CHR ''a'')))"
    using result_length(1) [of "replicate (2 ^ 16) CHR ''a''" JobFailed 1] heartbeat_length(1) [of "replicate (4 * 2 ^ 10) CHR ''a''"]
    by (simp_all only: length_replicate)
  then show ?thesis
    using oversized_requests_refused [of "[]" "[]" "[]" "[]" JobFailed 1 "replicate (2 ^ 16) CHR ''a''" "replicate (4 * 2 ^ 10) CHR ''a''"] by blast
qed

definition job_text :: "Job \<Rightarrow> bool" where
  "job_text j \<longleftrightarrow> list_all pg_text [j_id j, j_repository j, j_clone_url j, j_commit_sha j, j_branch j, j_event_type j, j_config_ref j, j_error j]
     \<and> list_all pg_text (j_labels j) \<and> pred_option pg_text (j_runner_id j)"

lemma clean_job_text: "job_text j \<Longrightarrow> clean_job j = j"
proof -
  assume j: "job_text j"
  then have "map to_valid (j_labels j) = j_labels j" by (simp add: job_text_def list_all_iff to_valid_text map_idI)
  moreover have "map_option to_valid (j_runner_id j) = j_runner_id j" using j by (cases "j_runner_id j") (simp_all add: job_text_def to_valid_text)
  ultimately show ?thesis using j by (simp add: job_text_def clean_job_def to_valid_text)
qed

text \<open>C23: What the control plane answers is what an agent reads. The answers written by \<^verbatim>\<open>writeJSON\<close>, read by the agent: the
  identity and the token of a registration, the order to stop of a heartbeat, and a delivered job with every field of
  its row and the clone token, the fields that \<^verbatim>\<open>omitempty\<close> leaves out as well. Texts from the database are UTF-8 and come
  back unchanged. The hypothesis is that the text of a time reads back as that time.\<close>

theorem answers_understood:
  assumes "job_readable from fmt j" "job_text j" "pg_text clone_token" "pg_text i" "pg_text token"
  shows "decode_registered (render_json fmt q (RegisterResponse i token)) = Inr (i, token)
    \<and> decode_cancel (render_json fmt q (HeartbeatResponse st c)) = Inr c
    \<and> decode_delivery from t0 (render_json fmt q (JobDelivery j clone_token)) = Inr (j, clone_token)"
  using delivery_read [OF assms(1), of t0 q clone_token] assms(2-5)
  by (simp add: registered_read cancel_read to_valid_text clean_job_text)

text \<open>The times of the witness are written in decimal.\<close>

theorem answers_understood_witness:
  "decode_registered (render_json Itoa id (RegisterResponse ''r'' ''t'')) = Inr (''r'', ''t'')
   \<and> decode_cancel (render_json Itoa id (HeartbeatResponse ''ok'' True)) = Inr True
   \<and> decode_delivery Atoi 0 (render_json Itoa id (JobDelivery
       ((zero_job 5)\<lparr>j_id := ''a'', j_labels := [''linux''], j_status := JobRunning, j_exit_code := Some (-1), j_started_at := Some 7\<rparr>) ''key''))
     = Inr ((zero_job 5)\<lparr>j_id := ''a'', j_labels := [''linux''], j_status := JobRunning, j_exit_code := Some (-1), j_started_at := Some 7\<rparr>, ''key'')"
proof -
  let ?j = "(zero_job 5)\<lparr>j_id := ''a'', j_labels := [''linux''], j_status := JobRunning, j_exit_code := Some (-1), j_started_at := Some 7\<rparr>"
  have t: "Atoi (to_valid (Itoa 5)) = Some 5" "Atoi (to_valid (Itoa 7)) = Some 7" by code_simp+
  then have r: "job_readable Atoi Itoa ?j" by (simp add: job_readable_def zero_job_def in_int64_def)
  have x: "pg_text ''a''" "pg_text ''linux''" "pg_text ''key''" "pg_text ''r''" "pg_text ''t''" by (simp_all add: utf8_rest_def)
  then have "job_text ?j" by (simp add: job_text_def zero_job_def)
  from answers_understood [OF r this, of "''key''" "''r''" "''t''" id "''ok''" True 0] x show ?thesis by blast
qed




end
