(* ===== verification/Joining_Properties.thy ===== *)
theory Joining_Properties
  imports Heartbeat_Properties Wire_Properties
begin

text \<open>
  How an agent joins the pool and how a job reaches it, with the two programs connected: the agent's \<open>register\<close> and \<open>poll\<close>
  against the handlers of the control plane, through the bytes of their JSON bodies.
\<close>

section \<open>Paths\<close>

lemma poll_path_split:
  assumes "segment x"
  shows "split_on CHR ''/'' (''/api/v1/runners/'' @ x @ ''/job'') = [[], ''api'', ''v1'', ''runners'', x, ''job'']"
proof -
  have "split_on CHR ''/'' (''/api/v1/runners/'' @ x @ ''/job'') = [[], ''api'', ''v1'', ''runners'', x] @ split_on CHR ''/'' ''job''"
    using split_on_append [of "CHR ''/''" "''/api/v1/runners''" "x @ CHR ''/'' # ''job''"]
      split_on_append [of "CHR ''/''" x "''job''"] split_on_single [of "CHR ''/''" x] assms
    by (simp add: segment_def)
  then show ?thesis by simp
qed

lemma Routes_poll:
  fixes srv :: "('q, 'g) server"
  assumes "segment x"
  shows "Routes ''GET'' (''/api/v1/runners/'' @ x @ ''/job'') srv rq w =
    withRequestID (\<lambda>srv rq w. withRunnerAuth handlePollJob srv (rq\<lparr>rq_id := x\<rparr>) w) srv rq w"
proof (rule Routes_at)
  show "(matching (''/api/v1/runners/'' @ x @ ''/job'') :: (string \<times> string \<times> ('q, 'g) handler) list) =
      [(''GET'', ''/api/v1/runners/{id}/job'', withRunnerAuth handlePollJob)]"
    unfolding matching_def path_id_def poll_path_split [OF assms] route_table_def
    using assms by (simp add: segment_def)
  show "path_id ''/api/v1/runners/{id}/job'' (''/api/v1/runners/'' @ x @ ''/job'') = Some x"
    unfolding path_id_def poll_path_split [OF assms] using assms by (simp add: segment_def)
qed (simp add: pick_def)

lemma Routes_register:
  fixes srv :: "('q, 'g) server"
  shows "\<exists>i. Routes ''POST'' ''/api/v1/runners/register'' srv rq w = withRequestID (\<lambda>srv rq w. handleRegister srv (rq\<lparr>rq_id := i\<rparr>) w) srv rq w"
proof
  show "Routes ''POST'' ''/api/v1/runners/register'' srv rq w = withRequestID (\<lambda>srv rq w. handleRegister srv (rq\<lparr>rq_id := []\<rparr>) w) srv rq w"
  proof (rule Routes_at)
    show "(matching ''/api/v1/runners/register'' :: (string \<times> string \<times> ('q, 'g) handler) list) =
        [(''POST'', ''/api/v1/runners/register'', handleRegister), (''GET'', ''/api/v1/runners/{id}'', handleGetRunner)]"
      by (simp add: matching_def path_id_def route_table_def)
    show "path_id ''/api/v1/runners/register'' ''/api/v1/runners/register'' = Some []" by (simp add: path_id_def)
  qed (simp add: pick_def)
qed

section \<open>Tokens\<close>

lemma url_alphabet_text: "list_all (\<lambda>c. 0 < (of_char c :: nat) \<and> of_char c < (128 :: nat)) url_alphabet"
  by (simp add: url_alphabet_def)

lemma token_text: "pg_text (RawURLEncoding buf)"
proof -
  have "list_all (\<lambda>n. n < 64) (sextets (map of_char buf))"
    using sextets_bound [of "map of_char buf"] by (auto simp: list_all_iff)
  moreover have "length url_alphabet = 64" by (simp add: url_alphabet_def)
  ultimately have "list_all (\<lambda>c. c \<in> set url_alphabet) (RawURLEncoding buf)"
    by (auto simp: RawURLEncoding_def base64_raw_def list_all_iff)
  then show ?thesis using url_alphabet_text by (intro pg_text_ascii) (auto simp: list_all_iff)
qed

lemma token_nonempty: "buf \<noteq> [] \<Longrightarrow> RawURLEncoding buf \<noteq> []"
  by (cases "map of_char buf :: nat list" rule: sextets.cases) (simp_all add: RawURLEncoding_def base64_raw_def)

section \<open>Registration\<close>

definition registration :: "'n agent_env \<Rightarrow> agent \<Rightarrow> agent_body" where
  "registration E a = AgRegister (c_RunnerName (ag_cfg a)) (split_on CHR '','' (c_RunnerLabels (ag_cfg a))) (ae_GOARCH E) (ae_GOOS E)"

definition registration_text :: "'n agent_env \<Rightarrow> agent \<Rightarrow> bool" where
  "registration_text E a \<longleftrightarrow> list_all pg_text (c_RunnerName (ag_cfg a) # ae_GOARCH E # ae_GOOS E # split_on CHR '','' (c_RunnerLabels (ag_cfg a)))
     \<and> c_RunnerName (ag_cfg a) \<noteq> [] \<and> length (agent_bytes (registration E a)) \<le> 2 ^ 16"

definition admitted :: "('q, 'g) server \<Rightarrow> 'n agent_env \<Rightarrow> agent \<Rightarrow> string \<Rightarrow> string \<Rightarrow> time \<Rightarrow> runner_row" where
  "admitted srv E a i token t = \<lparr>r_id = i, r_name = c_RunnerName (ag_cfg a), r_status = RunnerIdle,
     r_labels = split_on CHR '','' (c_RunnerLabels (ag_cfg a)), r_architecture = ae_GOARCH E, r_os = ae_GOOS E, r_current_job_id = None,
     r_last_heartbeat = t, r_last_assigned_at = None, r_created_at = t, r_token_hash = hashToken srv token\<rparr>"
  \<comment> \<open>the row of the agent after its registration\<close>

abbreviation register_request :: "'n agent_env \<Rightarrow> agent \<Rightarrow> agent_request" where
  "register_request E a \<equiv> \<lparr>aq_method = ''POST'', aq_url = c_ServerURL (ag_cfg a) @ ''/api/v1/runners/register'',
     aq_headers = [(''Content-Type'', ''application/json''), (''X-Registration-Token'', c_RunnerRegistrationToken (ag_cfg a))],
     aq_body = registration E a\<rparr>"

lemma registration_decoded:
  assumes "json_server srv" "registration_text E a"
  shows "decode_limited (sv_register srv) (2 ^ 16) (agent_bytes (registration E a)) = Inr \<lparr>rg_Name = c_RunnerName (ag_cfg a),
      rg_Labels = split_on CHR '','' (c_RunnerLabels (ag_cfg a)), rg_Architecture = ae_GOARCH E, rg_OS = ae_GOOS E\<rparr>"
proof -
  have "map to_valid (split_on CHR '','' (c_RunnerLabels (ag_cfg a))) = split_on CHR '','' (c_RunnerLabels (ag_cfg a))"
    using assms(2) by (auto simp: registration_text_def list_all_iff to_valid_text intro!: map_idI)
  then show ?thesis using assms register_read [of "[]" _ _ _ _ False]
    by (simp add: decode_limited_def registration_def registration_text_def json_server_def to_valid_text)
qed

lemma registration_arrives:
  fixes srv :: "('q, 'g) server" and w :: "('q, 'g) api_world"
  assumes "json_server srv" "registration_text E a" "c_RunnerRegistrationToken (ag_cfg a) = c_RunnerRegistrationToken (sv_cfg srv)"
    and "db_script (w_db w) = []" "rq_random base = Inr buf" "rq_uuid base \<notin> r_id ` set (runners (w_db w))"
  shows "\<exists>x. arrive agent_bytes base (c_ServerURL (ag_cfg a)) srv (register_request E a) w =
      ((writeJSON 201 (RegisterResponse (rq_uuid base) (RawURLEncoding buf)))\<lparr>rs_request_id := x\<rparr>,
       w\<lparr>w_db := (w_db w)\<lparr>runners := runners (w_db w) @ [admitted srv E a (rq_uuid base) (RawURLEncoding buf) (db_now (w_db w))]\<rparr>\<rparr>)"
proof -
  let ?rq = "wire_request agent_bytes base (register_request E a)"
  have fresh: "\<not> list_ex (\<lambda>x. r_id x = rq_uuid base) (runners (w_db w))" using assms(6) by (auto simp: list_ex_iff image_iff)
  have "c_RunnerName (ag_cfg a) \<noteq> []" using assms(2) by (simp add: registration_text_def)
  then have "handleRegister srv (?rq\<lparr>rq_id := k\<rparr>) w = (writeJSON 201 (RegisterResponse (rq_uuid base) (RawURLEncoding buf)),
      w\<lparr>w_db := (w_db w)\<lparr>runners := runners (w_db w) @ [admitted srv E a (rq_uuid base) (RawURLEncoding buf) (db_now (w_db w))]\<rparr>\<rparr>)" for k
    using registration_decoded [OF assms(1,2)] assms(3-5) fresh
    by (simp add: handleRegister_def wire_request_def registration_def newToken_def RegisterRunner_def insert_runner_def new_runner_def on_db_eq admitted_def)
  moreover obtain k where "Routes ''POST'' ''/api/v1/runners/register'' srv ?rq w
      = withRequestID (\<lambda>srv rq w. handleRegister srv (rq\<lparr>rq_id := k\<rparr>) w) srv ?rq w"
    using Routes_register by blast
  ultimately show ?thesis by (auto simp: arrive_def TrimPrefix_append withRequestID_def Let_def simp del: append_Cons)
qed

text \<open>C12: An agent that registers is in the pool. Connect an agent with the control plane; it presents the registration token of the
  control plane, it has a name, its configuration is UTF-8 and fits 64 KiB, the database answers, and the random id is new. Then \<open>register\<close>
  succeeds: the agent holds the id and the token it was given, the row of the runner has the name, the labels of \<^verbatim>\<open>RUNNER_LABELS\<close>,
  the architecture and the system of the agent, it is IDLE, and its stored hash is that of the agent's token, so that its later
  requests are authenticated. No other row changes.\<close>

theorem registration_admits:
  fixes srv :: "('q, 'g) server" and w :: "('q, 'g) api_world"
  assumes "reachable_urls E" "json_server srv" "json_agent from t0 E" "registration_text E a"
    and "c_RunnerRegistrationToken (ag_cfg a) = c_RunnerRegistrationToken (sv_cfg srv)"
    and "db_script (w_db w) = []" "rq_random base = Inr buf" "buf \<noteq> []"
    and "segment (rq_uuid base)" "pg_text (rq_uuid base)" "rq_uuid base \<notin> r_id ` set (runners (w_db w))"
  shows "\<exists>a' w'. register (connect_agent agent_bytes base (c_ServerURL (ag_cfg a)) srv (render_json fmt q) E) a (n, w) = (Inr a', (n, w'))
    \<and> a' = a\<lparr>ag_id := rq_uuid base, ag_token := RawURLEncoding buf\<rparr> \<and> registered srv a' (w_db w')
    \<and> w_db w' = (w_db w)\<lparr>runners := runners (w_db w) @ [admitted srv E a (ag_id a') (ag_token a') (db_now (w_db w))]\<rparr>"
proof -
  let ?E = "connect_agent agent_bytes base (c_ServerURL (ag_cfg a)) srv (render_json fmt q) E" and ?i = "rq_uuid base" and ?t = "RawURLEncoding buf"
  define w' where "w' = w\<lparr>w_db := (w_db w)\<lparr>runners := runners (w_db w) @ [admitted srv E a ?i ?t (db_now (w_db w))]\<rparr>\<rparr>"
  from registration_arrives [OF assms(2,4-7,11)]
  have "ae_Do ?E (register_request E a) (n, w) = (Inr \<lparr>ar_status = 201, ar_body = render_json fmt q (RegisterResponse ?i ?t)\<rparr>, (n, w'))"
    by (auto simp: connect_agent_def writeJSON_def respond_def w'_def)
  moreover have "ae_GOARCH ?E = ae_GOARCH E" "ae_GOOS ?E = ae_GOOS E" "ae_registered ?E = ae_registered E" "ae_url ?E = ae_url E"
    by (simp_all add: connect_agent_def)
  ultimately have "register ?E a (n, w) = (Inr (a\<lparr>ag_id := ?i, ag_token := ?t\<rparr>), (n, w'))"
    using assms(1,3,10) token_text [of buf]
    by (simp add: register_def registration_def reachable_urls_def json_agent_def registered_read to_valid_text Let_def)
  moreover have "registered srv (a\<lparr>ag_id := ?i, ag_token := ?t\<rparr>) (w_db w')"
    using assms(8,9,11) token_nonempty [of buf]
      row_at_None [of r_id ?i "runners (w_db w)"]
    by (simp add: registered_def w'_def runner_at_def row_at_append admitted_def)
  ultimately show ?thesis by (simp add: w'_def)
qed

theorem registration_admits_witness:
  "\<exists>a' w'. register (connect_agent agent_bytes (sample_request [] [] [] []) (c_ServerURL (ag_cfg demo_agent)) wire_server (render_json Itoa id) beat_env)
      demo_agent ((), sample_state pool [] []) = (Inr a', ((), w'))
    \<and> ag_id a' = ''new'' \<and> registered wire_server a' (w_db w')
    \<and> map_option r_labels (runner_at (w_db w') ''new'') = Some [''linux'', ''amd64'', ''docker'']"
proof -
  let ?w = "sample_state pool [] []" and ?base = "sample_request [] [] [] []"
  have cfg: "c_RunnerName (ag_cfg demo_agent) = ''host''" "c_RunnerLabels (ag_cfg demo_agent) = ''linux,amd64,docker''"
    "c_RunnerRegistrationToken (ag_cfg demo_agent) = ''dev-registration-token''"
    "c_RunnerRegistrationToken (sv_cfg wire_server) = ''dev-registration-token''" "ae_GOARCH beat_env = ''amd64''" "ae_GOOS beat_env = ''linux''"
    by (simp_all add: demo_agent_def demo_config_def wire_server_def sample_server_def Load_def env_def hostname_def sample_env_def beat_env_def quiet_def demo_def)
  have ls: "split_on CHR '','' ''linux,amd64,docker'' = [''linux'', ''amd64'', ''docker'']" by simp
  have t: "pg_text ''host''" "pg_text ''amd64''" "pg_text ''linux''" "pg_text ''docker''" "pg_text ''new''" by (simp_all add: utf8_rest_def)
  have "length (agent_bytes (registration beat_env demo_agent)) \<le> 2 ^ 16"
    using length_encode_string [of "''architecture''"] length_encode_string [of "''labels''"] length_encode_string [of "''name''"]
      length_encode_string [of "''operating_system''"] length_encode_string [of "''host''"] length_encode_string [of "''linux''"]
      length_encode_string [of "''amd64''"] length_encode_string [of "''docker''"]
    by (simp add: registration_def cfg ls agent_bytes_def strings_def del: split_on.simps)
  then have r: "registration_text beat_env demo_agent" by (simp add: registration_text_def cfg ls t del: split_on.simps)
  have b: "rq_random ?base = Inr ''abc''" "rq_uuid ?base = ''new''" by (simp_all add: sample_request_def)
  have c: "c_RunnerRegistrationToken (ag_cfg demo_agent) = c_RunnerRegistrationToken (sv_cfg wire_server)" "db_script (w_db ?w) = []"
    "''abc'' \<noteq> []" "segment (rq_uuid ?base)" "pg_text (rq_uuid ?base)" "rq_uuid ?base \<notin> r_id ` set (runners (w_db ?w))"
    using t(5) by (simp_all add: cfg b segment_def pool_eq del: text_from.simps)
  from registration_admits [OF beat_sample(1) wire_server_json beat_sample(2) r c(1,2) b(1) c(3-6), of Itoa id "()"]
  obtain a' w' where x: "register (connect_agent agent_bytes ?base (c_ServerURL (ag_cfg demo_agent)) wire_server (render_json Itoa id) beat_env)
      demo_agent ((), ?w) = (Inr a', ((), w'))" "ag_id a' = ''new''" "registered wire_server a' (w_db w')"
      "w_db w' = pool\<lparr>runners := runners pool @ [admitted wire_server beat_env demo_agent (ag_id a') (ag_token a') (db_now pool)]\<rparr>"
    unfolding b by fastforce
  then have "map_option r_labels (runner_at (w_db w') ''new'') = Some [''linux'', ''amd64'', ''docker'']"
    by (simp add: runner_at_def pool_eq admitted_def cfg ls del: split_on.simps)
  with x show ?thesis by blast
qed

section \<open>Delivery\<close>

definition poll_request :: "agent \<Rightarrow> agent_request" where
  "poll_request a = \<lparr>aq_method = ''GET'', aq_url = c_ServerURL (ag_cfg a) @ ''/api/v1/runners/'' @ ag_id a @ ''/job'',
     aq_headers = [(''Authorization'', ''Bearer '' @ ag_token a), (''X-Runner-ID'', ag_id a), (''Content-Type'', ''application/json'')],
     aq_body = AgNone\<rparr>"

lemma poll_request_sel:
  "aq_method (poll_request a) = ''GET''" "TrimPrefix (aq_url (poll_request a)) (c_ServerURL (ag_cfg a)) = ''/api/v1/runners/'' @ ag_id a @ ''/job''"
  "rq_header (wire_request enc base (poll_request a)) ''X-Runner-ID'' = ag_id a"
  "rq_header (wire_request enc base (poll_request a)) ''Authorization'' = ''Bearer '' @ ag_token a"
  by (simp_all add: poll_request_def wire_request_def TrimPrefix_append del: append_Cons)

lemma poll_arrives:
  fixes srv :: "('q, 'g) server" and w :: "('q, 'g) api_world"
  assumes "registered srv a (w_db w)" "db_script (w_db w) = []"
  shows "\<exists>x. arrive agent_bytes base (c_ServerURL (ag_cfg a)) srv (poll_request a) w =
    (case handlePollJob srv ((wire_request agent_bytes base (poll_request a))\<lparr>rq_id := ag_id a\<rparr>) w of (rs, w') \<Rightarrow> (rs\<lparr>rs_request_id := x\<rparr>, w'))"
proof -
  let ?rq = "(wire_request agent_bytes base (poll_request a))\<lparr>rq_id := ag_id a\<rparr>"
  have seg: "segment (ag_id a)" using assms(1) by (simp add: registered_def)
  have h: "rq_header ?rq ''X-Runner-ID'' = ag_id a" "rq_header ?rq ''Authorization'' = ''Bearer '' @ ag_token a"
    by (simp_all add: poll_request_sel del: append_Cons)
  have "auth_token ?rq = ag_token a" unfolding auth_token_def h by (rule TrimPrefix_append)
  moreover have "auth_id ?rq = ag_id a" using seg h(1) by (simp add: auth_id_def segment_def)
  ultimately have "credentials_ok srv ?rq (w_db w)" using assms(1) by (auto simp: credentials_ok_def registered_def segment_def)
  from sample_auth_passes [OF this assms(2), of handlePollJob] show ?thesis
    unfolding arrive_def poll_request_sel Routes_poll [OF seg] withRequestID_def Let_def by (auto split: prod.splits)
qed

text \<open>C9: What the scheduler drops in the mailbox is what the agent gets to run. Let a registered agent poll the control plane, while the database
  answers. If the mailbox of the agent yields a job id, the agent receives the job of that row with every field that is delivered, and the
  clone token minted for its repository, empty when none was; if the mailbox is empty, the agent is told that there is no work and goes
  on polling. Neither changes the tables.\<close>

theorem job_reaches_agent:
  fixes srv :: "('q, 'g) server" and w :: "('q, 'g) api_world"
  assumes "reachable_urls E" "json_agent from t0 E" "registered srv a (w_db w)" "db_script (w_db w) = []"
    and "job_at (w_db w) i = Some r" "job_readable from fmt (scanJob r)" "job_text (scanJob r)"
    and "gh_CloneToken (sv_github srv) (j_repository r) (a_github w) = ((token, e), g)" "pg_text token"
  shows "(q_Receive (sv_queue srv) (ag_id a) (25 * second) (w_queue w) = (Inr i, m) \<longrightarrow>
      poll (connect_agent agent_bytes base (c_ServerURL (ag_cfg a)) srv (render_json fmt q) E) a (n, w)
        = (Inr (Some (scanJob r, token)), (n, w\<lparr>w_queue := m, a_github := g\<rparr>)))
    \<and> (q_Receive (sv_queue srv) (ag_id a) (25 * second) (w_queue w) = (Inl ErrEmpty, m) \<longrightarrow>
      poll (connect_agent agent_bytes base (c_ServerURL (ag_cfg a)) srv (render_json fmt q) E) a (n, w) = (Inr None, (n, w\<lparr>w_queue := m\<rparr>)))"
proof -
  let ?E = "connect_agent agent_bytes base (c_ServerURL (ag_cfg a)) srv (render_json fmt q) E"
  let ?rq = "(wire_request agent_bytes base (poll_request a))\<lparr>rq_id := ag_id a\<rparr>"
  have sent: "agent_request_for ?E a ''GET'' (''/api/v1/runners/'' @ ag_id a @ ''/job'') AgNone = Inr (poll_request a)"
    using assms(1) by (simp add: agent_request_for_def reachable_urls_def connect_agent_def poll_request_def Let_def)
  have read: "ae_delivery ?E (render_json fmt q (JobDelivery (scanJob r) token)) = Inr (scanJob r, token)"
    using delivery_read [OF assms(6), of t0 q token] assms(2,7,9)
    by (simp add: connect_agent_def json_agent_def clean_job_text to_valid_text)
  obtain x where x: "arrive agent_bytes base (c_ServerURL (ag_cfg a)) srv (poll_request a) w =
      (case handlePollJob srv ?rq w of (rs, w') \<Rightarrow> (rs\<lparr>rs_request_id := x\<rparr>, w'))"
    using poll_arrives [OF assms(3,4)] by blast
  have repo: "j_repository (scanJob r) = j_repository r" by (simp add: scanJob_def)
  have "handlePollJob srv ?rq w = (writeJSON 200 (JobDelivery (scanJob r) token), w\<lparr>w_queue := m, a_github := g\<rparr>)"
    if "q_Receive (sv_queue srv) (ag_id a) (25 * second) (w_queue w) = (Inr i, m)"
    using that assms(4,5,8) repo
    by (simp add: handlePollJob_def on_queue_def on_github_def on_db_eq GetJob_def select_def job_at_def)
  moreover have "handlePollJob srv ?rq w = (respond 204 Empty, w\<lparr>w_queue := m\<rparr>)"
    if "q_Receive (sv_queue srv) (ag_id a) (25 * second) (w_queue w) = (Inl ErrEmpty, m)"
    using that by (simp add: handlePollJob_def on_queue_def)
  moreover have "ae_Do ?E (poll_request a) (n, w) = (case handlePollJob srv ?rq w of (rs, w') \<Rightarrow>
      (Inr \<lparr>ar_status = rs_code rs, ar_body = render_json fmt q (rs_body rs)\<rparr>, (n, w')))"
    by (simp add: connect_agent_def x split: prod.splits)
  ultimately show ?thesis using sent read by (simp add: poll_def writeJSON_def respond_def)
qed

theorem job_reaches_agent_witness:
  "fst (poll (connect_agent agent_bytes (sample_request [] [] [] []) (c_ServerURL (ag_cfg beat_agent)) wire_server (render_json Itoa id) beat_env)
     beat_agent ((), (sample_state pool [] [])\<lparr>w_queue := snd (Dispatch mem_redis ''x'' ''a'' (mem_with [] [] []))\<rparr>))
   = Inr (Some (scanJob (hd (jobs pool)), ''secret''))"
proof -
  let ?w = "(sample_state pool [] [])\<lparr>w_queue := snd (Dispatch mem_redis ''x'' ''a'' (mem_with [] [] []))\<rparr>"
  obtain m where m: "q_Receive (sv_queue wire_server) (ag_id beat_agent) (25 * second) (w_queue ?w) = (Inr ''a'', m)"
    by (auto simp: wire_server_def sample_server_def redis_queue_def Receive_def Dispatch_def mem_with_def mem_eval)
  have reg: "registered wire_server beat_agent (w_db ?w)" by (rule beat_sample) simp
  have row: "job_at (w_db ?w) ''a'' = Some (hd (jobs pool))" by (simp add: job_at_def pool_eq)
  have read: "job_readable Atoi Itoa (scanJob (hd (jobs pool)))"
    by (simp add: job_readable_def scanJob_def pool_eq to_valid_text Itoa_text Atoi_Itoa_int in_int64_def)
  have t: "job_text (scanJob (hd (jobs pool)))" by (simp add: job_text_def scanJob_def pool_eq utf8_rest_def)
  have g: "gh_CloneToken (sv_github wire_server) (j_repository (hd (jobs pool))) (a_github ?w) = ((''secret'', None), ())"
    by (simp add: wire_server_def sample_server_def sample_github_def)
  have "pg_text ''secret''" by (simp add: utf8_rest_def)
  from job_reaches_agent [OF beat_sample(1,2) reg _ row read t g this, where base = "sample_request [] [] [] []" and q = id and n = "()"] m
  show ?thesis by simp
qed

end
