(* ===== verification/Schema.thy ===== *)
theory Schema
  imports Migrate Store
begin

text \<open>
  The SQL files under \<^verbatim>\<open>migrations/\<close>: their statements as values, what PostgreSQL does with each of them to the catalog, and what the
  declared constraints mean for rows. A row gives each column a value, \<open>None\<close> for \<^verbatim>\<open>NULL\<close>. That the text of a file is read as its
  statements is an argument (\<open>parse\<close>).
\<close>

section \<open>The catalog\<close>

datatype sql_type = Text | Text_Array | Int4 | Timestamptz

datatype sql_default = DefaultText string | DefaultEmptyArray | DefaultInt int | DefaultNow

record column =
  co_name :: string
  co_type :: sql_type
  co_not_null :: bool
  co_default :: "sql_default option"
  co_references :: "(string \<times> string) option"  \<comment> \<open>ON DELETE SET NULL\<close>

record table =
  tb_name :: string
  tb_key :: string
  tb_columns :: "column list"

record index =
  ix_name :: string
  ix_table :: string
  ix_unique :: bool
  ix_columns :: "string list"
  ix_where :: "(string \<times> string list) option"  \<comment> \<open>the column is IN the list\<close>

record catalog =
  ct_tables :: "table list"
  ct_indexes :: "index list"

definition empty_catalog :: catalog where
  "empty_catalog = \<lparr>ct_tables = [], ct_indexes = []\<rparr>"

definition find_table :: "string \<Rightarrow> catalog \<Rightarrow> table option" where
  "find_table t c = find (\<lambda>tb. tb_name tb = t) (ct_tables c)"

definition column_names :: "table \<Rightarrow> string list" where
  "column_names t = map co_name (tb_columns t)"

section \<open>Statements\<close>

text \<open>Every statement of the files has \<^verbatim>\<open>IF EXISTS\<close> or \<^verbatim>\<open>IF NOT EXISTS\<close>, \<^verbatim>\<open>ALTER TABLE\<close> on the column only.\<close>

datatype ddl =
    CreateTable table
  | CreateIndex index
  | DropTable string
  | DropIndex string
  | AddColumn string column
  | DropColumn string string

definition reference_ok :: "catalog \<Rightarrow> column \<Rightarrow> bool" where
  "reference_ok c co = (case co_references co of
     None \<Rightarrow> True
   | Some (t, k) \<Rightarrow> (case find_table t c of None \<Rightarrow> False | Some tb \<Rightarrow> tb_key tb = k))"

definition referenced :: "string \<Rightarrow> catalog \<Rightarrow> bool" where
  "referenced t c = list_ex (\<lambda>tb. tb_name tb \<noteq> t \<and> list_ex (\<lambda>co. map_option fst (co_references co) = Some t) (tb_columns tb)) (ct_tables c)"

definition change_table :: "string \<Rightarrow> (table \<Rightarrow> table) \<Rightarrow> catalog \<Rightarrow> catalog" where
  "change_table t f c = c\<lparr>ct_tables := map (\<lambda>tb. if tb_name tb = t then f tb else tb) (ct_tables c)\<rparr>"

definition uses_column :: "string \<Rightarrow> index \<Rightarrow> bool" where
  "uses_column k i \<longleftrightarrow> k \<in> set (ix_columns i) \<or> map_option fst (ix_where i) = Some k"

fun exec_ddl :: "ddl \<Rightarrow> catalog \<Rightarrow> string + catalog" where
  "exec_ddl (CreateTable t) c =
     (if find_table (tb_name t) c \<noteq> None then Inr c
      else if list_all (reference_ok c) (tb_columns t) then Inr (c\<lparr>ct_tables := ct_tables c @ [t]\<rparr>)
      else Inl ''relation does not exist'')"
| "exec_ddl (CreateIndex i) c =
     (if list_ex (\<lambda>j. ix_name j = ix_name i) (ct_indexes c) then Inr c
      else
        (case find_table (ix_table i) c of
           None \<Rightarrow> Inl ''relation does not exist''
         | Some t \<Rightarrow>
             if set (ix_columns i) \<union> set_option (map_option fst (ix_where i)) \<subseteq> set (column_names t)
             then Inr (c\<lparr>ct_indexes := ct_indexes c @ [i]\<rparr>) else Inl ''column does not exist''))"
| "exec_ddl (DropTable t) c =
     (if find_table t c = None then Inr c
      else if referenced t c then Inl ''other objects depend on it''
      else Inr \<lparr>ct_tables = filter (\<lambda>tb. tb_name tb \<noteq> t) (ct_tables c), ct_indexes = filter (\<lambda>i. ix_table i \<noteq> t) (ct_indexes c)\<rparr>)"
| "exec_ddl (DropIndex i) c = Inr (c\<lparr>ct_indexes := filter (\<lambda>j. ix_name j \<noteq> i) (ct_indexes c)\<rparr>)"
| "exec_ddl (AddColumn t co) c =
     (case find_table t c of
        None \<Rightarrow> Inl ''relation does not exist''
      | Some tb \<Rightarrow>
          if co_name co \<in> set (column_names tb) then Inr c
          else Inr (change_table t (\<lambda>tb. tb\<lparr>tb_columns := tb_columns tb @ [co]\<rparr>) c))"
| "exec_ddl (DropColumn t k) c =
     (case find_table t c of
        None \<Rightarrow> Inl ''relation does not exist''
      | Some tb \<Rightarrow>
          Inr ((change_table t (\<lambda>tb. tb\<lparr>tb_columns := filter (\<lambda>co. co_name co \<noteq> k) (tb_columns tb)\<rparr>) c)
            \<lparr>ct_indexes := filter (\<lambda>i. \<not> (ix_table i = t \<and> uses_column k i)) (ct_indexes c)\<rparr>))"

fun exec_all :: "ddl list \<Rightarrow> catalog \<Rightarrow> string + catalog" where
  "exec_all [] c = Inr c"
| "exec_all (d # ds) c = (case exec_ddl d c of Inl e \<Rightarrow> Inl e | Inr c' \<Rightarrow> exec_all ds c')"

definition run_sql :: "(string \<Rightarrow> ddl list option) \<Rightarrow> catalog sql" where
  "run_sql parse body c = (case parse body of None \<Rightarrow> Inl ''syntax error'' | Some ds \<Rightarrow> exec_all ds c)"

section \<open>The files\<close>

definition required :: "string \<Rightarrow> sql_type \<Rightarrow> column" where
  "required n t = \<lparr>co_name = n, co_type = t, co_not_null = True, co_default = None, co_references = None\<rparr>"

definition defaulted :: "string \<Rightarrow> sql_type \<Rightarrow> sql_default \<Rightarrow> column" where
  "defaulted n t d = \<lparr>co_name = n, co_type = t, co_not_null = True, co_default = Some d, co_references = None\<rparr>"

definition nullable :: "string \<Rightarrow> sql_type \<Rightarrow> column" where
  "nullable n t = \<lparr>co_name = n, co_type = t, co_not_null = False, co_default = None, co_references = None\<rparr>"

definition runners_table :: table where
  "runners_table = \<lparr>tb_name = ''runners'', tb_key = ''id'', tb_columns = [
     required ''id'' Text, required ''name'' Text, required ''token_hash'' Text, required ''status'' Text,
     defaulted ''labels'' Text_Array DefaultEmptyArray, required ''architecture'' Text, required ''operating_system'' Text,
     nullable ''current_job_id'' Text, defaulted ''last_heartbeat'' Timestamptz DefaultNow,
     nullable ''last_assigned_at'' Timestamptz, defaulted ''created_at'' Timestamptz DefaultNow]\<rparr>"

definition jobs_table :: table where
  "jobs_table = \<lparr>tb_name = ''jobs'', tb_key = ''id'', tb_columns = [
     required ''id'' Text, required ''repository'' Text, required ''clone_url'' Text, required ''commit_sha'' Text,
     required ''branch'' Text, required ''event_type'' Text, defaulted ''config_ref'' Text (DefaultText ''forgerun.yml''),
     defaulted ''labels'' Text_Array DefaultEmptyArray, required ''status'' Text,
     (nullable ''runner_id'' Text)\<lparr>co_references := Some (''runners'', ''id'')\<rparr>, defaulted ''attempts'' Int4 (DefaultInt 0),
     nullable ''exit_code'' Int4, defaulted ''error'' Text (DefaultText []), defaulted ''logs'' Text (DefaultText []),
     defaulted ''created_at'' Timestamptz DefaultNow, nullable ''started_at'' Timestamptz, nullable ''completed_at'' Timestamptz]\<rparr>"

definition jobs_active_unique :: index where
  "jobs_active_unique = \<lparr>ix_name = ''jobs_active_unique'', ix_table = ''jobs'', ix_unique = True,
     ix_columns = [''repository'', ''commit_sha'', ''event_type''], ix_where = Some (''status'', [''QUEUED'', ''ASSIGNED'', ''RUNNING''])\<rparr>"

definition jobs_status_created :: index where
  "jobs_status_created = \<lparr>ix_name = ''jobs_status_created'', ix_table = ''jobs'', ix_unique = False,
     ix_columns = [''status'', ''created_at''], ix_where = None\<rparr>"

definition runners_status :: index where
  "runners_status = \<lparr>ix_name = ''runners_status'', ix_table = ''runners'', ix_unique = False, ix_columns = [''status''], ix_where = None\<rparr>"

definition init_up :: "ddl list" where
  "init_up = [CreateTable runners_table, CreateTable jobs_table, CreateIndex jobs_active_unique,
     CreateIndex jobs_status_created, CreateIndex runners_status]"

definition init_down :: "ddl list" where
  "init_down = [DropIndex ''runners_status'', DropIndex ''jobs_status_created'', DropIndex ''jobs_active_unique'',
     DropTable ''jobs'', DropTable ''runners'']"

definition log_sequence_up :: "ddl list" where
  "log_sequence_up = [AddColumn ''jobs'' (defaulted ''log_seq'' Int4 (DefaultInt 0))]"

definition log_sequence_down :: "ddl list" where
  "log_sequence_down = [DropColumn ''jobs'' ''log_seq'']"

definition migration_files :: "string \<Rightarrow> string \<Rightarrow> string \<Rightarrow> string \<Rightarrow> files" where
  "migration_files a b c d = [(''0001_init.down.sql'', a), (''0001_init.sql'', b),
     (''0002_log_sequence.down.sql'', c), (''0002_log_sequence.sql'', d)]"
  \<comment> \<open>the embedded directory, with the texts of the files\<close>

section \<open>Rows\<close>

datatype sql_value = VText string | VArray "string list" | VInt int | VTime time

type_synonym cells = "string \<rightharpoonup> sql_value"

fun has_type :: "sql_type \<Rightarrow> sql_value \<Rightarrow> bool" where
  "has_type Text (VText _) = True"
| "has_type Text_Array (VArray _) = True"
| "has_type Int4 (VInt _) = True"
| "has_type Timestamptz (VTime _) = True"
| "has_type _ _ = False"

definition cells_of :: "(string \<times> sql_value option) list \<Rightarrow> cells" where
  "cells_of cs k = (case map_of cs k of None \<Rightarrow> None | Some v \<Rightarrow> v)"

definition job_cells :: "job_row \<Rightarrow> cells" where
  "job_cells r = cells_of
     [(''id'', Some (VText (j_id r))), (''repository'', Some (VText (j_repository r))), (''clone_url'', Some (VText (j_clone_url r))),
      (''commit_sha'', Some (VText (j_commit_sha r))), (''branch'', Some (VText (j_branch r))), (''event_type'', Some (VText (j_event_type r))),
      (''config_ref'', Some (VText (j_config_ref r))), (''labels'', Some (VArray (j_labels r))),
      (''status'', Some (VText (string_of_JobStatus (j_status r)))), (''runner_id'', map_option VText (j_runner_id r)),
      (''attempts'', Some (VInt (j_attempts r))), (''exit_code'', map_option VInt (j_exit_code r)), (''error'', Some (VText (j_error r))),
      (''logs'', Some (VText (j_logs r))), (''created_at'', Some (VTime (j_created_at r))), (''started_at'', map_option VTime (j_started_at r)),
      (''completed_at'', map_option VTime (j_completed_at r)), (''log_seq'', Some (VInt (j_log_seq r)))]"

definition runner_cells :: "runner_row \<Rightarrow> cells" where
  "runner_cells r = cells_of
     [(''id'', Some (VText (r_id r))), (''name'', Some (VText (r_name r))), (''token_hash'', Some (VText (r_token_hash r))),
      (''status'', Some (VText (string_of_RunnerStatus (r_status r)))), (''labels'', Some (VArray (r_labels r))),
      (''architecture'', Some (VText (r_architecture r))), (''operating_system'', Some (VText (r_os r))),
      (''current_job_id'', map_option VText (r_current_job_id r)), (''last_heartbeat'', Some (VTime (r_last_heartbeat r))),
      (''last_assigned_at'', map_option VTime (r_last_assigned_at r)), (''created_at'', Some (VTime (r_created_at r)))]"

definition rows_of :: "db \<Rightarrow> string \<Rightarrow> cells list" where
  "rows_of s t = (if t = ''jobs'' then map job_cells (jobs s) else if t = ''runners'' then map runner_cells (runners s) else [])"

section \<open>Constraints\<close>

text \<open>Rows with a \<^verbatim>\<open>NULL\<close> in the key are not compared; a partial index covers the rows that satisfy its condition.\<close>

definition key_of :: "string list \<Rightarrow> cells \<Rightarrow> sql_value list option" where
  "key_of ks r = (if list_all (\<lambda>k. r k \<noteq> None) ks then Some (map (\<lambda>k. the (r k)) ks) else None)"

definition covers :: "index \<Rightarrow> cells \<Rightarrow> bool" where
  "covers i r = (case ix_where i of None \<Rightarrow> True | Some (k, vs) \<Rightarrow> list_ex (\<lambda>v. r k = Some (VText v)) vs)"

definition clashes :: "string list \<Rightarrow> cells \<Rightarrow> cells \<Rightarrow> bool" where
  "clashes ks r r' \<longleftrightarrow> key_of ks r \<noteq> None \<and> key_of ks r = key_of ks r'"

definition unique_violation :: "catalog \<Rightarrow> string \<Rightarrow> cells list \<Rightarrow> cells \<Rightarrow> bool" where
  "unique_violation c t rows new \<longleftrightarrow>
     list_ex (\<lambda>tb. tb_name tb = t \<and> list_ex (clashes [tb_key tb] new) rows) (ct_tables c) \<or>
     list_ex (\<lambda>i. ix_table i = t \<and> ix_unique i \<and> covers i new \<and> list_ex (\<lambda>r. covers i r \<and> clashes (ix_columns i) new r) rows) (ct_indexes c)"

fun all_apart :: "(cells \<Rightarrow> cells \<Rightarrow> bool) \<Rightarrow> cells list \<Rightarrow> bool" where
  "all_apart P [] \<longleftrightarrow> True"
| "all_apart P (r # rs) \<longleftrightarrow> \<not> list_ex (P r) rs \<and> all_apart P rs"

definition row_ok :: "table \<Rightarrow> cells \<Rightarrow> bool" where
  "row_ok t r \<longleftrightarrow> list_all (\<lambda>co. case r (co_name co) of None \<Rightarrow> \<not> co_not_null co | Some v \<Rightarrow> has_type (co_type co) v) (tb_columns t)"

definition references_ok :: "(string \<Rightarrow> cells list) \<Rightarrow> table \<Rightarrow> cells \<Rightarrow> bool" where
  "references_ok rows t r \<longleftrightarrow> list_all (\<lambda>co. case co_references co of
       None \<Rightarrow> True
     | Some (u, k) \<Rightarrow> r (co_name co) = None \<or> list_ex (\<lambda>r'. r' k = r (co_name co)) (rows u)) (tb_columns t)"

definition satisfies :: "catalog \<Rightarrow> (string \<Rightarrow> cells list) \<Rightarrow> bool" where
  "satisfies c rows \<longleftrightarrow>
     list_all (\<lambda>t. list_all (\<lambda>r. row_ok t r \<and> references_ok rows t r) (rows (tb_name t)) \<and> all_apart (clashes [tb_key t]) (rows (tb_name t))) (ct_tables c)
     \<and> list_all (\<lambda>i. ix_unique i \<longrightarrow> all_apart (clashes (ix_columns i)) (filter (covers i) (rows (ix_table i)))) (ct_indexes c)"

text \<open>What \<^verbatim>\<open>INSERT\<close> stores: the given values, and the defaults of the other columns.\<close>

fun default_value :: "time \<Rightarrow> sql_default \<Rightarrow> sql_value" where
  "default_value now (DefaultText s) = VText s"
| "default_value now DefaultEmptyArray = VArray []"
| "default_value now (DefaultInt n) = VInt n"
| "default_value now DefaultNow = VTime now"

definition inserted :: "table \<Rightarrow> time \<Rightarrow> cells \<Rightarrow> cells" where
  "inserted t now given k =
     (case find (\<lambda>co. co_name co = k) (tb_columns t) of
        None \<Rightarrow> None
      | Some co \<Rightarrow> (case given k of Some v \<Rightarrow> Some v | None \<Rightarrow> map_option (default_value now) (co_default co)))"

definition given_job :: "Job \<Rightarrow> cells" where
  "given_job j = map_of [(''id'', VText (j_id j)), (''repository'', VText (j_repository j)), (''clone_url'', VText (j_clone_url j)),
     (''commit_sha'', VText (j_commit_sha j)), (''branch'', VText (j_branch j)), (''event_type'', VText (j_event_type j)),
     (''config_ref'', VText (j_config_ref j)), (''labels'', VArray (j_labels j)), (''status'', VText (string_of_JobStatus (j_status j)))]"

definition given_runner :: "Runner \<Rightarrow> string \<Rightarrow> time \<Rightarrow> cells" where
  "given_runner r hash now = map_of [(''id'', VText (r_id r)), (''name'', VText (r_name r)), (''token_hash'', VText hash), (''status'', VText ''IDLE''),
     (''labels'', VArray (r_labels r)), (''architecture'', VText (r_architecture r)), (''operating_system'', VText (r_os r)),
     (''last_heartbeat'', VTime now)]"

definition final_jobs_table :: table where
  "final_jobs_table = jobs_table\<lparr>tb_columns := tb_columns jobs_table @ [defaulted ''log_seq'' Int4 (DefaultInt 0)]\<rparr>"

definition current_schema :: catalog where
  "current_schema = \<lparr>ct_tables = [runners_table, final_jobs_table],
     ct_indexes = [jobs_active_unique, jobs_status_created, runners_status]\<rparr>"

definition first_schema :: catalog where
  "first_schema = \<lparr>ct_tables = [runners_table, jobs_table], ct_indexes = [jobs_active_unique, jobs_status_created, runners_status]\<rparr>"

lemmas schema_defs = final_jobs_table_def runners_table_def jobs_table_def jobs_active_unique_def jobs_status_created_def runners_status_def
  required_def defaulted_def nullable_def

section \<open>What the files do\<close>

lemma init_up_runs: "exec_all init_up empty_catalog = Inr first_schema"
  by (simp add: init_up_def empty_catalog_def first_schema_def find_table_def reference_ok_def column_names_def schema_defs)

lemma log_sequence_up_runs: "exec_all log_sequence_up first_schema = Inr current_schema"
  by (simp add: log_sequence_up_def first_schema_def current_schema_def find_table_def column_names_def change_table_def schema_defs)

lemma log_sequence_down_runs: "exec_all log_sequence_down current_schema = Inr first_schema"
  by (simp add: log_sequence_down_def first_schema_def current_schema_def find_table_def change_table_def uses_column_def schema_defs)

lemma init_down_runs: "exec_all init_down first_schema = Inr empty_catalog"
  by (simp add: init_down_def first_schema_def empty_catalog_def find_table_def referenced_def schema_defs)

lemma up_again: "exec_all init_up current_schema = Inr current_schema" "exec_all log_sequence_up current_schema = Inr current_schema"
  by (simp_all add: init_up_def log_sequence_up_def current_schema_def find_table_def column_names_def schema_defs)

end
