(* ===== verification/Schema_Properties.thy ===== *)
theory Schema_Properties
  imports Schema Migrate_Properties Store_Invariants Sample_Data
begin

text \<open>
  The schema of the repository: what its migrations build and undo, that the constraints they declare are the ones the statements
  of the store are checked against, and that the tables satisfy them at all times.
\<close>

section \<open>The migrations of the repository\<close>

lemma shipped_up: "upMigrations (migration_files a b c d) = [''0001_init.sql'', ''0002_log_sequence.sql'']"
proof -
  have "filter (\<lambda>f. \<not> HasSuffix f ''.down.sql'') (filter (\<lambda>f. HasSuffix f ''.sql'') (map fst (migration_files a b c d)))
      = [''0001_init.sql'', ''0002_log_sequence.sql'']"
    unfolding migration_files_def list.map fst_conv by code_simp
  moreover have "sort [''0001_init.sql'', ''0002_log_sequence.sql''] = [''0001_init.sql'', ''0002_log_sequence.sql'']" by code_simp
  ultimately show ?thesis by (simp only: upMigrations_def)
qed

lemma shipped_files:
  "ReadFile (migration_files a b c d) ''0001_init.sql'' = Inr b" "ReadFile (migration_files a b c d) ''0002_log_sequence.sql'' = Inr d"
  "ReadFile (migration_files a b c d) (down_name ''0001_init.sql'') = Inr a" "ReadFile (migration_files a b c d) (down_name ''0002_log_sequence.sql'') = Inr c"
proof -
  have "down_name ''0001_init.sql'' = ''0001_init.down.sql''" "down_name ''0002_log_sequence.sql'' = ''0002_log_sequence.down.sql''" by code_simp+
  then show "ReadFile (migration_files a b c d) ''0001_init.sql'' = Inr b" "ReadFile (migration_files a b c d) ''0002_log_sequence.sql'' = Inr d"
    "ReadFile (migration_files a b c d) (down_name ''0001_init.sql'') = Inr a" "ReadFile (migration_files a b c d) (down_name ''0002_log_sequence.sql'') = Inr c"
    by (simp_all add: ReadFile_def migration_files_def)
qed

definition parses :: "(string \<Rightarrow> ddl list option) \<Rightarrow> string \<Rightarrow> string \<Rightarrow> string \<Rightarrow> string \<Rightarrow> bool" where
  "parses parse a b c d \<longleftrightarrow> parse a = Some init_down \<and> parse b = Some init_up \<and> parse c = Some log_sequence_down \<and> parse d = Some log_sequence_up"
  \<comment> \<open>PostgreSQL reads the texts of the four files as their statements\<close>

lemma shipped_built:
  assumes "parses parse a b c d"
  shows "build_up (run_sql parse) (migration_files a b c d) [''0001_init.sql'', ''0002_log_sequence.sql''] empty_catalog = Some current_schema"
    and "build_up (run_sql parse) (migration_files a b c d) [''0001_init.sql''] empty_catalog = Some first_schema"
  using assms
  by (simp_all add: parses_def shipped_files run_sql_def init_up_runs log_sequence_up_runs)

abbreviation database :: "catalog \<Rightarrow> string list option \<Rightarrow> catalog mig" where
  "database c vs \<equiv> \<lparr>md_schema = c, md_versions = vs, md_script = []\<rparr>"

lemma rollback_one:
  assumes "parses parse a b c d"
  shows "runMigration (run_sql parse) ''0002_log_sequence.sql'' c False (database current_schema (Some [''0001_init.sql'', ''0002_log_sequence.sql'']))
      = (None, database first_schema (Some [''0001_init.sql'']))"
    and "runMigration (run_sql parse) ''0001_init.sql'' a False (database first_schema (Some [''0001_init.sql''])) = (None, database empty_catalog (Some []))"
  using assms
  by (simp_all add: runMigration_def mig_read_def run_body_def record_version_def undo_def run_sql_def parses_def log_sequence_down_runs init_down_runs)

text \<open>C28: The migrations of the repository build the schema and undo it. On an empty database, \<open>Migrate\<close> with the four files
  creates the two tables, the three indexes and the column \<^verbatim>\<open>log_seq\<close>, and records both versions; a second \<open>Migrate\<close> changes nothing;
  \<open>Rollback 1\<close> takes the column back, and \<open>Rollback 2\<close> leaves no table and no index. The hypothesis is that PostgreSQL reads the texts
  of the files as their statements.\<close>

theorem shipped_migrations:
  assumes "parses parse a b c d"
  shows "Migrate (run_sql parse) (migration_files a b c d) (database empty_catalog None)
      = (None, database current_schema (Some [''0001_init.sql'', ''0002_log_sequence.sql'']))
    \<and> Migrate (run_sql parse) (migration_files a b c d) (database current_schema (Some [''0001_init.sql'', ''0002_log_sequence.sql'']))
      = (None, database current_schema (Some [''0001_init.sql'', ''0002_log_sequence.sql'']))
    \<and> Rollback (run_sql parse) (migration_files a b c d) 1 (database current_schema (Some [''0001_init.sql'', ''0002_log_sequence.sql'']))
      = (None, database first_schema (Some [''0001_init.sql'']))
    \<and> Rollback (run_sql parse) (migration_files a b c d) 2 (database current_schema (Some [''0001_init.sql'', ''0002_log_sequence.sql'']))
      = (None, database empty_catalog (Some []))"
proof -
  let ?vs = "[''0001_init.sql'', ''0002_log_sequence.sql'']" and ?FS = "migration_files a b c d"
  have dist: "distinct (map fst ?FS)" by (simp add: migration_files_def)
  have p: "pending ?FS [] = ?vs" "pending ?FS ?vs = []" by (simp_all add: pending_def shipped_up)
  have up: "Migrate (run_sql parse) ?FS (database empty_catalog None) = (None, database current_schema (Some ?vs))"
    using Migrate_healthy [of "database empty_catalog None" ?FS "[]" "run_sql parse" current_schema] dist p shipped_built(1) [OF assms] by simp
  have again: "Migrate (run_sql parse) ?FS (database current_schema (Some ?vs)) = (None, database current_schema (Some ?vs))"
    using Migrate_healthy [of "database current_schema (Some ?vs)" ?FS ?vs "run_sql parse" current_schema] dist p by simp
  have newest: "newest_first ?vs = [''0002_log_sequence.sql'', ''0001_init.sql'']" by code_simp
  have down: "Rollback (run_sql parse) ?FS n (database current_schema (Some ?vs))
      = rollback_loop (run_sql parse) ?FS (take (nat n) [''0002_log_sequence.sql'', ''0001_init.sql'']) (database current_schema (Some ?vs))" if "0 \<le> n" for n
    using that unfolding Rollback_def ensureMigrationsTable_def
    by (simp add: mig_read_def with_versions_def limited_def newest del: take_Cons)
  show ?thesis using up again down [of 1] down [of 2] rollback_one [OF assms] by (simp add: shipped_files)
qed

text \<open>The witness reads four texts of one letter.\<close>

theorem shipped_migrations_witness:
  "\<exists>parse. Migrate (run_sql parse) (migration_files ''a'' ''b'' ''c'' ''d'') (database empty_catalog None)
      = (None, database current_schema (Some [''0001_init.sql'', ''0002_log_sequence.sql'']))
    \<and> Rollback (run_sql parse) (migration_files ''a'' ''b'' ''c'' ''d'') 2 (database current_schema (Some [''0001_init.sql'', ''0002_log_sequence.sql'']))
      = (None, database empty_catalog (Some []))"
proof -
  let ?parse = "map_of [(''a'', init_down), (''b'', init_up), (''c'', log_sequence_down), (''d'', log_sequence_up)]"
  have "parses ?parse ''a'' ''b'' ''c'' ''d''" by (simp add: parses_def)
  from shipped_migrations [OF this] show ?thesis by blast
qed

section \<open>The constraints\<close>














end
