(* ===== verification/Spec2Isabelle.thy ===== *)
theory Spec2Isabelle
  imports Store_Properties Queue_Properties Service_Properties Api_Properties Github_Properties Jobspec_Properties
    Runner_Properties Migrate_Properties Commands_Properties Protocol_Properties Middleware_Properties Control_Properties
    System_Properties Heartbeat_Properties Fairness Joining_Properties Schema_Properties
begin

text \<open>
  A verification of ForgeRun, a continuous-integration system in Go.

  \<^bold>\<open>The program.\<close> GitHub sends webhooks to the API (\<^verbatim>\<open>internal/api\<close>, \<^verbatim>\<open>internal/github\<close>), which stores a job in PostgreSQL
  (\<^verbatim>\<open>internal/store\<close>) and puts its id on a Redis queue (\<^verbatim>\<open>internal/queue\<close>). The scheduler (\<^verbatim>\<open>internal/scheduler\<close>) takes
  ids from the queue, chooses an idle runner with the right labels, assigns the job in the database and
  drops the id in the mailbox of the runner; its reaper puts the jobs of silent runners back. A runner
  (\<^verbatim>\<open>internal/runner\<close>) registers, polls its mailbox through the API, sends heartbeats, checks the commit out, reads
  the build file (\<^verbatim>\<open>internal/jobspec\<close>), runs it in a Docker container (\<^verbatim>\<open>internal/executor\<close>), ships the log in numbered
  chunks and reports the result. Three processes (\<^verbatim>\<open>cmd/\<close>) wire this up; the API also applies the SQL migrations.

  \<^bold>\<open>How it is modelled.\<close> Structs are records, enumerations datatypes, and one function stands for one function
  of the source, with each \<^verbatim>\<open>if err != nil\<close> as a branch and errors as values of a sum or an option. State is
  passed explicitly. What is not in the repository (Redis, the Docker engine, HTTP, git and the file
  system, the YAML decoder, hash functions and keys) is an argument. The handlers and the agent take their JSON codecs as
  arguments too; \<open>json_server\<close> and \<open>json_agent\<close> say that these are the ones of \<^verbatim>\<open>encoding/json\<close>, which are modelled byte by byte. PostgreSQL is tables as lists
  of rows, with the statements of the source as functions on them; log chunks, messages, sequence numbers and exit
  codes are refused when their column cannot hold them (text that is not UTF-8 or has a byte 0, integers beyond
  32 bits), the other arguments are taken to fit. Every call to it consumes an outcome of a
  script: it succeeds, it fails before it took effect, or it fails after. Go strings are lists of bytes, and
  64-bit integers are integers with the wrap-around or the range test written out where it matters (log
  sequence numbers, memory limits, \<^verbatim>\<open>Atoi\<close>). Times and durations are integers in nanoseconds.

  \<^bold>\<open>The theories\<close>, in the order they build on each other.
  \<^item> \<^verbatim>\<open>Prelude\<close>, \<^verbatim>\<open>Go_Strings\<close>: outcomes and scripts, lemmas on tables; what the code uses of Go's string, number,
    hex and base64 packages.
  \<^item> \<^verbatim>\<open>Models\<close>: jobs and runners, their state machines and labels (\<^verbatim>\<open>internal/models\<close>).
  \<^item> \<^verbatim>\<open>Store\<close>: every method of \<^verbatim>\<open>store.go\<close>. \<^verbatim>\<open>Store_Steps\<close>: the step relation of one database call by any client with any
    stale snapshot, and the locale \<open>statement_invariant\<close>, which lifts a fact about single statements to all
    methods, failures and interleavings. \<^verbatim>\<open>Store_Invariants\<close>, \<^verbatim>\<open>Store_History\<close> interpret it; \<^verbatim>\<open>Store_Behaviour\<close> computes each
    method; \<^verbatim>\<open>Ownership\<close> relates \<^verbatim>\<open>runner_id\<close> and \<^verbatim>\<open>current_job_id\<close>.
  \<^item> \<^verbatim>\<open>Queue\<close>: the \<^verbatim>\<open>Queue\<close> interface as the locale \<open>job_queue\<close>, the documented behaviour of Redis as the locale
    \<open>redis_server\<close>, and the sublocale that is the proof of \<^verbatim>\<open>redis.go\<close>. \<^verbatim>\<open>Queue_Spec\<close>: an abstract queue of three lists and the
    refinement.
  \<^item> \<^verbatim>\<open>Scheduler\<close>, \<^verbatim>\<open>Service\<close>, \<^verbatim>\<open>Service_Behaviour\<close>: the policy (locale \<open>scheduling_policy\<close>, interpreted by \<open>Schedule\<close>), the loop and
    the reaper, proved once for every queue and policy in the locale \<open>scheduler_service\<close>.
  \<^item> \<^verbatim>\<open>Config\<close>, \<^verbatim>\<open>Github_Webhook\<close>, \<^verbatim>\<open>Github_Client\<close>, \<^verbatim>\<open>Jobspec\<close>: settings and log level, signatures and payloads, retries and
    installation tokens, the build file.
  \<^item> \<^verbatim>\<open>Api\<close>, \<^verbatim>\<open>Api_Behaviour\<close>: the route table, authentication and every handler.
  \<^item> \<^verbatim>\<open>Logstream\<close>, \<^verbatim>\<open>Workspace\<close>, \<^verbatim>\<open>Executor\<close>, \<^verbatim>\<open>Agent\<close>: the runner. The two locks of the log stream give a step relation; a
    checkout is followed on any machine that records its calls (locale \<open>recorded_host\<close>); the executor is the locale \<open>job_executor\<close>, interpreted by the Docker executor. \<^verbatim>\<open>Agent_Behaviour\<close> records every call
    the agent makes and gives the shape of that trace as inductive predicates.
  \<^item> \<^verbatim>\<open>Migrate\<close>, \<^verbatim>\<open>Commands\<close>: the migration runner; the three processes with their exit codes.
  \<^item> \<^verbatim>\<open>Middleware\<close>: the wrappers around the routes over any handler, at the level of the calls to the response writer.
  \<^item> \<^verbatim>\<open>Interleaving\<close>: the scheduler loop and the reaper loop cut into single calls, and the step relation in which they
    take turns with the calls of the API. \<^verbatim>\<open>Api_Interleaving\<close>: every request is a run of that relation, proved once for
    every queue in the locale \<open>job_queue\<close>.
  \<^item> \<^verbatim>\<open>Protocol\<close>: a request of the agent arriving at the route table of the API. \<^verbatim>\<open>Closed_Loop\<close>: the agent in a world
    where every request is served by the control plane; the locale \<open>kept_state\<close> lifts what the operations of such a
    world keep to whole runs of the agent.
  \<^item> \<^verbatim>\<open>Json\<close>, \<^verbatim>\<open>Json_Behaviour\<close>: what \<^verbatim>\<open>encoding/json\<close> does with bytes: the encoder with its escapes, the scanner, strings, numbers and nesting, and
    that decoding undoes encoding. \<^verbatim>\<open>Wire\<close>, \<^verbatim>\<open>Wire_Behaviour\<close>: the structs of the protocol and of the webhooks, with the tags,
    the case-insensitive names and the zero values of the source.
  \<^item> \<^verbatim>\<open>Schema\<close>: the four files of \<^verbatim>\<open>migrations/\<close> as statements, the catalog they build, and what that catalog demands of the rows:
    types, NOT NULL, defaults, primary keys, the partial unique index, the foreign key.
  \<^item> \<^verbatim>\<open>Sample_Data\<close>: a small database, built by the store's own methods, on which the witnesses evaluate. \<^verbatim>\<open>Joined_Sample\<close>: one
    run of an agent connected to it.

  \<^bold>\<open>What is shown\<close>, by theory.
  \<^item> \<^verbatim>\<open>Store_Properties\<close>: in every interleaving and under every failure a job moves along its state machine only, a
    finished job keeps its verdict, the tables stay well formed, and an assignment happens as a whole or
    not at all; without failures, job and runner always name each other; log chunks are stored exactly once.
  \<^item> \<^verbatim>\<open>Queue_Properties\<close>: the Redis queue refines the abstract one; a failing call loses no id but the one it names.
  \<^item> \<^verbatim>\<open>Service_Properties\<close>: the outcomes of an assignment, that the head of the queue is assigned when a suitable runner
    is idle, that the reaper rescues the jobs of silent runners, and that the policy picks the least
    recently used suitable runner. \<^verbatim>\<open>Fairness\<close>: a job with n ids before it is considered by turn n + 1.
  \<^item> \<^verbatim>\<open>Api_Properties\<close>, \<^verbatim>\<open>Github_Properties\<close>: authentication and ownership, webhooks, results and heartbeats; payload checks,
    bounded retries, tokens for one repository with read access only.
  \<^item> \<^verbatim>\<open>Jobspec_Properties\<close>: the job that runs does not depend on Go's map order.
  \<^item> \<^verbatim>\<open>Runner_Properties\<close>: nothing is lost or reordered in the log stream; one result per job, SUCCESS exactly for exit
    code 0; workspaces are removed; containers are confined; credentials reach only the commands that need them.
  \<^item> \<^verbatim>\<open>Migrate_Properties\<close>, \<^verbatim>\<open>Commands_Properties\<close>: schema and bookkeeping never disagree; the API serves only on a complete schema.
  \<^item> \<^verbatim>\<open>Protocol_Properties\<close>: the output of the container ends up in the job's log; one missed heartbeat is tolerated.
  \<^item> \<^verbatim>\<open>System_Properties\<close>: agent and control plane together carry an assigned job out, from the start request to the
    verdict in the database, the output in the log, the idle runner and the commit status.
  \<^item> \<^verbatim>\<open>Control_Properties\<close>: under every interleaving of the loops and the requests no QUEUED job is lost; the loops and the
    requests of the code refine the step relation.
  \<^item> \<^verbatim>\<open>Heartbeat_Properties\<close>: a cancellation reaches the agent; under every interleaving of the agent's two goroutines a job
    whose lease is kept is not abandoned, whatever late answers arrive for earlier jobs.
  \<^item> \<^verbatim>\<open>Wire_Properties\<close>: what the agent sends is what the handlers read, and the reverse, for all text; what does not fit the limit is
    refused; a push payload is read as GitHub wrote it. \<^verbatim>\<open>Joining_Properties\<close>: an agent that registers is in the pool, and the job in its
    mailbox is the job it runs.
  \<^item> \<^verbatim>\<open>Schema_Properties\<close>: the shipped migrations build the current schema on an empty database and are undone by their counterparts; the
    inserts of the store behave as the schema says; the tables satisfy it in every state the store can reach.
  \<^item> \<^verbatim>\<open>Middleware_Properties\<close>: the types of the responses, what the client and the log see of them, and that a panic stays
    inside its request.

  Some theorems state what the code does where that is not what it means to do: chunks of a second attempt
  are dropped, a chunk over 1 MiB or with a character cut in two is lost, a result that cannot be stored or a failed
  start request strands the job, a database error during a heartbeat stops a healthy build, a runner can read another's
  mailbox, an id is lost between two Redis commands, and others. Each says so in the text before it.

  \<^bold>\<open>Bounds.\<close> Every function terminates. The endless loops (\<^verbatim>\<open>Service.Run\<close>, \<^verbatim>\<open>Agent.Run\<close>) take the number of turns they make
  before the process is stopped, and the theorems hold for every number. Retries are bounded by the source.

  \<^bold>\<open>Not modelled.\<close> Log lines, but for those of the wrappers, and the logger; the passing of time in sleeps and tickers, beyond which event comes
  first; several schedulers at once (the code starts one); closing connections and pinging them; how PostgreSQL parses the text of a statement, and query plans; the text of a time stamp in
  JSON, which is an argument with the hypothesis that it can be read back; the difference of a nil and an empty slice of labels; the
  JSON of GitHub's REST answers and the YAML of the build file, whose decoders are arguments; tests. Every function of the source but constructors that only fill a struct and the one-line calls of
  \<^verbatim>\<open>Ping\<close> and \<^verbatim>\<open>Close\<close> on Docker, Redis and the pool has its definition.
\<close>

end
